(* ===== verification/Prelude.thy ===== *)
theory Prelude
  imports Main "HOL-Library.Multiset" "HOL-Library.Word" "HOL-Library.AList"
    "HOL-Library.Signed_Division"
begin

text \<open>
  Shared vocabulary of the development: how Go's basic types and failure modes
  are rendered, and the generic lemmas the components use.

  \<^item> \<open>go\<close>: the result of a Go computation that may panic; \<open>Inl\<close> is the panic.
  \<^item> \<open>time\<close> and \<open>duration\<close>: \<^verbatim>\<open>time.Time\<close> as nanoseconds since Go's zero time
    (so the zero value is 0) and \<^verbatim>\<open>time.Duration\<close> as nanoseconds.
    \<^verbatim>\<open>Time.Sub\<close> saturates at the 64-bit bounds, as documented; division of
    durations truncates towards zero (\<open>sdiv\<close>).
  \<^item> \<open>uint\<close>: Go's \<^verbatim>\<open>uint\<close> counters and limits. The counters the code increments
    count members of a slice, so they stay below the length of a slice and never
    wrap around; revisions and operation counters, which could, are \<open>64 word\<close>.
  \<^item> \<open>gomap\<close>: a Go map as an association list without duplicate keys, with the
    zero-default read \<open>gm_get\<close>, the increment \<open>gm_inc\<close> and \<open>gm_delete\<close>.
\<close>

named_theorems go_defs "unfolding of small definitions that mirror Go accessors"
named_theorems mset_cong "functions of a list that only depend on its multiset"

section \<open>Panics and errors\<close>

datatype panic = Panic string | IndexOutOfRange

type_synonym 'a go = "panic + 'a"

type_synonym goerror = string

definition go_bind :: "'a go \<Rightarrow> ('a \<Rightarrow> 'b go) \<Rightarrow> 'b go" where
  "go_bind m f = (case m of Inl p \<Rightarrow> Inl p | Inr x \<Rightarrow> f x)"

lemma go_bind_simps [simp]:
  "go_bind (Inl p) f = Inl p"
  "go_bind (Inr x) f = f x"
  by (simp_all add: go_bind_def)

lemma go_bind_eq_Inr: "go_bind m f = Inr y \<longleftrightarrow> (\<exists>x. m = Inr x \<and> f x = Inr y)"
  by (cases m) simp_all

section \<open>Time\<close>

type_synonym time = int
type_synonym duration = int
type_synonym uint = nat

definition maxDuration :: duration where "maxDuration = 2 ^ 63 - 1"
definition minDuration :: duration where "minDuration = - (2 ^ 63)"

definition Time_Sub :: "time \<Rightarrow> time \<Rightarrow> duration" where
  "Time_Sub t u = max minDuration (min maxDuration (t - u))"

definition Millisecond :: duration where "Millisecond = 1000000"
definition Second :: duration where "Second = 1000000000"
definition Minute :: duration where "Minute = 60 * Second"

lemma Second_pos [simp]: "0 < Second" by (simp add: Second_def)

lemma Time_Sub_exact: "minDuration \<le> t - u \<Longrightarrow> t - u \<le> maxDuration \<Longrightarrow> Time_Sub t u = t - u"
  by (simp add: Time_Sub_def)

lemma Time_Sub_le: "u \<le> t \<Longrightarrow> Time_Sub t u \<le> t - u"
  by (simp add: Time_Sub_def minDuration_def)

lemma Time_Sub_nonneg: "u \<le> t \<Longrightarrow> 0 \<le> Time_Sub t u"
  by (simp add: Time_Sub_def maxDuration_def)

lemma Time_Sub_pos: "u < t \<Longrightarrow> 0 < Time_Sub t u"
  by (auto simp: Time_Sub_def maxDuration_def minDuration_def max_def min_def)

lemma zdiv_le_self: "0 \<le> (d::int) \<Longrightarrow> 0 < k \<Longrightarrow> d div k \<le> d"
  by (metis div_by_1 int_one_le_iff_zero_less zdiv_mono2 zero_less_one)

lemma sdiv_pos_le: "0 \<le> (d::int) \<Longrightarrow> 0 < k \<Longrightarrow> 0 \<le> d sdiv k \<and> d sdiv k \<le> d"
  by (auto simp: signed_divide_int_def sgn_if pos_imp_zdiv_nonneg_iff intro: zdiv_le_self)

section \<open>Go maps with numeric values\<close>

type_synonym ('k, 'v) gomap = "('k \<times> 'v) list"

definition gm_get :: "('k, nat) gomap \<Rightarrow> 'k \<Rightarrow> nat" where
  "gm_get m k = (case map_of m k of None \<Rightarrow> 0 | Some v \<Rightarrow> v)"

definition gm_put :: "('k, 'v) gomap \<Rightarrow> 'k \<Rightarrow> 'v \<Rightarrow> ('k, 'v) gomap" where
  "gm_put m k v = AList.update k v m"

definition gm_inc :: "('k, nat) gomap \<Rightarrow> 'k \<Rightarrow> ('k, nat) gomap" where
  "gm_inc m k = gm_put m k (gm_get m k + 1)"

definition gm_delete :: "('k, 'v) gomap \<Rightarrow> 'k \<Rightarrow> ('k, 'v) gomap" where
  "gm_delete m k = AList.delete k m"

definition gm_wf :: "('k, 'v) gomap \<Rightarrow> bool" where
  "gm_wf m \<longleftrightarrow> distinct (map fst m)"

lemma gm_wf_Nil [simp]: "gm_wf []" by (simp add: gm_wf_def)

lemma gm_get_Nil [simp]: "gm_get [] k = 0" by (simp add: gm_get_def)

lemma gm_get_put [simp]: "gm_get (gm_put m k v) k' = (if k' = k then v else gm_get m k')"
  by (simp add: gm_get_def gm_put_def update_conv')

lemma gm_get_inc [simp]: "gm_get (gm_inc m k) k' = gm_get m k' + (if k' = k then 1 else 0)"
  by (simp add: gm_inc_def)

lemma gm_get_delete [simp]: "gm_get (gm_delete m k) k' = (if k' = k then 0 else gm_get m k')"
  by (simp add: gm_get_def gm_delete_def delete_conv')

lemma gm_wf_put [simp]: "gm_wf m \<Longrightarrow> gm_wf (gm_put m k v)"
  by (simp add: gm_wf_def gm_put_def distinct_update)

lemma gm_wf_inc [simp]: "gm_wf m \<Longrightarrow> gm_wf (gm_inc m k)"
  by (simp add: gm_inc_def)

lemma gm_wf_delete [simp]: "gm_wf m \<Longrightarrow> gm_wf (gm_delete m k)"
  by (simp add: gm_wf_def gm_delete_def distinct_delete)

lemma gm_keys_put [simp]: "fst ` set (gm_put m k v) = insert k (fst ` set m)"
  by (simp add: gm_put_def flip: dom_map_of_conv_image_fst) (simp add: update_conv')

lemma gm_keys_inc [simp]: "fst ` set (gm_inc m k) = insert k (fst ` set m)"
  by (simp add: gm_inc_def)

lemma gm_keys_delete [simp]: "fst ` set (gm_delete m k) = fst ` set m - {k}"
  by (simp add: gm_delete_def flip: dom_map_of_conv_image_fst) (auto simp: delete_conv')

lemma gm_length: "gm_wf m \<Longrightarrow> length m = card (fst ` set m)"
  by (metis distinct_card gm_wf_def length_map list.set_map)

lemma gm_lookup:
  "map_of (gm_put m k v) = (map_of m)(k \<mapsto> v)" "map_of (gm_delete m k) = (map_of m)(k := None)"
  by (simp_all add: gm_put_def gm_delete_def update_conv' delete_conv')

lemma gm_wf_filter [simp]: "gm_wf m \<Longrightarrow> gm_wf (filter P m)"
  by (simp add: gm_wf_def distinct_map_filter)

lemma gm_lookup_filter: "gm_wf m \<Longrightarrow> map_of (filter P m) k = (case map_of m k of Some v \<Rightarrow> if P (k, v) then Some v else None | None \<Rightarrow> None)"
  by (induction m) (auto simp: gm_wf_def map_of_eq_None_iff split: option.splits)

section \<open>Lists and multisets\<close>

lemma mset_eq_length_filter [mset_cong]:
  "mset xs = mset ys \<Longrightarrow> length (filter P xs) = length (filter P ys)"
  by (metis mset_filter size_mset)

lemma mset_eq_set [mset_cong]: "mset xs = mset ys \<Longrightarrow> set xs = set ys"
  by (metis set_mset_mset)

lemma mset_eq_distinct_map [mset_cong]:
  "mset xs = mset ys \<Longrightarrow> distinct (map f xs) = distinct (map f ys)"
  by (metis mset_eq_imp_distinct_iff mset_map)

section \<open>Invariants of step relations\<close>

text \<open>
  The contract between a component's steps and an invariant of its state: every step keeps it. A
  component with an initial state extends it.
\<close>

locale inductive_invariant =
  fixes step :: "'s \<Rightarrow> 's \<Rightarrow> bool" and ok :: "'s \<Rightarrow> bool"
  assumes step_keeps: "step s s' \<Longrightarrow> ok s \<Longrightarrow> ok s'"
begin

lemma run_keeps: "step\<^sup>*\<^sup>* s s' \<Longrightarrow> ok s \<Longrightarrow> ok s'"
  by (induction rule: rtranclp_induct) (auto dest: step_keeps)

end

locale initial_invariant = inductive_invariant step ok
  for step :: "'s \<Rightarrow> 's \<Rightarrow> bool" and ok :: "'s \<Rightarrow> bool" +
  fixes start :: 's
  assumes start_ok: "ok start"
begin

lemma reached_ok: "step\<^sup>*\<^sup>* start s \<Longrightarrow> ok s"
  using run_keeps start_ok by blast

end

end
