(* ===== verification/Lease.thy ===== *)
theory Lease
  imports Prelude
begin

text \<open>
  Package \<^verbatim>\<open>lease\<close> (\<^verbatim>\<open>src/lease/\<close>) and package \<^verbatim>\<open>strategy\<close>: statuses, counting
  strategies, instances, subjects, properties and leases, with their accessors.
  \<^verbatim>\<open>Status\<close> and \<^verbatim>\<open>Strategy\<close> are Go string types, so they are strings here: a lease
  read back from storage can carry any text. Methods are named \<open>Type_Method\<close>; record
  fields carry a short prefix (\<open>ls_\<close> for \<^verbatim>\<open>Lease\<close>).
\<close>

section \<open>Statuses and strategies\<close>

type_synonym status = string
type_synonym strategy = string

definition Queued :: status where "Queued = ''queued''"
definition Active :: status where "Active = ''active''"
definition Released :: status where "Released = ''released''"

lemma status_distinct [simp]:
  "Queued \<noteq> Active" "Active \<noteq> Queued" "Queued \<noteq> Released"
  "Released \<noteq> Queued" "Active \<noteq> Released" "Released \<noteq> Active"
  "Queued \<noteq> []" "Active \<noteq> []" "Released \<noteq> []"
  by (simp_all add: Queued_def Active_def Released_def)

definition Status_Order :: "status \<Rightarrow> int" where
  "Status_Order s =
     (if s = Active then 0 else if s = Released then 1 else if s = Queued then 2 else 3)"

definition strategy_Empty :: strategy where "strategy_Empty = ''''"
definition strategy_Instance :: strategy where "strategy_Instance = ''instance''"
definition strategy_Consumer :: strategy where "strategy_Consumer = ''consumer''"

lemma strategy_distinct [simp]:
  "strategy_Instance \<noteq> strategy_Consumer" "strategy_Consumer \<noteq> strategy_Instance"
  "strategy_Instance \<noteq> strategy_Empty" "strategy_Consumer \<noteq> strategy_Empty"
  "strategy_Empty \<noteq> strategy_Instance" "strategy_Empty \<noteq> strategy_Consumer"
  by (simp_all add: strategy_Empty_def strategy_Instance_def strategy_Consumer_def)

definition strategy_Valid :: "strategy \<Rightarrow> bool" where
  "strategy_Valid s \<longleftrightarrow> s = strategy_Empty \<or> s = strategy_Consumer \<or> s = strategy_Instance"

section \<open>Instances and subjects\<close>

record instance_t =
  inst_Host :: string
  inst_User :: string
  inst_ID :: string

definition Instance_Empty :: "instance_t \<Rightarrow> bool" where
  "Instance_Empty i \<longleftrightarrow> inst_Host i = '''' \<and> inst_User i = '''' \<and> inst_ID i = ''''"

definition Instance_String :: "instance_t \<Rightarrow> string" where
  "Instance_String i = inst_Host i @ '' '' @ inst_User i @ '' '' @ inst_ID i"

record subject_t =
  sub_Resource :: string
  sub_Instance :: instance_t

definition Subject_HostUser :: "subject_t \<Rightarrow> string" where
  "Subject_HostUser s = inst_Host (sub_Instance s) @ '' '' @ inst_User (sub_Instance s)"

definition Subject_Empty :: "subject_t \<Rightarrow> bool" where
  "Subject_Empty s \<longleftrightarrow> sub_Resource s = '''' \<and> Instance_Empty (sub_Instance s)"

definition Subject_String :: "subject_t \<Rightarrow> string" where
  "Subject_String s =
     (if sub_Resource s = '''' then Instance_String (sub_Instance s)
      else sub_Resource s @ '': '' @ Instance_String (sub_Instance s))"

section \<open>Properties\<close>

type_synonym properties = "string \<rightharpoonup> string"

definition Properties_Clone :: "properties \<Rightarrow> properties" where
  "Properties_Clone p = Map.empty ++ p"

definition MergeProperties :: "properties list \<Rightarrow> properties" where
  "MergeProperties props = foldl (\<lambda>merged p. merged ++ p) Map.empty props"

definition props_get :: "properties \<Rightarrow> string \<Rightarrow> string" where
  "props_get p k = (case p k of None \<Rightarrow> '''' | Some v \<Rightarrow> v)"

section \<open>Leases\<close>

record refresh_t =
  rf_Active :: duration
  rf_Queued :: duration

definition MinimumRefresh :: duration where "MinimumRefresh = Second"

record lease =
  ls_Subject :: subject_t
  ls_Properties :: properties
  ls_Status :: status
  ls_Started :: time
  ls_Renewed :: time
  ls_Released :: time
  ls_Strategy :: strategy
  ls_Limit :: uint
  ls_Duration :: duration
  ls_Decay :: duration
  ls_Refresh :: refresh_t

abbreviation ls_Resource :: "lease \<Rightarrow> string" where
  "ls_Resource l \<equiv> sub_Resource (ls_Subject l)"

abbreviation ls_Instance :: "lease \<Rightarrow> instance_t" where
  "ls_Instance l \<equiv> sub_Instance (ls_Subject l)"

abbreviation ls_HostUser :: "lease \<Rightarrow> string" where
  "ls_HostUser l \<equiv> Subject_HostUser (ls_Subject l)"

definition zero_instance :: instance_t where
  "zero_instance = \<lparr>inst_Host = '''', inst_User = '''', inst_ID = ''''\<rparr>"

definition zero_subject :: subject_t where
  "zero_subject = \<lparr>sub_Resource = '''', sub_Instance = zero_instance\<rparr>"

definition zero_refresh :: refresh_t where
  "zero_refresh = \<lparr>rf_Active = 0, rf_Queued = 0\<rparr>"

definition zero_lease :: lease where
  "zero_lease = \<lparr>ls_Subject = zero_subject, ls_Properties = Map.empty, ls_Status = '''',
     ls_Started = 0, ls_Renewed = 0, ls_Released = 0, ls_Strategy = '''', ls_Limit = 0,
     ls_Duration = 0, ls_Decay = 0, ls_Refresh = zero_refresh\<rparr>"

definition Lease_MatchResource :: "lease \<Rightarrow> string \<Rightarrow> bool" where
  "Lease_MatchResource l res \<longleftrightarrow> ls_Resource l = res"

definition Lease_MatchHostUser :: "lease \<Rightarrow> string \<Rightarrow> string \<Rightarrow> string \<Rightarrow> bool" where
  "Lease_MatchHostUser l res host user \<longleftrightarrow>
     ls_Resource l = res \<and> inst_Host (ls_Instance l) = host \<and> inst_User (ls_Instance l) = user"

definition Lease_MatchInstance :: "lease \<Rightarrow> string \<Rightarrow> instance_t \<Rightarrow> bool" where
  "Lease_MatchInstance l res inst \<longleftrightarrow> ls_Resource l = res \<and> ls_Instance l = inst"

definition Lease_MatchStatus :: "lease \<Rightarrow> status \<Rightarrow> bool" where
  "Lease_MatchStatus l st \<longleftrightarrow> ls_Status l = st"

definition Lease_Consumptive :: "lease \<Rightarrow> bool" where
  "Lease_Consumptive l \<longleftrightarrow> ls_Status l = Active \<or> ls_Status l = Released"

definition Lease_ExpirationTime :: "lease \<Rightarrow> time" where
  "Lease_ExpirationTime l = ls_Renewed l + ls_Duration l"

definition Lease_Expired :: "lease \<Rightarrow> time \<Rightarrow> bool" where
  "Lease_Expired l at \<longleftrightarrow> at > Lease_ExpirationTime l"

definition Lease_DecayTime :: "lease \<Rightarrow> time" where
  "Lease_DecayTime l =
     (let release = (if ls_Released l \<noteq> 0 then ls_Released l else Lease_ExpirationTime l)
      in release + ls_Decay l)"

definition Lease_Decayed :: "lease \<Rightarrow> time \<Rightarrow> bool" where
  "Lease_Decayed l at \<longleftrightarrow> at > Lease_DecayTime l"

definition Lease_EffectiveRefresh :: "lease \<Rightarrow> duration" where
  "Lease_EffectiveRefresh l =
     (let interval = (if ls_Status l = Active then rf_Active (ls_Refresh l)
                      else if ls_Status l = Queued then rf_Queued (ls_Refresh l) else 0);
          interval = (if interval = 0 then ls_Duration l sdiv 2 else interval)
      in if interval < MinimumRefresh then MinimumRefresh else interval)"

definition Lease_ResourceName :: "lease \<Rightarrow> string" where
  "Lease_ResourceName l =
     (let name = props_get (ls_Properties l) ''resource.name'' in
      if name \<noteq> '''' then name
      else let name = props_get (ls_Properties l) ''resource.id'' in
        if name \<noteq> '''' then name else ls_Resource l)"

definition Clone :: "lease \<Rightarrow> lease" where
  "Clone from = zero_lease\<lparr>ls_Subject := ls_Subject from,
     ls_Properties := Properties_Clone (ls_Properties from), ls_Status := ls_Status from,
     ls_Started := ls_Started from, ls_Renewed := ls_Renewed from,
     ls_Released := ls_Released from, ls_Strategy := ls_Strategy from,
     ls_Limit := ls_Limit from, ls_Duration := ls_Duration from, ls_Decay := ls_Decay from,
     ls_Refresh := ls_Refresh from\<rparr>"

section \<open>Facts about leases\<close>

lemma Clone_id [simp]: "Clone l = l"
  by (simp add: Clone_def Properties_Clone_def zero_lease_def)

lemma Properties_Clone_id [simp]: "Properties_Clone p = p"
  by (simp add: Properties_Clone_def)

lemma Lease_EffectiveRefresh_ge [simp]: "MinimumRefresh \<le> Lease_EffectiveRefresh l"
  by (simp add: Lease_EffectiveRefresh_def Let_def)

lemma Status_Order_range: "0 \<le> Status_Order s \<and> Status_Order s \<le> 3"
  by (simp add: Status_Order_def)

lemma Status_Order_Consumptive: "Lease_Consumptive l \<longleftrightarrow> Status_Order (ls_Status l) \<le> 1"
  by (simp add: Status_Order_def Lease_Consumptive_def)

lemma Consumptive_simps [simp]:
  "ls_Status l = Active \<Longrightarrow> Lease_Consumptive l"
  "ls_Status l = Released \<Longrightarrow> Lease_Consumptive l"
  "ls_Status l = Queued \<Longrightarrow> \<not> Lease_Consumptive l"
  by (simp_all add: Lease_Consumptive_def)

text \<open>The order of properties in \<^verbatim>\<open>MergeProperties\<close>: the last map that has the key wins.\<close>

lemma MergeProperties_snoc: "MergeProperties (ps @ [p]) = MergeProperties ps ++ p"
  by (simp add: MergeProperties_def)

lemma MergeProperties_lookup:
  "MergeProperties ps k = (case filter (\<lambda>p. p k \<noteq> None) (rev ps) of [] \<Rightarrow> None | p # _ \<Rightarrow> p k)"
  by (induction ps rule: rev_induct)
    (auto simp: MergeProperties_snoc MergeProperties_def map_add_def split: option.splits list.splits)

end
