(* ===== verification/LeaseSet.thy ===== *)
theory LeaseSet
  imports Lease "HOL-Library.Product_Lexorder"
begin

text \<open>
  Lease sets and their statistics: \<^verbatim>\<open>src/lease/set.go\<close> and \<^verbatim>\<open>src/lease/stats.go\<close>.
  A \<^verbatim>\<open>Set\<close> is a Go slice of leases, a list here. The theory also holds the contract of
  Go's \<^verbatim>\<open>sort.Sort\<close> as the locale \<open>lease_sorter\<close>: the result is a permutation of the
  argument in which no element is \<^verbatim>\<open>Less\<close> than an earlier one (\<^verbatim>\<open>sort.Sort\<close> is not
  stable, so nothing is promised about equal elements). Every operation that sorts takes
  the sorting function as its argument \<open>srt\<close>. \<open>insertionSort\<close>, which is what
  \<^verbatim>\<open>sort.Sort\<close> runs on slices of at most 12 elements, interprets the locale.
\<close>

type_synonym leases = "lease list"
type_synonym sorter = "leases \<Rightarrow> leases"

section \<open>Filters and lookups\<close>

definition Set_Resource :: "leases \<Rightarrow> string \<Rightarrow> leases" where
  "Set_Resource s res = map Clone (filter (\<lambda>l. Lease_MatchResource l res) s)"

definition Set_HostUser :: "leases \<Rightarrow> string \<Rightarrow> string \<Rightarrow> string \<Rightarrow> leases" where
  "Set_HostUser s res host user = map Clone (filter (\<lambda>l. Lease_MatchHostUser l res host user) s)"

definition Set_User :: "leases \<Rightarrow> string \<Rightarrow> leases" where
  "Set_User s user = map Clone (filter (\<lambda>l. inst_User (ls_Instance l) = user) s)"

fun Set_Instance :: "leases \<Rightarrow> string \<Rightarrow> instance_t \<Rightarrow> lease option" where
  "Set_Instance [] res inst = None"
| "Set_Instance (l # s) res inst =
     (if Lease_MatchInstance l res inst then Some (Clone l) else Set_Instance s res inst)"

fun Set_Index_from :: "nat \<Rightarrow> leases \<Rightarrow> string \<Rightarrow> instance_t \<Rightarrow> int" where
  "Set_Index_from i [] res inst = -1"
| "Set_Index_from i (l # s) res inst =
     (if Lease_MatchInstance l res inst then int i else Set_Index_from (Suc i) s res inst)"

definition Set_Index :: "leases \<Rightarrow> string \<Rightarrow> instance_t \<Rightarrow> int" where
  "Set_Index s res inst = Set_Index_from 0 s res inst"

fun first_property :: "properties \<Rightarrow> string list \<Rightarrow> string list" where
  "first_property p [] = []"
| "first_property p (k # ks) = (case p k of Some v \<Rightarrow> [v] | None \<Rightarrow> first_property p ks)"

definition Set_Property :: "leases \<Rightarrow> string list \<Rightarrow> string list" where
  "Set_Property s keys = concat (map (\<lambda>l. first_property (ls_Properties l) keys) s)"

definition Set_Status :: "leases \<Rightarrow> status \<Rightarrow> leases" where
  "Set_Status s st = map Clone (filter (\<lambda>l. Lease_MatchStatus l st) s)"

section \<open>Statistics\<close>

record tally =
  tl_Active :: uint
  tl_Released :: uint
  tl_Queued :: uint
  tl_Consumed :: uint
  tl_Users :: "(string, nat) gomap"

record stats =
  st_Instance :: tally
  st_Consumer :: tally

definition zero_tally :: tally where
  "zero_tally = \<lparr>tl_Active = 0, tl_Released = 0, tl_Queued = 0, tl_Consumed = 0, tl_Users = []\<rparr>"

definition zero_stats :: stats where
  "zero_stats = \<lparr>st_Instance = zero_tally, st_Consumer = zero_tally\<rparr>"

definition Tally_Add :: "tally \<Rightarrow> string \<Rightarrow> status \<Rightarrow> tally" where
  "Tally_Add t user st =
     (if st = Active then
        t\<lparr>tl_Active := tl_Active t + 1, tl_Consumed := tl_Consumed t + 1,
          tl_Users := gm_inc (tl_Users t) user\<rparr>
      else if st = Released then
        t\<lparr>tl_Released := tl_Released t + 1, tl_Consumed := tl_Consumed t + 1\<rparr>
      else if st = Queued then t\<lparr>tl_Queued := tl_Queued t + 1\<rparr>
      else t)"

definition unknown_strategy :: panic where
  "unknown_strategy = Panic ''unknown strategy''"

definition Stats_pick :: "(tally \<Rightarrow> 'a) \<Rightarrow> stats \<Rightarrow> strategy \<Rightarrow> 'a go" where
  "Stats_pick f s strat =
     (if strat = strategy_Instance then Inr (f (st_Instance s))
      else if strat = strategy_Consumer then Inr (f (st_Consumer s))
      else Inl unknown_strategy)"

definition Stats_Active :: "stats \<Rightarrow> strategy \<Rightarrow> uint go" where
  "Stats_Active s strat = Stats_pick tl_Active s strat"

definition Stats_Released :: "stats \<Rightarrow> strategy \<Rightarrow> uint go" where
  "Stats_Released s strat = Stats_pick tl_Released s strat"

definition Stats_Queued :: "stats \<Rightarrow> strategy \<Rightarrow> uint go" where
  "Stats_Queued s strat = Stats_pick tl_Queued s strat"

definition Stats_Consumed :: "stats \<Rightarrow> strategy \<Rightarrow> uint go" where
  "Stats_Consumed s strat = Stats_pick tl_Consumed s strat"

definition Stats_Users :: "stats \<Rightarrow> strategy \<Rightarrow> (string, nat) gomap go" where
  "Stats_Users s strat = Stats_pick tl_Users s strat"

fun Set_Stats_loop :: "string list \<Rightarrow> stats \<Rightarrow> leases \<Rightarrow> stats" where
  "Set_Stats_loop consumers stats [] = stats"
| "Set_Stats_loop consumers stats (l # s) =
     (let user = inst_User (ls_Instance l);
          stats = stats\<lparr>st_Instance := Tally_Add (st_Instance stats) user (ls_Status l)\<rparr>;
          c = ls_HostUser l
      in if c \<notin> set consumers
         then Set_Stats_loop (c # consumers)
                (stats\<lparr>st_Consumer := Tally_Add (st_Consumer stats) user (ls_Status l)\<rparr>) s
         else Set_Stats_loop consumers stats s)"

definition Set_Stats :: "leases \<Rightarrow> stats" where
  "Set_Stats s = Set_Stats_loop [] zero_stats s"

section \<open>Times of a set\<close>

fun min_time :: "(lease \<Rightarrow> time) \<Rightarrow> time \<Rightarrow> leases \<Rightarrow> time" where
  "min_time f t [] = t"
| "min_time f t (l # s) = (if f l < t then min_time f (f l) s else min_time f t s)"

definition Set_ExpirationTime :: "leases \<Rightarrow> time" where
  "Set_ExpirationTime s =
     (case s of [] \<Rightarrow> 0 | l # s' \<Rightarrow> min_time Lease_ExpirationTime (Lease_ExpirationTime l) s')"

definition Set_DecayTime :: "leases \<Rightarrow> time" where
  "Set_DecayTime s =
     (case s of [] \<Rightarrow> 0 | l # s' \<Rightarrow> min_time Lease_DecayTime (Lease_DecayTime l) s')"

definition Set_DecayDuration :: "leases \<Rightarrow> time \<Rightarrow> duration" where
  "Set_DecayDuration s at =
     (let dt = Set_DecayTime s in if dt > at then Time_Sub dt at else 0)"

section \<open>The sort order\<close>

definition started_less :: "lease \<Rightarrow> lease \<Rightarrow> bool" where
  "started_less a b \<longleftrightarrow> ls_Started a < ls_Started b"

definition Lease_Less :: "lease \<Rightarrow> lease \<Rightarrow> bool" where
  "Lease_Less a b =
     (let o1 = Status_Order (ls_Status a); o2 = Status_Order (ls_Status b) in
      if o1 < o2 then True
      else if o1 > o2 then False
      else if ls_Status a = Released then
        (let r1 = ls_Released a; r2 = ls_Released b;
             e1 = r1 + ls_Decay a; e2 = r2 + ls_Decay b in
         if e1 > e2 then True
         else if e1 < e2 then False
         else if r1 < r2 then True
         else if r1 > r2 then False
         else started_less a b)
      else if ls_Status a = Active \<or> ls_Status a = Queued then started_less a b
      else False)"

definition Set_Less :: "leases \<Rightarrow> nat \<Rightarrow> nat \<Rightarrow> bool" where
  "Set_Less s i j = Lease_Less (s ! i) (s ! j)"

definition Set_Swap :: "leases \<Rightarrow> nat \<Rightarrow> nat \<Rightarrow> leases" where
  "Set_Swap s i j = s[i := s ! j, j := s ! i]"

definition Set_Len :: "leases \<Rightarrow> nat" where
  "Set_Len s = length s"

text \<open>The order as a lexicographic key: \<^verbatim>\<open>Less\<close> is a strict weak order.\<close>

definition less_key :: "lease \<Rightarrow> int \<times> int \<times> int \<times> int" where
  "less_key l =
     (Status_Order (ls_Status l),
      if ls_Status l = Released then - (ls_Released l + ls_Decay l) else 0,
      if ls_Status l = Released then ls_Released l else 0,
      if Status_Order (ls_Status l) \<le> 2 then ls_Started l else 0)"

lemma Lease_Less_key: "Lease_Less a b \<longleftrightarrow> less_key a < less_key b"
  by (auto simp: Lease_Less_def less_key_def Status_Order_def started_less_def Let_def
      split: if_splits)

definition in_order :: "leases \<Rightarrow> bool" where
  "in_order xs \<longleftrightarrow> sorted_wrt (\<lambda>a b. \<not> Lease_Less b a) xs"

lemma in_order_key: "in_order xs \<longleftrightarrow> sorted (map less_key xs)"
  by (simp add: in_order_def Lease_Less_key sorted_map not_less)

lemma in_order_Nil [simp]: "in_order []" by (simp add: in_order_def)

lemma in_order_Cons: "in_order (x # xs) \<longleftrightarrow> (\<forall>y \<in> set xs. \<not> Lease_Less y x) \<and> in_order xs"
  by (simp add: in_order_def)

lemma not_Less_Order: "\<not> Lease_Less y x \<Longrightarrow> Status_Order (ls_Status x) \<le> Status_Order (ls_Status y)"
  by (auto simp: Lease_Less_def Let_def split: if_splits)

section \<open>The contract of sort.Sort\<close>

locale lease_sorter =
  fixes srt :: sorter
  assumes mset_srt: "mset (srt xs) = mset xs"
    and srt_in_order: "in_order (srt xs)"
begin

lemma set_srt: "set (srt xs) = set xs"
  by (rule mset_eq_set [OF mset_srt])

lemma length_srt: "length (srt xs) = length xs"
  by (metis mset_srt size_mset)

lemma distinct_srt: "distinct (map f (srt xs)) = distinct (map f xs)"
  by (rule mset_eq_distinct_map [OF mset_srt])

end

fun insert_back :: "lease \<Rightarrow> leases \<Rightarrow> leases" where
  "insert_back x [] = [x]"
| "insert_back x (y # ys) = (if Lease_Less x y then y # insert_back x ys else x # y # ys)"

definition insertionSort :: "leases \<Rightarrow> leases" where
  "insertionSort xs = rev (foldl (\<lambda>acc x. insert_back x acc) [] xs)"

lemma mset_insert_back: "mset (insert_back x ys) = add_mset x (mset ys)"
  by (induction ys) auto

lemma insert_back_order:
  "sorted_wrt (\<lambda>a b. less_key b \<le> less_key a) ys \<Longrightarrow>
   sorted_wrt (\<lambda>a b. less_key b \<le> less_key a) (insert_back x ys)"
proof (induction ys)
  case Nil
  show ?case by simp
next
  case (Cons y ys)
  have "set (insert_back x ys) = insert x (set ys)"
    by (metis mset_insert_back set_mset_add_mset_insert set_mset_mset)
  with Cons show ?case by (auto simp: Lease_Less_key not_less)
qed

lemma foldl_insert_back:
  "sorted_wrt (\<lambda>a b. less_key b \<le> less_key a) acc \<Longrightarrow>
   sorted_wrt (\<lambda>a b. less_key b \<le> less_key a) (foldl (\<lambda>acc x. insert_back x acc) acc xs) \<and>
   mset (foldl (\<lambda>acc x. insert_back x acc) acc xs) = mset acc + mset xs"
  by (induction xs arbitrary: acc) (simp_all add: insert_back_order mset_insert_back)

interpretation goSort: lease_sorter insertionSort
proof
  fix xs
  show "mset (insertionSort xs) = mset xs"
    using foldl_insert_back [of "[]" xs] by (simp add: insertionSort_def)
  show "in_order (insertionSort xs)"
    using foldl_insert_back [of "[]" xs]
    by (simp add: insertionSort_def in_order_key sorted_map sorted_wrt_rev)
qed

section \<open>Counting leases and consumers\<close>

text \<open>
  What the statistics and the accumulator are meant to count. These are specifications,
  stated on the list without any order of processing.
\<close>

definition n_status :: "status \<Rightarrow> string \<Rightarrow> leases \<Rightarrow> nat" where
  "n_status st c xs = length (filter (\<lambda>l. ls_Status l = st \<and> ls_HostUser l = c) xs)"

definition consumers :: "leases \<Rightarrow> string set" where
  "consumers xs = ls_HostUser ` {l \<in> set xs. Lease_Consumptive l}"

definition consumption :: "strategy \<Rightarrow> leases \<Rightarrow> nat" where
  "consumption strat xs =
     (if strat = strategy_Consumer then card (consumers xs)
      else length (filter Lease_Consumptive xs))"

lemma n_status_simps [simp]:
  "n_status st c [] = 0"
  "n_status st c (x # xs) = (if ls_Status x = st \<and> ls_HostUser x = c then 1 else 0) + n_status st c xs"
  "n_status st c (xs @ ys) = n_status st c xs + n_status st c ys"
  by (simp_all add: n_status_def)

lemma consumers_simps [simp]:
  "consumers [] = {}"
  "consumers (x # xs) = (if Lease_Consumptive x then insert (ls_HostUser x) (consumers xs) else consumers xs)"
  "consumers (xs @ ys) = consumers xs \<union> consumers ys"
  by (auto simp: consumers_def)

lemma finite_consumers [simp]: "finite (consumers xs)"
  by (simp add: consumers_def)

lemma n_status_mset [mset_cong]: "mset xs = mset ys \<Longrightarrow> n_status st c xs = n_status st c ys"
  unfolding n_status_def by (rule mset_eq_length_filter)

lemma consumers_mset [mset_cong]: "mset xs = mset ys \<Longrightarrow> consumers xs = consumers ys"
  by (drule mset_eq_set) (simp add: consumers_def)

lemma consumption_mset [mset_cong]:
  "mset xs = mset ys \<Longrightarrow> consumption strat xs = consumption strat ys"
  using consumers_mset [of xs ys] mset_eq_length_filter [of xs ys Lease_Consumptive]
  by (simp add: consumption_def)

lemma consumption_le_length: "consumption strat xs \<le> length xs"
proof -
  have "card (consumers xs) \<le> length (filter Lease_Consumptive xs)"
    by (induction xs) (auto simp: card_insert_if)
  then show ?thesis
    using length_filter_le [of Lease_Consumptive xs]
    by (simp add: consumption_def del: length_filter_le)
qed

lemma consumption_no_consumptive:
  "\<forall>x \<in> set xs. \<not> Lease_Consumptive x \<Longrightarrow> consumption strat xs = 0"
  by (auto simp: consumption_def consumers_def)

lemma in_order_consumptive_first:
  "in_order (x # xs) \<Longrightarrow> \<not> Lease_Consumptive x \<Longrightarrow> \<forall>y \<in> set xs. \<not> Lease_Consumptive y"
  by (auto simp: in_order_Cons Status_Order_Consumptive dest!: bspec not_Less_Order)

section \<open>The statistics count consumption\<close>

lemma Tally_Add_consumed:
  "tl_Consumed (Tally_Add t u (ls_Status l)) = tl_Consumed t + (if Lease_Consumptive l then 1 else 0)"
  by (simp add: Tally_Add_def Lease_Consumptive_def)

lemma Set_Stats_loop_Instance:
  "tl_Consumed (st_Instance (Set_Stats_loop seen st xs)) =
     tl_Consumed (st_Instance st) + length (filter Lease_Consumptive xs)"
  by (induction seen st xs rule: Set_Stats_loop.induct) (auto simp: Let_def Tally_Add_consumed)

lemma Set_Stats_loop_Consumer:
  "in_order xs \<Longrightarrow>
   tl_Consumed (st_Consumer (Set_Stats_loop seen st xs)) =
     tl_Consumed (st_Consumer st) + card (consumers xs - set seen)"
proof (induction seen st xs rule: Set_Stats_loop.induct)
  case (1 seen st)
  show ?case by simp
next
  case (2 seen st l xs)
  from "2.prems" have ord: "in_order xs" by (simp add: in_order_Cons)
  let ?c = "ls_HostUser l"
  have cards: "card (consumers (l # xs) - set seen) =
      (if Lease_Consumptive l then 1 else 0) + card (consumers xs - set (?c # seen))"
    if new: "?c \<notin> set seen"
  proof (cases "Lease_Consumptive l")
    case True
    have "consumers (l # xs) - set seen = insert ?c (consumers xs - set (?c # seen))"
      using new True by auto
    then show ?thesis using True by simp
  next
    case False
    from "2.prems" False have "consumers xs = {}"
      by (auto simp: consumers_def dest: in_order_consumptive_first)
    then show ?thesis using False by simp
  qed
  have old: "consumers (l # xs) - set seen = consumers xs - set seen" if "?c \<in> set seen"
    using that by auto
  show ?case
    using "2.IH" ord cards old by (auto simp: Let_def Tally_Add_consumed)
qed

lemma Set_Stats_consumed:
  assumes "in_order xs" and "strat = strategy_Instance \<or> strat = strategy_Consumer"
  shows "Stats_Consumed (Set_Stats xs) strat = Inr (consumption strat xs)"
  using assms(2) Set_Stats_loop_Consumer [OF assms(1), of "[]" zero_stats]
  by (auto simp: Stats_Consumed_def Stats_pick_def Set_Stats_def Set_Stats_loop_Instance
      consumption_def zero_stats_def zero_tally_def)

section \<open>Lookups\<close>

lemma Set_Instance_Some:
  "Set_Instance s res inst = Some l \<Longrightarrow> l \<in> set s \<and> ls_Resource l = res \<and> ls_Instance l = inst"
  by (induction s) (auto simp: Lease_MatchInstance_def split: if_splits)

lemma Set_Instance_None:
  "Set_Instance s res inst = None \<longleftrightarrow> (\<forall>l \<in> set s. \<not> Lease_MatchInstance l res inst)"
  by (induction s) auto

lemma Set_Index_from_None:
  "Set_Index_from i s res inst < int i \<longleftrightarrow> (\<forall>l \<in> set s. \<not> Lease_MatchInstance l res inst)"
  and Set_Index_from_neg: "Set_Index_from i s res inst < int i \<Longrightarrow> Set_Index_from i s res inst = -1"
  by (induction i s res inst rule: Set_Index_from.induct) auto

end
