(* ===== verification/LeaseTx.thy ===== *)
theory LeaseTx
  imports LeaseSet
begin

text \<open>
  Lease transactions: \<^verbatim>\<open>src/lease/op.go\<close>, \<^verbatim>\<open>src/lease/iter.go\<close> and \<^verbatim>\<open>src/lease/tx.go\<close>.
  A processor is a Go closure over an \<^verbatim>\<open>Iter\<close>; the variables it captures are the state
  \<open>'s\<close> it threads, and it may panic. The loop of \<^verbatim>\<open>Process\<close> keeps the code's index
  arithmetic (a deletion shifts the index back by one); \<open>Process_loop_rule\<close> is its total
  correctness rule: an invariant over the part already processed, the part still to do and
  the recorded operations. The relation \<open>replays\<close> says that a list of operations,
  applied one by one to a set whose subjects are distinct, leads to another set; it is what
  a provider that replays operations needs to know about a transaction.
\<close>

section \<open>Actions, operations, effects\<close>

datatype action = ActNone | Create | Update | Delete

definition Action_String :: "action \<Rightarrow> string" where
  "Action_String t = (case t of ActNone \<Rightarrow> ''none'' | Create \<Rightarrow> ''create''
     | Update \<Rightarrow> ''update'' | Delete \<Rightarrow> ''delete'')"

datatype updateType = Renew | Downgrade | Upgrade | Replace | Exchange | Transmute

definition UpdateType_String :: "updateType \<Rightarrow> string" where
  "UpdateType_String t = (case t of Renew \<Rightarrow> ''renew'' | Upgrade \<Rightarrow> ''upgrade''
     | Downgrade \<Rightarrow> ''downgrade'' | Replace \<Rightarrow> ''replace'' | Exchange \<Rightarrow> ''exchange''
     | Transmute \<Rightarrow> ''transmute'')"

record effect =
  ef_Action :: action
  ef_Lease :: lease

record op_t =
  op_Type :: action
  op_Previous :: lease
  op_Lease :: lease

definition Op_UpdateType :: "op_t \<Rightarrow> updateType" where
  "Op_UpdateType op =
     (let l = op_Lease op; p = op_Previous op in
      if ls_Resource l \<noteq> ls_Resource p then Transmute
      else if inst_Host (ls_Instance l) \<noteq> inst_Host (ls_Instance p) \<or>
              inst_User (ls_Instance l) \<noteq> inst_User (ls_Instance p) then Exchange
      else if ls_Instance l \<noteq> ls_Instance p then Replace
      else if ls_Status l \<noteq> ls_Status p then
        (if Status_Order (ls_Status l) < Status_Order (ls_Status p) then Upgrade else Downgrade)
      else Renew)"

definition Op_Consumptive :: "op_t \<Rightarrow> bool" where
  "Op_Consumptive op = (case op_Type op of
       Create \<Rightarrow> Lease_Consumptive (op_Lease op)
     | Update \<Rightarrow> Lease_Consumptive (op_Lease op) \<or> Lease_Consumptive (op_Previous op)
     | Delete \<Rightarrow> Lease_Consumptive (op_Previous op)
     | ActNone \<Rightarrow> False)"

definition Op_Effects :: "op_t \<Rightarrow> effect list" where
  "Op_Effects op =
     (if op_Type op = Delete \<or> op_Type op = Update
      then [\<lparr>ef_Action = Delete, ef_Lease = op_Previous op\<rparr>] else []) @
     (if op_Type op = Create \<or> op_Type op = Update
      then [\<lparr>ef_Action = Create, ef_Lease = op_Lease op\<rparr>] else [])"

definition update_op :: "lease \<Rightarrow> lease \<Rightarrow> op_t" where
  "update_op p l = \<lparr>op_Type = Update, op_Previous = p, op_Lease = l\<rparr>"

definition delete_op :: "lease \<Rightarrow> op_t" where
  "delete_op p = \<lparr>op_Type = Delete, op_Previous = p, op_Lease = zero_lease\<rparr>"

definition create_op :: "lease \<Rightarrow> op_t" where
  "create_op l = \<lparr>op_Type = Create, op_Previous = zero_lease, op_Lease = l\<rparr>"

section \<open>Iterators and transactions\<close>

record iter_t =
  it_action :: action
  it_Lease :: lease

definition Iter_Update :: "iter_t \<Rightarrow> iter_t" where
  "Iter_Update it = it\<lparr>it_action := Update\<rparr>"

definition Iter_Delete :: "iter_t \<Rightarrow> iter_t" where
  "Iter_Delete it = it\<lparr>it_action := Delete\<rparr>"

type_synonym 's processor = "'s \<Rightarrow> iter_t \<Rightarrow> ('s \<times> iter_t) go"

record tx =
  tx_resource :: string
  tx_revision :: "64 word"
  tx_leases :: leases
  tx_ops :: "op_t list"

definition NewTx :: "string \<Rightarrow> 64 word \<Rightarrow> leases \<Rightarrow> tx" where
  "NewTx res rv xs = \<lparr>tx_resource = res, tx_revision = rv, tx_leases = xs, tx_ops = []\<rparr>"

definition Tx_apply :: "tx \<Rightarrow> action \<Rightarrow> lease \<Rightarrow> nat \<Rightarrow> int \<Rightarrow> tx \<times> int" where
  "Tx_apply tx act l i step =
     (case act of
        Update \<Rightarrow> (tx\<lparr>tx_ops := tx_ops tx @ [update_op (tx_leases tx ! i) l],
                      tx_leases := (tx_leases tx)[i := l]\<rparr>, 0)
      | Delete \<Rightarrow> (tx\<lparr>tx_ops := tx_ops tx @ [delete_op (tx_leases tx ! i)],
                      tx_leases := take i (tx_leases tx) @ drop (Suc i) (tx_leases tx)\<rparr>, - step)
      | _ \<Rightarrow> (tx, 0))"

definition new_iter :: "lease \<Rightarrow> iter_t" where
  "new_iter l = \<lparr>it_action = ActNone, it_Lease = l\<rparr>"

function Process_loop :: "'s processor \<Rightarrow> 's \<Rightarrow> nat \<Rightarrow> tx \<Rightarrow> ('s \<times> tx) go" where
  "Process_loop f s i tx =
     (if i < length (tx_leases tx) then
        (case f s (new_iter (Clone (tx_leases tx ! i))) of
           Inl p \<Rightarrow> Inl p
         | Inr (s', it) \<Rightarrow>
             (case Tx_apply tx (it_action it) (it_Lease it) i 1 of
                (tx', shift) \<Rightarrow> Process_loop f s' (nat (int i + shift + 1)) tx'))
      else Inr (s, tx))"
  by pat_completeness auto
termination
  by (relation "measure (\<lambda>(f, s, i, tx). length (tx_leases tx) - i)")
    (auto simp: Tx_apply_def split: action.splits)

declare Process_loop.simps [simp del]

definition Tx_sort :: "sorter \<Rightarrow> tx \<Rightarrow> tx" where
  "Tx_sort srt tx = tx\<lparr>tx_leases := srt (tx_leases tx)\<rparr>"

definition Tx_Process :: "sorter \<Rightarrow> 's processor \<Rightarrow> 's \<Rightarrow> tx \<Rightarrow> ('s \<times> tx) go" where
  "Tx_Process srt f s tx =
     go_bind (Process_loop f s 0 tx) (\<lambda>(s', tx'). Inr (s', Tx_sort srt tx'))"

definition Tx_ProcessReverse :: "sorter \<Rightarrow> 's processor \<Rightarrow> 's \<Rightarrow> tx \<Rightarrow> ('s \<times> tx) go" where
  "Tx_ProcessReverse srt f s tx =
     go_bind (Process_loop f s 0 tx) (\<lambda>(s', tx'). Inr (s', Tx_sort srt tx'))"

definition Tx_HostUser :: "tx \<Rightarrow> string \<Rightarrow> string \<Rightarrow> leases" where
  "Tx_HostUser tx host user = Set_HostUser (tx_leases tx) (tx_resource tx) host user"

definition Tx_Instance :: "tx \<Rightarrow> instance_t \<Rightarrow> lease option" where
  "Tx_Instance tx inst = Set_Instance (tx_leases tx) (tx_resource tx) inst"

definition Tx_Create :: "sorter \<Rightarrow> lease \<Rightarrow> tx \<Rightarrow> tx" where
  "Tx_Create srt l tx =
     Tx_sort srt (tx\<lparr>tx_leases := tx_leases tx @ [l], tx_ops := tx_ops tx @ [create_op l]\<rparr>)"

definition update_proc :: "string \<Rightarrow> instance_t \<Rightarrow> lease \<Rightarrow> unit processor" where
  "update_proc res inst l u it =
     Inr (u, if Lease_MatchInstance (it_Lease it) res inst
             then Iter_Update (it\<lparr>it_Lease := Clone l\<rparr>) else it)"

definition Tx_Update :: "sorter \<Rightarrow> instance_t \<Rightarrow> lease \<Rightarrow> tx \<Rightarrow> tx go" where
  "Tx_Update srt inst l tx =
     go_bind (Tx_Process srt (update_proc (tx_resource tx) inst l) () tx) (\<lambda>(u, tx'). Inr tx')"

definition release_proc :: "string \<Rightarrow> instance_t \<Rightarrow> time \<Rightarrow> unit processor" where
  "release_proc res inst at u it =
     Inr (u, if Lease_MatchInstance (it_Lease it) res inst
             then (if ls_Status (it_Lease it) = Active
                   then Iter_Update (it\<lparr>it_Lease := (it_Lease it)\<lparr>ls_Status := Released,
                          ls_Released := at\<rparr>\<rparr>)
                   else Iter_Delete it)
             else it)"

definition Tx_Release :: "sorter \<Rightarrow> instance_t \<Rightarrow> time \<Rightarrow> tx \<Rightarrow> tx go" where
  "Tx_Release srt inst at tx =
     go_bind (Tx_Process srt (release_proc (tx_resource tx) inst at) () tx) (\<lambda>(u, tx'). Inr tx')"

definition delete_proc :: "string \<Rightarrow> instance_t \<Rightarrow> unit processor" where
  "delete_proc res inst u it =
     Inr (u, if Lease_MatchInstance (it_Lease it) res inst then Iter_Delete it else it)"

definition Tx_Delete :: "sorter \<Rightarrow> instance_t \<Rightarrow> tx \<Rightarrow> tx go" where
  "Tx_Delete srt inst tx =
     go_bind (Tx_Process srt (delete_proc (tx_resource tx) inst) () tx) (\<lambda>(u, tx'). Inr tx')"

definition Tx_Stats :: "tx \<Rightarrow> stats" where
  "Tx_Stats tx = Set_Stats (tx_leases tx)"

definition Tx_Empty :: "tx \<Rightarrow> bool" where
  "Tx_Empty tx \<longleftrightarrow> length (tx_ops tx) = 0"

definition Tx_Effects :: "tx \<Rightarrow> effect list" where
  "Tx_Effects tx = concat (map Op_Effects (tx_ops tx))"

lemma new_iter_simps [simp]:
  "it_action (new_iter l) = ActNone" "it_Lease (new_iter l) = l"
  by (simp_all add: new_iter_def)

lemma Tx_sort_simps [simp]:
  "tx_resource (Tx_sort srt tx) = tx_resource tx" "tx_revision (Tx_sort srt tx) = tx_revision tx"
  "tx_leases (Tx_sort srt tx) = srt (tx_leases tx)" "tx_ops (Tx_sort srt tx) = tx_ops tx"
  by (simp_all add: Tx_sort_def)

section \<open>The rule of the processing loop\<close>

text \<open>
  \<open>iter_post I s' it pre x suf ops\<close>: the invariant \<open>I\<close> after the iterator \<open>it\<close>
  came back for lease \<open>x\<close>, with \<open>pre\<close> already processed and \<open>suf\<close> still to do.
\<close>

definition iter_post ::
  "('s \<Rightarrow> leases \<Rightarrow> leases \<Rightarrow> op_t list \<Rightarrow> bool) \<Rightarrow> 's \<Rightarrow> iter_t \<Rightarrow> leases \<Rightarrow> lease \<Rightarrow> leases \<Rightarrow>
   op_t list \<Rightarrow> bool" where
  "iter_post I s' it pre x suf ops =
     (case it_action it of
        Update \<Rightarrow> I s' (pre @ [it_Lease it]) suf (ops @ [update_op x (it_Lease it)])
      | Delete \<Rightarrow> I s' pre suf (ops @ [delete_op x])
      | _ \<Rightarrow> I s' (pre @ [x]) suf ops)"

lemma Tx_apply_step:
  assumes "tx_leases tx = pre @ x # suf"
  shows "Tx_apply tx act l (length pre) 1 =
     (case act of
        Update \<Rightarrow> (tx\<lparr>tx_ops := tx_ops tx @ [update_op x l], tx_leases := (pre @ [l]) @ suf\<rparr>, 0)
      | Delete \<Rightarrow> (tx\<lparr>tx_ops := tx_ops tx @ [delete_op x], tx_leases := pre @ suf\<rparr>, -1)
      | _ \<Rightarrow> (tx, 0))"
  using assms by (simp add: Tx_apply_def split: action.split)

lemma Process_loop_rule:
  assumes step: "\<And>s pre x suf ops. I s pre (x # suf) ops \<Longrightarrow>
      \<exists>s' it. f s (new_iter x) = Inr (s', it) \<and> iter_post I s' it pre x suf ops"
    and init: "I s pre suf (tx_ops tx)" and split: "tx_leases tx = pre @ suf"
  shows "\<exists>s' tx'. Process_loop f s (length pre) tx = Inr (s', tx') \<and>
      I s' (tx_leases tx') [] (tx_ops tx') \<and>
      tx_resource tx' = tx_resource tx \<and> tx_revision tx' = tx_revision tx"
  using init split
proof (induction suf arbitrary: s pre tx)
  case Nil
  then show ?case by (simp add: Process_loop.simps)
next
  case (Cons x suf)
  from step [OF Cons.prems(1)] obtain s' it
    where f: "f s (new_iter x) = Inr (s', it)" and post: "iter_post I s' it pre x suf (tx_ops tx)"
    by blast
  obtain tx' shift where app: "Tx_apply tx (it_action it) (it_Lease it) (length pre) 1 = (tx', shift)"
    by fastforce
  have loop: "Process_loop f s (length pre) tx =
      Process_loop f s' (nat (int (length pre) + shift + 1)) tx'"
    using Cons.prems(2) f app by (simp add: Process_loop.simps [of f s "length pre" tx])
  have same: "tx_resource tx' = tx_resource tx \<and> tx_revision tx' = tx_revision tx"
    using app by (auto simp: Tx_apply_def split: action.splits)
  obtain pre' where pre': "tx_leases tx' = pre' @ suf" "I s' pre' suf (tx_ops tx')"
      "nat (int (length pre) + shift + 1) = length pre'"
    using app [unfolded Tx_apply_step [OF Cons.prems(2)]] post Cons.prems(2)
    by (cases "it_action it") (fastforce simp: iter_post_def nat_add_distrib)+
  show ?case
    using Cons.IH [OF pre'(2,1)] loop same pre'(3) by simp
qed

lemma Tx_Process_rule:
  assumes "lease_sorter srt"
    and step: "\<And>s pre x suf ops. I s pre (x # suf) ops \<Longrightarrow>
      \<exists>s' it. f s (new_iter x) = Inr (s', it) \<and> iter_post I s' it pre x suf ops"
    and init: "I s [] (tx_leases tx) (tx_ops tx)"
  shows "\<exists>s' tx' xs. Tx_Process srt f s tx = Inr (s', tx') \<and> I s' xs [] (tx_ops tx') \<and>
      tx_leases tx' = srt xs \<and> mset (tx_leases tx') = mset xs \<and> in_order (tx_leases tx') \<and>
      tx_resource tx' = tx_resource tx \<and> tx_revision tx' = tx_revision tx"
proof -
  from Process_loop_rule [where I = I and f = f, OF step init] obtain s' tx' where
    "Process_loop f s 0 tx = Inr (s', tx')" "I s' (tx_leases tx') [] (tx_ops tx')"
    "tx_resource tx' = tx_resource tx" "tx_revision tx' = tx_revision tx"
    by auto
  then show ?thesis
    using lease_sorter.mset_srt [OF assms(1)] lease_sorter.srt_in_order [OF assms(1)]
    by (intro exI [of _ s'] exI [of _ "Tx_sort srt tx'"] exI [of _ "tx_leases tx'"])
      (simp add: Tx_Process_def)
qed

section \<open>Processors without state\<close>

definition iter_out :: "iter_t \<Rightarrow> lease \<Rightarrow> leases" where
  "iter_out it x = (case it_action it of Update \<Rightarrow> [it_Lease it] | Delete \<Rightarrow> [] | _ \<Rightarrow> [x])"

definition iter_ops :: "iter_t \<Rightarrow> lease \<Rightarrow> op_t list" where
  "iter_ops it x = (case it_action it of
     Update \<Rightarrow> [update_op x (it_Lease it)] | Delete \<Rightarrow> [delete_op x] | _ \<Rightarrow> [])"

lemma Process_loop_stateless:
  assumes f: "\<And>x. f () (new_iter x) = Inr ((), g x)"
  shows "Process_loop f () 0 tx =
      Inr ((), tx\<lparr>tx_leases := concat (map (\<lambda>x. iter_out (g x) x) (tx_leases tx)),
                  tx_ops := tx_ops tx @ concat (map (\<lambda>x. iter_ops (g x) x) (tx_leases tx))\<rparr>)"
proof -
  let ?I = "\<lambda>(s::unit) pre suf ops.
      pre @ concat (map (\<lambda>x. iter_out (g x) x) suf) = concat (map (\<lambda>x. iter_out (g x) x) (tx_leases tx)) \<and>
      ops @ concat (map (\<lambda>x. iter_ops (g x) x) suf) =
        tx_ops tx @ concat (map (\<lambda>x. iter_ops (g x) x) (tx_leases tx))"
  have "\<exists>s' tx'. Process_loop f () (length ([]::leases)) tx = Inr (s', tx') \<and>
      ?I s' (tx_leases tx') [] (tx_ops tx') \<and>
      tx_resource tx' = tx_resource tx \<and> tx_revision tx' = tx_revision tx"
  proof (rule Process_loop_rule [where I = ?I and suf = "tx_leases tx"])
    fix s pre x suf ops
    assume "?I s pre (x # suf) ops"
    then show "\<exists>s' it. f s (new_iter x) = Inr (s', it) \<and> iter_post ?I s' it pre x suf ops"
      using f [of x]
      by (cases "it_action (g x)")
        (simp_all add: iter_post_def iter_out_def [of "g x" x] iter_ops_def [of "g x" x])
  qed simp_all
  then show ?thesis by (auto intro: tx.equality)
qed

lemma Tx_Process_stateless:
  assumes "\<And>x. f () (new_iter x) = Inr ((), g x)"
  shows "Tx_Process srt f () tx =
      Inr ((), tx\<lparr>tx_leases := srt (concat (map (\<lambda>x. iter_out (g x) x) (tx_leases tx))),
                  tx_ops := tx_ops tx @ concat (map (\<lambda>x. iter_ops (g x) x) (tx_leases tx))\<rparr>)"
  by (simp add: Tx_Process_def Process_loop_stateless [where f = f and g = g, OF assms] Tx_sort_def)

lemma MatchInstance_Subject:
  "Lease_MatchInstance x res inst \<longleftrightarrow> ls_Subject x = \<lparr>sub_Resource = res, sub_Instance = inst\<rparr>"
  by (cases "ls_Subject x") (auto simp: Lease_MatchInstance_def)

lemma concat_map_single: "concat (map (\<lambda>x. [f x]) xs) = map f xs"
  by (induction xs) simp_all

lemma Tx_Update_eq:
  "Tx_Update srt inst l tx = Inr (tx\<lparr>
     tx_leases := srt (map (\<lambda>x. if Lease_MatchInstance x (tx_resource tx) inst then l else x) (tx_leases tx)),
     tx_ops := tx_ops tx @ concat (map (\<lambda>x. if Lease_MatchInstance x (tx_resource tx) inst
                                             then [update_op x l] else []) (tx_leases tx))\<rparr>)"
proof -
  let ?g = "\<lambda>x. if Lease_MatchInstance x (tx_resource tx) inst
               then Iter_Update ((new_iter x)\<lparr>it_Lease := l\<rparr>) else new_iter x"
  have f: "update_proc (tx_resource tx) inst l () (new_iter x) = Inr ((), ?g x)" for x
    by (simp add: update_proc_def)
  have out: "iter_out (?g x) x = [if Lease_MatchInstance x (tx_resource tx) inst then l else x]"
    and ops: "iter_ops (?g x) x =
      (if Lease_MatchInstance x (tx_resource tx) inst then [update_op x l] else [])" for x
    by (simp_all add: iter_out_def iter_ops_def Iter_Update_def)
  show ?thesis
    by (simp only: Tx_Update_def
        Tx_Process_stateless [where f = "update_proc (tx_resource tx) inst l" and g = ?g, OF f] out ops
        concat_map_single go_bind_simps prod.case)
qed

lemma Tx_Release_eq:
  "Tx_Release srt inst at tx = Inr (tx\<lparr>
     tx_leases := srt (concat (map (\<lambda>x.
        if Lease_MatchInstance x (tx_resource tx) inst
        then (if ls_Status x = Active then [x\<lparr>ls_Status := Released, ls_Released := at\<rparr>] else [])
        else [x]) (tx_leases tx))),
     tx_ops := tx_ops tx @ concat (map (\<lambda>x.
        if Lease_MatchInstance x (tx_resource tx) inst
        then (if ls_Status x = Active then [update_op x (x\<lparr>ls_Status := Released, ls_Released := at\<rparr>)]
              else [delete_op x])
        else []) (tx_leases tx))\<rparr>)"
proof -
  let ?g = "\<lambda>x. if Lease_MatchInstance x (tx_resource tx) inst
      then (if ls_Status x = Active
            then Iter_Update ((new_iter x)\<lparr>it_Lease := x\<lparr>ls_Status := Released, ls_Released := at\<rparr>\<rparr>)
            else Iter_Delete (new_iter x))
      else new_iter x"
  have f: "release_proc (tx_resource tx) inst at () (new_iter x) = Inr ((), ?g x)" for x
    by (simp add: release_proc_def)
  have out: "iter_out (?g x) x =
      (if Lease_MatchInstance x (tx_resource tx) inst
       then (if ls_Status x = Active then [x\<lparr>ls_Status := Released, ls_Released := at\<rparr>] else [])
       else [x])"
    and ops: "iter_ops (?g x) x =
      (if Lease_MatchInstance x (tx_resource tx) inst
       then (if ls_Status x = Active then [update_op x (x\<lparr>ls_Status := Released, ls_Released := at\<rparr>)]
             else [delete_op x])
       else [])" for x
    by (simp_all add: iter_out_def iter_ops_def Iter_Update_def Iter_Delete_def)
  show ?thesis
    by (simp only: Tx_Release_def
        Tx_Process_stateless [where f = "release_proc (tx_resource tx) inst at" and g = ?g, OF f] out ops
        go_bind_simps prod.case)
qed

lemma Tx_Delete_eq:
  "Tx_Delete srt inst tx = Inr (tx\<lparr>
     tx_leases := srt (filter (\<lambda>x. \<not> Lease_MatchInstance x (tx_resource tx) inst) (tx_leases tx)),
     tx_ops := tx_ops tx @ map delete_op
       (filter (\<lambda>x. Lease_MatchInstance x (tx_resource tx) inst) (tx_leases tx))\<rparr>)"
proof -
  let ?g = "\<lambda>x. if Lease_MatchInstance x (tx_resource tx) inst
               then Iter_Delete (new_iter x) else new_iter x"
  have f: "delete_proc (tx_resource tx) inst () (new_iter x) = Inr ((), ?g x)" for x
    by (simp add: delete_proc_def)
  have out: "concat (map (\<lambda>x. iter_out (?g x) x) xs) =
      filter (\<lambda>x. \<not> Lease_MatchInstance x (tx_resource tx) inst) xs"
    and ops: "concat (map (\<lambda>x. iter_ops (?g x) x) xs) =
      map delete_op (filter (\<lambda>x. Lease_MatchInstance x (tx_resource tx) inst) xs)" for xs
    by (induction xs) (simp_all add: iter_out_def iter_ops_def Iter_Delete_def)
  show ?thesis
    by (simp only: Tx_Delete_def
        Tx_Process_stateless [where f = "delete_proc (tx_resource tx) inst" and g = ?g, OF f] out ops
        go_bind_simps prod.case)
qed

section \<open>Replaying operations\<close>

abbreviation subjects :: "leases \<Rightarrow> subject_t set" where
  "subjects xs \<equiv> ls_Subject ` set xs"

inductive replays :: "leases \<Rightarrow> op_t list \<Rightarrow> leases \<Rightarrow> bool" for base where
  start: "distinct (map ls_Subject base) \<Longrightarrow> replays base [] base"
| perm: "replays base ops cur \<Longrightarrow> mset cur' = mset cur \<Longrightarrow> replays base ops cur'"
| create: "replays base ops cur \<Longrightarrow> ls_Subject l \<notin> subjects cur \<Longrightarrow>
     replays base (ops @ [create_op l]) (cur @ [l])"
| update: "replays base ops (pre @ x # suf) \<Longrightarrow> ls_Subject l \<notin> subjects (pre @ suf) \<Longrightarrow>
     replays base (ops @ [update_op x l]) (pre @ l # suf)"
| delete: "replays base ops (pre @ x # suf) \<Longrightarrow>
     replays base (ops @ [delete_op x]) (pre @ suf)"

lemma replays_distinct: "replays base ops cur \<Longrightarrow> distinct (map ls_Subject cur)"
proof (induction rule: replays.induct)
  case (perm ops cur cur')
  then show ?case by (metis mset_eq_distinct_map)
qed auto

lemma replays_update_same:
  assumes "replays base ops (pre @ x # suf)" and "ls_Subject l = ls_Subject x"
  shows "replays base (ops @ [update_op x l]) (pre @ l # suf)"
proof (rule replays.update [OF assms(1)])
  show "ls_Subject l \<notin> subjects (pre @ suf)"
    using replays_distinct [OF assms(1)] assms(2) by auto
qed

text \<open>
  A sweep of \<^verbatim>\<open>Process\<close> whose updates keep the subject of each lease is replayed by the
  operations it records.
\<close>

lemma replays_sweep:
  assumes "replays base ops0 (pre0 @ xs)"
    and keep: "\<And>x. x \<in> set xs \<Longrightarrow> it_action (g x) = Update \<Longrightarrow> ls_Subject (it_Lease (g x)) = ls_Subject x"
  shows "replays base (ops0 @ concat (map (\<lambda>x. iter_ops (g x) x) xs))
      (pre0 @ concat (map (\<lambda>x. iter_out (g x) x) xs))"
  using assms(1) keep
proof (induction xs arbitrary: ops0 pre0)
  case Nil
  then show ?case by simp
next
  case (Cons x xs)
  have "replays base (ops0 @ iter_ops (g x) x) ((pre0 @ iter_out (g x) x) @ xs)"
  proof (cases "it_action (g x)")
    case Update
    with Cons.prems replays_update_same [of base ops0 pre0 x xs "it_Lease (g x)"]
    show ?thesis by (simp add: iter_ops_def iter_out_def)
  next
    case Delete
    with Cons.prems replays.delete [of base ops0 pre0 x xs]
    show ?thesis by (simp add: iter_ops_def iter_out_def)
  qed (use Cons.prems in \<open>simp_all add: iter_ops_def iter_out_def\<close>)
  from Cons.IH [OF this] Cons.prems(2) show ?case by simp
qed

end
