(* ===== verification/LeaseUtil.thy ===== *)
theory LeaseUtil
  imports LeaseTx
begin

text \<open>
  Package \<^verbatim>\<open>leaseutil\<close> (\<^verbatim>\<open>src/lease/leaseutil/\<close>): the accumulator, \<^verbatim>\<open>CanActivate\<close> and
  \<^verbatim>\<open>Refresh\<close>, the function that expires, decays, promotes and replaces leases. \<^verbatim>\<open>Refresh\<close>
  makes two sweeps over the transaction. \<open>verdict\<close> classifies what the first sweep does
  to one lease, and \<open>first_sweep_rule\<close> and \<open>second_sweep_rule\<close> are the correctness rules
  of the two sweeps; the lemmas that follow instantiate them: the accumulator counts
  what the transaction holds, no sweep panics, the operations recorded replay to the
  result, nothing stale is left, and consumption stays within the limit.
\<close>

section \<open>The accumulator\<close>

record accumulator =
  acc_total :: uint
  acc_active :: "(string, nat) gomap"
  acc_released :: "(string, nat) gomap"
  acc_consumed :: "(string, nat) gomap"
  acc_replacements :: "(string, nat) gomap"

definition NewAccumulator :: accumulator where
  "NewAccumulator = \<lparr>acc_total = 0, acc_active = [], acc_released = [], acc_consumed = [],
     acc_replacements = []\<rparr>"

definition Accumulator_Add :: "accumulator \<Rightarrow> string \<Rightarrow> status \<Rightarrow> accumulator" where
  "Accumulator_Add a consumer st =
     (if st = Active then
        a\<lparr>acc_total := acc_total a + 1, acc_active := gm_inc (acc_active a) consumer,
          acc_consumed := gm_inc (acc_consumed a) consumer\<rparr>
      else if st = Released then
        a\<lparr>acc_total := acc_total a + 1, acc_released := gm_inc (acc_released a) consumer,
          acc_consumed := gm_inc (acc_consumed a) consumer\<rparr>
      else a)"

definition gm_dec :: "('k, nat) gomap \<Rightarrow> 'k \<Rightarrow> ('k, nat) gomap" where
  "gm_dec m k =
     (let m' = gm_put m k (gm_get m k - 1) in if gm_get m' k = 0 then gm_delete m' k else m')"

definition Accumulator_StartReplacement :: "accumulator \<Rightarrow> string \<Rightarrow> accumulator go" where
  "Accumulator_StartReplacement a consumer =
     (if gm_get (acc_released a) consumer = 0
      then Inl (Panic ''leaseutil: accumulator: cannot start replacement lease'')
      else Inr (a\<lparr>acc_replacements := gm_inc (acc_replacements a) consumer,
                  acc_active := gm_inc (acc_active a) consumer,
                  acc_released := gm_dec (acc_released a) consumer\<rparr>))"

definition Accumulator_FinishReplacement :: "accumulator \<Rightarrow> string \<Rightarrow> accumulator go" where
  "Accumulator_FinishReplacement a consumer =
     (if gm_get (acc_replacements a) consumer = 0
      then Inl (Panic ''leaseutil: accumulator: cannot finish replacement lease'')
      else Inr (a\<lparr>acc_replacements := gm_dec (acc_replacements a) consumer\<rparr>))"

definition Accumulator_Active :: "accumulator \<Rightarrow> string \<Rightarrow> uint" where
  "Accumulator_Active a consumer = gm_get (acc_active a) consumer"

definition Accumulator_Released :: "accumulator \<Rightarrow> string \<Rightarrow> uint" where
  "Accumulator_Released a consumer = gm_get (acc_released a) consumer"

definition Accumulator_Consumed :: "accumulator \<Rightarrow> string \<Rightarrow> strategy \<Rightarrow> uint" where
  "Accumulator_Consumed a consumer strat =
     (if strat = strategy_Consumer then gm_get (acc_consumed a) consumer
      else if gm_get (acc_consumed a) consumer > 0 then 1 else 0)"

definition Accumulator_Replacements :: "accumulator \<Rightarrow> string \<Rightarrow> uint" where
  "Accumulator_Replacements a consumer = gm_get (acc_replacements a) consumer"

definition Accumulator_ReplacementsRecorded :: "accumulator \<Rightarrow> bool" where
  "Accumulator_ReplacementsRecorded a \<longleftrightarrow> length (acc_replacements a) > 0"

definition Accumulator_Total :: "accumulator \<Rightarrow> strategy \<Rightarrow> uint" where
  "Accumulator_Total a strat =
     (if strat = strategy_Consumer then length (acc_consumed a) else acc_total a)"

definition CanActivate :: "strategy \<Rightarrow> uint \<Rightarrow> uint \<Rightarrow> uint \<Rightarrow> bool" where
  "CanActivate strat active consumed limit =
     (if limit = 0 then False
      else if consumed > limit then False
      else if strat = strategy_Consumer \<and> active > 0 then True
      else consumed < limit)"

section \<open>Refresh\<close>

definition refresh_proc :: "time \<Rightarrow> (accumulator \<times> leases) processor" where
  "refresh_proc at st it =
     (let (acc, replacements) = st; l = it_Lease it in
      if ls_Status l = Active then
        (if Lease_Decayed l at then Inr (st, Iter_Delete it)
         else
           let it' = (if Lease_Expired l at
                      then Iter_Update (it\<lparr>it_Lease := l\<lparr>ls_Status := Released,
                             ls_Released := ls_Renewed l + ls_Duration l\<rparr>\<rparr>)
                      else it)
           in Inr ((Accumulator_Add acc (ls_HostUser (it_Lease it')) (ls_Status (it_Lease it')),
                    replacements), it'))
      else if ls_Status l = Released then
        (if Lease_Decayed l at then Inr (st, Iter_Delete it)
         else Inr ((Accumulator_Add acc (ls_HostUser l) (ls_Status l), replacements), it))
      else if ls_Status l = Queued then
        (if Lease_Expired l at then Inr (st, Iter_Delete it)
         else
           let consumed = Accumulator_Total acc (ls_Strategy l) in
           if consumed > ls_Limit l then Inr (st, it)
           else if Accumulator_Released acc (ls_HostUser l) > 0 then
             go_bind (Accumulator_StartReplacement acc (ls_HostUser l))
               (\<lambda>acc'. Inr ((acc', replacements @ [l]), Iter_Delete it))
           else if CanActivate (ls_Strategy l) (Accumulator_Active acc (ls_HostUser l)) consumed (ls_Limit l)
           then let it' = Iter_Update (it\<lparr>it_Lease := l\<lparr>ls_Status := Active\<rparr>\<rparr>)
                in Inr ((Accumulator_Add acc (ls_HostUser l) (ls_Status (it_Lease it')), replacements), it')
           else Inr (st, it))
      else Inr (st, it))"

definition replace_proc :: "leases \<Rightarrow> (accumulator \<times> nat) processor" where
  "replace_proc replacements st it =
     (let (acc, r) = st; l = it_Lease it in
      if ls_Status l \<noteq> Released then Inr (st, it)
      else if Accumulator_Replacements acc (ls_HostUser l) = 0 then Inr (st, it)
      else go_bind (Accumulator_FinishReplacement acc (ls_HostUser l)) (\<lambda>acc'.
        if r < length replacements
        then Inr ((acc', r + 1),
                  Iter_Update (it\<lparr>it_Lease := (replacements ! r)\<lparr>ls_Status := Active\<rparr>\<rparr>))
        else Inl IndexOutOfRange))"

definition Refresh :: "sorter \<Rightarrow> tx \<Rightarrow> time \<Rightarrow> (accumulator \<times> tx) go" where
  "Refresh srt tx at =
     go_bind (Tx_Process srt (refresh_proc at) (NewAccumulator, []) tx)
       (\<lambda>((acc, replacements), tx').
          if Accumulator_ReplacementsRecorded acc
          then go_bind (Tx_ProcessReverse srt (replace_proc replacements) (acc, 0) tx')
                 (\<lambda>((acc', r), tx''). Inr (acc', tx''))
          else Inr (acc, tx'))"

section \<open>What the first sweep does to a lease\<close>

datatype verdict = Drop | Skip | Hold | Demote | Supplant | Promote

definition verdict :: "time \<Rightarrow> accumulator \<Rightarrow> lease \<Rightarrow> verdict" where
  "verdict at acc l =
     (if ls_Status l = Active then
        (if Lease_Decayed l at then Drop else if Lease_Expired l at then Demote else Hold)
      else if ls_Status l = Released then (if Lease_Decayed l at then Drop else Hold)
      else if ls_Status l = Queued then
        (if Lease_Expired l at then Drop
         else if Accumulator_Total acc (ls_Strategy l) > ls_Limit l then Skip
         else if Accumulator_Released acc (ls_HostUser l) > 0 then Supplant
         else if CanActivate (ls_Strategy l) (Accumulator_Active acc (ls_HostUser l))
                   (Accumulator_Total acc (ls_Strategy l)) (ls_Limit l) then Promote
         else Skip)
      else Skip)"

definition demoted :: "lease \<Rightarrow> lease" where
  "demoted l = l\<lparr>ls_Status := Released, ls_Released := ls_Renewed l + ls_Duration l\<rparr>"

definition promoted :: "lease \<Rightarrow> lease" where
  "promoted l = l\<lparr>ls_Status := Active\<rparr>"

definition start_replacement :: "accumulator \<Rightarrow> string \<Rightarrow> accumulator" where
  "start_replacement a c = a\<lparr>acc_replacements := gm_inc (acc_replacements a) c,
     acc_active := gm_inc (acc_active a) c, acc_released := gm_dec (acc_released a) c\<rparr>"

lemma demoted_simps [simp]:
  "ls_Status (demoted l) = Released" "ls_Subject (demoted l) = ls_Subject l"
  "ls_Strategy (demoted l) = ls_Strategy l" "ls_Limit (demoted l) = ls_Limit l"
  "ls_Released (demoted l) = Lease_ExpirationTime l" "ls_Decay (demoted l) = ls_Decay l"
  "ls_Renewed (demoted l) = ls_Renewed l" "ls_Duration (demoted l) = ls_Duration l"
  "ls_Started (demoted l) = ls_Started l"
  by (simp_all add: demoted_def Lease_ExpirationTime_def)

lemma promoted_simps [simp]:
  "ls_Status (promoted l) = Active" "ls_Subject (promoted l) = ls_Subject l"
  "ls_Strategy (promoted l) = ls_Strategy l" "ls_Limit (promoted l) = ls_Limit l"
  "ls_Released (promoted l) = ls_Released l" "ls_Decay (promoted l) = ls_Decay l"
  "ls_Renewed (promoted l) = ls_Renewed l" "ls_Duration (promoted l) = ls_Duration l"
  "ls_Started (promoted l) = ls_Started l"
  by (simp_all add: promoted_def)

lemma refresh_proc_verdict:
  "refresh_proc at (acc, rs) (new_iter x) = Inr (case verdict at acc x of
      Drop \<Rightarrow> ((acc, rs), Iter_Delete (new_iter x))
    | Skip \<Rightarrow> ((acc, rs), new_iter x)
    | Hold \<Rightarrow> ((Accumulator_Add acc (ls_HostUser x) (ls_Status x), rs), new_iter x)
    | Demote \<Rightarrow> ((Accumulator_Add acc (ls_HostUser x) Released, rs),
                 Iter_Update ((new_iter x)\<lparr>it_Lease := demoted x\<rparr>))
    | Supplant \<Rightarrow> ((start_replacement acc (ls_HostUser x), rs @ [x]), Iter_Delete (new_iter x))
    | Promote \<Rightarrow> ((Accumulator_Add acc (ls_HostUser x) Active, rs),
                 Iter_Update ((new_iter x)\<lparr>it_Lease := promoted x\<rparr>)))"
  by (simp add: refresh_proc_def verdict_def Let_def Iter_Update_def demoted_def promoted_def
      Accumulator_StartReplacement_def Accumulator_Released_def start_replacement_def)

lemma first_sweep_rule:
  assumes srt: "lease_sorter srt"
    and init: "I NewAccumulator [] [] (tx_leases tx) (tx_ops tx)"
    and drop: "\<And>acc rs pre x suf ops. I acc rs pre (x # suf) ops \<Longrightarrow> verdict at acc x = Drop \<Longrightarrow>
      I acc rs pre suf (ops @ [delete_op x])"
    and skip: "\<And>acc rs pre x suf ops. I acc rs pre (x # suf) ops \<Longrightarrow> verdict at acc x = Skip \<Longrightarrow>
      I acc rs (pre @ [x]) suf ops"
    and hold: "\<And>acc rs pre x suf ops. I acc rs pre (x # suf) ops \<Longrightarrow> verdict at acc x = Hold \<Longrightarrow>
      I (Accumulator_Add acc (ls_HostUser x) (ls_Status x)) rs (pre @ [x]) suf ops"
    and demote: "\<And>acc rs pre x suf ops. I acc rs pre (x # suf) ops \<Longrightarrow> verdict at acc x = Demote \<Longrightarrow>
      I (Accumulator_Add acc (ls_HostUser x) Released) rs (pre @ [demoted x]) suf (ops @ [update_op x (demoted x)])"
    and supplant: "\<And>acc rs pre x suf ops. I acc rs pre (x # suf) ops \<Longrightarrow> verdict at acc x = Supplant \<Longrightarrow>
      I (start_replacement acc (ls_HostUser x)) (rs @ [x]) pre suf (ops @ [delete_op x])"
    and promote: "\<And>acc rs pre x suf ops. I acc rs pre (x # suf) ops \<Longrightarrow> verdict at acc x = Promote \<Longrightarrow>
      I (Accumulator_Add acc (ls_HostUser x) Active) rs (pre @ [promoted x]) suf (ops @ [update_op x (promoted x)])"
  shows "\<exists>acc rs tx' xs. Tx_Process srt (refresh_proc at) (NewAccumulator, []) tx = Inr ((acc, rs), tx') \<and>
      I acc rs xs [] (tx_ops tx') \<and> mset (tx_leases tx') = mset xs \<and> in_order (tx_leases tx') \<and>
      tx_resource tx' = tx_resource tx \<and> tx_revision tx' = tx_revision tx"
proof -
  let ?I = "\<lambda>st pre suf ops. I (fst st) (snd st) pre suf ops"
  have step: "\<exists>s' it. refresh_proc at s (new_iter x) = Inr (s', it) \<and> iter_post ?I s' it pre x suf ops"
    if "?I s pre (x # suf) ops" for s pre x suf ops
  proof (cases s)
    case (Pair acc rs)
    with that have I: "I acc rs pre (x # suf) ops" by simp
    show ?thesis
      using drop [OF I] skip [OF I] hold [OF I] demote [OF I] supplant [OF I] promote [OF I]
      by (cases "verdict at acc x")
        (simp_all add: Pair refresh_proc_verdict iter_post_def Iter_Update_def Iter_Delete_def)
  qed
  from Tx_Process_rule [where I = ?I and f = "refresh_proc at" and s = "(NewAccumulator, [])", OF srt step] init
  show ?thesis by fastforce
qed

definition finish_replacement :: "accumulator \<Rightarrow> string \<Rightarrow> accumulator" where
  "finish_replacement a c = a\<lparr>acc_replacements := gm_dec (acc_replacements a) c\<rparr>"

lemma second_sweep_rule:
  assumes srt: "lease_sorter srt"
    and init: "J acc 0 [] (tx_leases tx) (tx_ops tx)"
    and skip: "\<And>acc r pre x suf ops. J acc r pre (x # suf) ops \<Longrightarrow>
      ls_Status x \<noteq> Released \<or> gm_get (acc_replacements acc) (ls_HostUser x) = 0 \<Longrightarrow>
      J acc r (pre @ [x]) suf ops"
    and replace: "\<And>acc r pre x suf ops. J acc r pre (x # suf) ops \<Longrightarrow> ls_Status x = Released \<Longrightarrow>
      0 < gm_get (acc_replacements acc) (ls_HostUser x) \<Longrightarrow>
      r < length rs \<and> J (finish_replacement acc (ls_HostUser x)) (Suc r) (pre @ [promoted (rs ! r)]) suf
        (ops @ [update_op x (promoted (rs ! r))])"
  shows "\<exists>acc' r tx' xs. Tx_ProcessReverse srt (replace_proc rs) (acc, 0) tx = Inr ((acc', r), tx') \<and>
      J acc' r xs [] (tx_ops tx') \<and> mset (tx_leases tx') = mset xs \<and> in_order (tx_leases tx') \<and>
      tx_resource tx' = tx_resource tx \<and> tx_revision tx' = tx_revision tx"
proof -
  let ?J = "\<lambda>st pre suf ops. J (fst st) (snd st) pre suf ops"
  have step: "\<exists>s' it. replace_proc rs s (new_iter x) = Inr (s', it) \<and> iter_post ?J s' it pre x suf ops"
    if "?J s pre (x # suf) ops" for s pre x suf ops
  proof (cases s)
    case (Pair a r)
    with that have J: "J a r pre (x # suf) ops" by simp
    show ?thesis
    proof (cases "ls_Status x = Released \<and> 0 < gm_get (acc_replacements a) (ls_HostUser x)")
      case True
      then show ?thesis
        using replace [OF J]
        by (simp add: Pair replace_proc_def Accumulator_Replacements_def finish_replacement_def
            Accumulator_FinishReplacement_def iter_post_def Iter_Update_def promoted_def)
    next
      case False
      then show ?thesis
        using skip [OF J]
        by (auto simp: Pair replace_proc_def Accumulator_Replacements_def iter_post_def)
    qed
  qed
  from Tx_Process_rule [where I = ?J and f = "replace_proc rs" and s = "(acc, 0)", OF srt step] init
  show ?thesis unfolding Tx_ProcessReverse_def Tx_Process_def by fastforce
qed

section \<open>The accumulator counts what the transaction holds\<close>

abbreviation hus :: "leases \<Rightarrow> string multiset" where
  "hus xs \<equiv> mset (map ls_HostUser xs)"

definition acc_ok :: "accumulator \<Rightarrow> leases \<Rightarrow> bool" where
  "acc_ok acc xs \<longleftrightarrow>
     acc_total acc = length (filter Lease_Consumptive xs) \<and>
     (\<forall>c. gm_get (acc_active acc) c = n_status Active c xs) \<and>
     (\<forall>c. gm_get (acc_released acc) c = n_status Released c xs) \<and>
     (\<forall>c. gm_get (acc_consumed acc) c = n_status Active c xs + n_status Released c xs) \<and>
     gm_wf (acc_consumed acc) \<and> fst ` set (acc_consumed acc) = consumers xs"

definition sweep1 :: "accumulator \<Rightarrow> leases \<Rightarrow> leases \<Rightarrow> bool" where
  "sweep1 acc rs pre \<longleftrightarrow>
     acc_total acc = length (filter Lease_Consumptive pre) \<and>
     (\<forall>c. gm_get (acc_active acc) c = n_status Active c pre + count (hus rs) c) \<and>
     (\<forall>c. gm_get (acc_released acc) c + count (hus rs) c = n_status Released c pre) \<and>
     (\<forall>c. gm_get (acc_consumed acc) c = n_status Active c pre + n_status Released c pre) \<and>
     gm_wf (acc_consumed acc) \<and> fst ` set (acc_consumed acc) = consumers pre \<and>
     (\<forall>c. gm_get (acc_replacements acc) c = count (hus rs) c) \<and>
     (acc_replacements acc = [] \<longleftrightarrow> rs = [])"

lemma gm_get_dec [simp]: "gm_get (gm_dec m k) k' = (if k' = k then gm_get m k - 1 else gm_get m k')"
  by (simp add: gm_dec_def Let_def)

lemma gm_inc_not_Nil [simp]: "gm_inc m k \<noteq> []"
  by (metis gm_keys_inc image_is_empty insert_not_empty list.set(1))

lemma consumers_iff: "c \<in> consumers xs \<longleftrightarrow> 0 < n_status Active c xs + n_status Released c xs"
  by (induction xs) (auto simp: Lease_Consumptive_def)

lemma n_status_pos: "0 < n_status st c xs \<longleftrightarrow> (\<exists>l \<in> set xs. ls_Status l = st \<and> ls_HostUser l = c)"
  by (induction xs) auto

lemma sweep1_init: "sweep1 NewAccumulator [] []"
  by (simp add: sweep1_def NewAccumulator_def)

lemma sweep1_skip: "sweep1 acc rs pre \<Longrightarrow> \<not> Lease_Consumptive x \<Longrightarrow> sweep1 acc rs (pre @ [x])"
  by (simp add: sweep1_def Lease_Consumptive_def)

lemma sweep1_add:
  "sweep1 acc rs pre \<Longrightarrow> ls_Status x = Active \<or> ls_Status x = Released \<Longrightarrow>
   sweep1 (Accumulator_Add acc (ls_HostUser x) (ls_Status x)) rs (pre @ [x])"
  by (auto simp: sweep1_def Accumulator_Add_def Lease_Consumptive_def)

lemma sweep1_supplant:
  assumes "sweep1 acc rs pre" and "0 < gm_get (acc_released acc) (ls_HostUser x)"
  shows "sweep1 (start_replacement acc (ls_HostUser x)) (rs @ [x]) pre"
proof -
  have "gm_get (acc_released acc) (ls_HostUser x) + count (hus rs) (ls_HostUser x) =
      n_status Released (ls_HostUser x) pre"
    using assms(1) by (simp add: sweep1_def)
  with assms(2) have "0 < n_status Released (ls_HostUser x) pre" by linarith
  then show ?thesis using assms by (auto simp: sweep1_def start_replacement_def)
qed

lemma verdict_status:
  "verdict at acc x = Drop \<Longrightarrow> ls_Status x = Active \<or> ls_Status x = Released \<or> ls_Status x = Queued"
  "verdict at acc x = Skip \<Longrightarrow> \<not> Lease_Consumptive x"
  "verdict at acc x = Hold \<Longrightarrow> Lease_Consumptive x"
  "verdict at acc x = Demote \<Longrightarrow> ls_Status x = Active"
  "verdict at acc x = Supplant \<Longrightarrow> ls_Status x = Queued \<and> 0 < gm_get (acc_released acc) (ls_HostUser x)"
  "verdict at acc x = Promote \<Longrightarrow> ls_Status x = Queued"
  by (auto simp: verdict_def Accumulator_Released_def Lease_Consumptive_def split: if_splits)

lemma sweep1_steps:
  assumes "sweep1 acc rs pre"
  shows "verdict at acc x = Skip \<Longrightarrow> sweep1 acc rs (pre @ [x])"
    and "verdict at acc x = Hold \<Longrightarrow>
      sweep1 (Accumulator_Add acc (ls_HostUser x) (ls_Status x)) rs (pre @ [x])"
    and "verdict at acc x = Demote \<Longrightarrow>
      sweep1 (Accumulator_Add acc (ls_HostUser x) Released) rs (pre @ [demoted x])"
    and "verdict at acc x = Supplant \<Longrightarrow>
      sweep1 (start_replacement acc (ls_HostUser x)) (rs @ [x]) pre"
    and "verdict at acc x = Promote \<Longrightarrow>
      sweep1 (Accumulator_Add acc (ls_HostUser x) Active) rs (pre @ [promoted x])"
proof -
  show "verdict at acc x = Skip \<Longrightarrow> sweep1 acc rs (pre @ [x])"
    using assms by (intro sweep1_skip verdict_status(2))
  show "verdict at acc x = Hold \<Longrightarrow>
      sweep1 (Accumulator_Add acc (ls_HostUser x) (ls_Status x)) rs (pre @ [x])"
    using assms verdict_status(3) by (intro sweep1_add) (auto simp: Lease_Consumptive_def)
  show "sweep1 (Accumulator_Add acc (ls_HostUser x) Released) rs (pre @ [demoted x])"
    using sweep1_add [OF assms, of "demoted x"] by simp
  show "verdict at acc x = Supplant \<Longrightarrow>
      sweep1 (start_replacement acc (ls_HostUser x)) (rs @ [x]) pre"
    using assms verdict_status(5) by (intro sweep1_supplant) auto
  show "sweep1 (Accumulator_Add acc (ls_HostUser x) Active) rs (pre @ [promoted x])"
    using sweep1_add [OF assms, of "promoted x"] by simp
qed

lemma sweep1_mset: "mset xs = mset ys \<Longrightarrow> sweep1 acc rs xs \<Longrightarrow> sweep1 acc rs ys"
  using n_status_mset [of xs ys] consumers_mset [of xs ys]
    mset_eq_length_filter [of xs ys Lease_Consumptive]
  by (simp add: sweep1_def)

lemma acc_ok_mset: "mset xs = mset ys \<Longrightarrow> acc_ok acc xs \<Longrightarrow> acc_ok acc ys"
  using n_status_mset [of xs ys] consumers_mset [of xs ys]
    mset_eq_length_filter [of xs ys Lease_Consumptive]
  by (simp add: acc_ok_def)

lemma sweep1_acc_ok: "sweep1 acc [] xs \<Longrightarrow> acc_ok acc xs"
  by (simp add: sweep1_def acc_ok_def)

lemma acc_ok_Total: "acc_ok acc xs \<Longrightarrow> Accumulator_Total acc strat = consumption strat xs"
  by (simp add: acc_ok_def Accumulator_Total_def consumption_def gm_length)

lemma sweep1_Total: "sweep1 acc rs xs \<Longrightarrow> Accumulator_Total acc strat = consumption strat xs"
  by (simp add: sweep1_def Accumulator_Total_def consumption_def gm_length)

section \<open>The second sweep uses every replacement once\<close>

text \<open>
  \<open>M\<close> is the multiset of consumers with replacements outstanding. The released leases
  still to visit cover it, so the sweep never runs out of released leases, and its size is
  the number of replacement leases not used yet, so the index \<open>r\<close> never runs past them.
\<close>

definition sweep2 ::
  "accumulator \<Rightarrow> leases \<Rightarrow> leases \<Rightarrow> accumulator \<Rightarrow> nat \<Rightarrow> leases \<Rightarrow> leases \<Rightarrow> bool" where
  "sweep2 acc0 rs L acc r pre suf \<longleftrightarrow>
     (\<exists>m. acc = acc0\<lparr>acc_replacements := m\<rparr>) \<and>
     (\<exists>M. (\<forall>c. gm_get (acc_replacements acc) c = count M c) \<and> size M + r = length rs \<and>
        (\<forall>c. count M c \<le> n_status Released c suf) \<and>
        (\<forall>c. n_status Released c (pre @ suf) + count (hus rs) c = n_status Released c L + count M c)) \<and>
     (\<forall>c. n_status Active c (pre @ suf) = n_status Active c L + count (hus (take r rs)) c) \<and>
     length (filter Lease_Consumptive (pre @ suf)) = length (filter Lease_Consumptive L)"

lemma sweep2_init:
  assumes "sweep1 acc rs L"
  shows "sweep2 acc rs L acc 0 [] L"
proof -
  from assms have "\<forall>c. gm_get (acc_released acc) c + count (hus rs) c = n_status Released c L"
    and m: "\<forall>c. gm_get (acc_replacements acc) c = count (hus rs) c"
    by (simp_all add: sweep1_def)
  then have "\<forall>c. count (hus rs) c \<le> n_status Released c L" by (metis le_add2)
  moreover have "\<exists>m. acc = acc\<lparr>acc_replacements := m\<rparr>"
    by (intro exI [of _ "acc_replacements acc"]) simp
  ultimately show ?thesis
    using m unfolding sweep2_def by (auto intro!: exI [of _ "hus rs"])
qed

lemma sweep2_skip:
  assumes "sweep2 acc0 rs L acc r pre (x # suf)"
    and "ls_Status x \<noteq> Released \<or> gm_get (acc_replacements acc) (ls_HostUser x) = 0"
  shows "sweep2 acc0 rs L acc r (pre @ [x]) suf"
proof -
  from assms(1) obtain M where M: "\<forall>c. gm_get (acc_replacements acc) c = count M c"
    "size M + r = length rs" "\<forall>c. count M c \<le> n_status Released c (x # suf)"
    "\<forall>c. n_status Released c (pre @ x # suf) + count (hus rs) c = n_status Released c L + count M c"
    unfolding sweep2_def by blast
  have "count M c \<le> n_status Released c suf" for c
    using M(1,3) [rule_format, of c] assms(2) by (cases "ls_HostUser x = c") auto
  with M assms(1) show ?thesis
    unfolding sweep2_def by (auto intro!: exI [of _ M])
qed

lemma sweep2_replace:
  assumes J: "sweep2 acc0 rs L acc r pre (x # suf)"
    and x: "ls_Status x = Released" "0 < gm_get (acc_replacements acc) (ls_HostUser x)"
  shows "r < length rs \<and>
    sweep2 acc0 rs L (finish_replacement acc (ls_HostUser x)) (Suc r) (pre @ [promoted (rs ! r)]) suf"
proof -
  let ?c = "ls_HostUser x"
  from J obtain M where M: "\<forall>c. gm_get (acc_replacements acc) c = count M c"
    "size M + r = length rs" "\<forall>c. count M c \<le> n_status Released c (x # suf)"
    "\<forall>c. n_status Released c (pre @ x # suf) + count (hus rs) c = n_status Released c L + count M c"
    unfolding sweep2_def by blast
  from M(1) x(2) have "?c \<in># M" by (simp add: count_greater_zero_iff flip: count_greater_zero_iff)
  then obtain N where N: "M = add_mset ?c N" by (blast dest: multi_member_split)
  have r: "r < length rs" using M(2) N by simp
  have tk: "hus (take (Suc r) rs) = add_mset (ls_HostUser (rs ! r)) (hus (take r rs))"
    using r by (simp add: take_Suc_conv_app_nth)
  have "\<forall>c. gm_get (acc_replacements (finish_replacement acc ?c)) c = count N c"
    using M(1) N by (simp add: finish_replacement_def)
  moreover have "size N + Suc r = length rs" using M(2) N by simp
  moreover have "\<forall>c. count N c \<le> n_status Released c suf"
    using M(3) N x(1) by (auto split: if_splits)
  moreover have "\<forall>c. n_status Released c ((pre @ [promoted (rs ! r)]) @ suf) + count (hus rs) c =
      n_status Released c L + count N c"
    using M(4) N x(1) by (auto split: if_splits)
  moreover have "\<exists>m. finish_replacement acc ?c = acc0\<lparr>acc_replacements := m\<rparr>"
    using J unfolding sweep2_def finish_replacement_def by auto
  moreover have "\<forall>c. n_status Active c ((pre @ [promoted (rs ! r)]) @ suf) =
      n_status Active c L + count (hus (take (Suc r) rs)) c"
    using J x(1) tk unfolding sweep2_def by (auto simp del: take_Suc_conv_app_nth)
  moreover have "length (filter Lease_Consumptive ((pre @ [promoted (rs ! r)]) @ suf)) =
      length (filter Lease_Consumptive L)"
    using J x(1) unfolding sweep2_def by simp
  ultimately show ?thesis using r unfolding sweep2_def by blast
qed

lemma sweep2_final:
  assumes "sweep1 acc0 rs L" and "sweep2 acc0 rs L acc r xs []"
  shows "acc_ok acc xs \<and> r = length rs"
proof -
  from assms(2) obtain M where M: "\<forall>c. count M c = 0" "size M + r = length rs"
    "\<forall>c. n_status Released c xs + count (hus rs) c = n_status Released c L + count M c"
    unfolding sweep2_def by auto
  from M(1) have "M = {#}" by (simp add: multiset_eq_iff)
  with M have r: "r = length rs"
    and rel: "\<forall>c. n_status Released c xs + count (hus rs) c = n_status Released c L" by auto
  from assms(2) r have act: "\<forall>c. n_status Active c xs = n_status Active c L + count (hus rs) c"
    and len: "length (filter Lease_Consumptive xs) = length (filter Lease_Consumptive L)"
    and acc: "acc_total acc = acc_total acc0" "acc_active acc = acc_active acc0"
      "acc_released acc = acc_released acc0" "acc_consumed acc = acc_consumed acc0"
    unfolding sweep2_def by auto
  have sum: "n_status Active c xs + n_status Released c xs = n_status Active c L + n_status Released c L" for c
    using act [rule_format, of c] rel [rule_format, of c] by linarith
  then have "consumers xs = consumers L" by (auto simp: consumers_iff)
  moreover have "gm_get (acc_released acc0) c = n_status Released c xs" for c
    using assms(1) rel [rule_format, of c] unfolding sweep1_def by (metis add_right_cancel)
  ultimately show ?thesis
    using assms(1) acc act len sum r unfolding sweep1_def acc_ok_def by auto
qed

section \<open>The rule of Refresh\<close>

lemma skip_all:
  assumes "\<And>pre x suf. J pre (x # suf) \<Longrightarrow> J (pre @ [x]) suf" and "J pre suf"
  shows "J (pre @ suf) []"
  using assms(2)
proof (induction suf arbitrary: pre)
  case Nil
  then show ?case by simp
next
  case (Cons x suf)
  from Cons.IH [OF assms(1) [OF Cons.prems]] show ?case by simp
qed

lemma Refresh_rule:
  assumes srt: "lease_sorter srt"
    and init: "I NewAccumulator [] [] (tx_leases tx) (tx_ops tx)"
    and drop: "\<And>acc rs pre x suf ops. I acc rs pre (x # suf) ops \<Longrightarrow> sweep1 acc rs pre \<Longrightarrow>
      verdict at acc x = Drop \<Longrightarrow> I acc rs pre suf (ops @ [delete_op x])"
    and skip: "\<And>acc rs pre x suf ops. I acc rs pre (x # suf) ops \<Longrightarrow> sweep1 acc rs pre \<Longrightarrow>
      verdict at acc x = Skip \<Longrightarrow> I acc rs (pre @ [x]) suf ops"
    and hold: "\<And>acc rs pre x suf ops. I acc rs pre (x # suf) ops \<Longrightarrow> sweep1 acc rs pre \<Longrightarrow>
      verdict at acc x = Hold \<Longrightarrow>
      I (Accumulator_Add acc (ls_HostUser x) (ls_Status x)) rs (pre @ [x]) suf ops"
    and demote: "\<And>acc rs pre x suf ops. I acc rs pre (x # suf) ops \<Longrightarrow> sweep1 acc rs pre \<Longrightarrow>
      verdict at acc x = Demote \<Longrightarrow>
      I (Accumulator_Add acc (ls_HostUser x) Released) rs (pre @ [demoted x]) suf (ops @ [update_op x (demoted x)])"
    and supplant: "\<And>acc rs pre x suf ops. I acc rs pre (x # suf) ops \<Longrightarrow> sweep1 acc rs pre \<Longrightarrow>
      verdict at acc x = Supplant \<Longrightarrow>
      I (start_replacement acc (ls_HostUser x)) (rs @ [x]) pre suf (ops @ [delete_op x])"
    and promote: "\<And>acc rs pre x suf ops. I acc rs pre (x # suf) ops \<Longrightarrow> sweep1 acc rs pre \<Longrightarrow>
      verdict at acc x = Promote \<Longrightarrow>
      I (Accumulator_Add acc (ls_HostUser x) Active) rs (pre @ [promoted x]) suf (ops @ [update_op x (promoted x)])"
    and middle: "\<And>acc rs xs ys ops. I acc rs xs [] ops \<Longrightarrow> mset ys = mset xs \<Longrightarrow> J xs rs 0 [] ys ops"
    and skip2: "\<And>L rs r pre x suf ops. J L rs r pre (x # suf) ops \<Longrightarrow> J L rs r (pre @ [x]) suf ops"
    and replace: "\<And>L rs r pre x suf ops. J L rs r pre (x # suf) ops \<Longrightarrow> r < length rs \<Longrightarrow> ls_Status x = Released \<Longrightarrow>
      J L rs (Suc r) (pre @ [promoted (rs ! r)]) suf (ops @ [update_op x (promoted (rs ! r))])"
    and final: "\<And>acc0 rs L ops0 xs ys ops. I acc0 rs L [] ops0 \<Longrightarrow> J L rs (length rs) xs [] ops \<Longrightarrow>
      mset ys = mset xs \<Longrightarrow> (\<forall>strat. consumption strat ys = consumption strat L) \<Longrightarrow> Q ys ops"
  shows "\<exists>acc tx'. Refresh srt tx at = Inr (acc, tx') \<and> Q (tx_leases tx') (tx_ops tx') \<and>
      acc_ok acc (tx_leases tx') \<and> in_order (tx_leases tx') \<and>
      tx_resource tx' = tx_resource tx \<and> tx_revision tx' = tx_revision tx"
proof -
  let ?I = "\<lambda>acc rs pre suf ops. I acc rs pre suf ops \<and> sweep1 acc rs pre"
  have "\<exists>acc rs tx' xs. Tx_Process srt (refresh_proc at) (NewAccumulator, []) tx = Inr ((acc, rs), tx') \<and>
      ?I acc rs xs [] (tx_ops tx') \<and> mset (tx_leases tx') = mset xs \<and> in_order (tx_leases tx') \<and>
      tx_resource tx' = tx_resource tx \<and> tx_revision tx' = tx_revision tx"
    by (rule first_sweep_rule [where I = ?I, OF srt])
      (auto simp: init sweep1_init intro: drop skip hold demote supplant promote sweep1_steps)
  then obtain acc rs tx1 L where p1: "Tx_Process srt (refresh_proc at) (NewAccumulator, []) tx = Inr ((acc, rs), tx1)"
    and IL: "I acc rs L [] (tx_ops tx1)" and s1: "sweep1 acc rs L"
    and L: "mset (tx_leases tx1) = mset L" "in_order (tx_leases tx1)"
    and same1: "tx_resource tx1 = tx_resource tx" "tx_revision tx1 = tx_revision tx"
    by blast
  note J0 = middle [OF IL L(1)]
  have rec: "Accumulator_ReplacementsRecorded acc \<longleftrightarrow> rs \<noteq> []"
    using s1 by (simp add: Accumulator_ReplacementsRecorded_def sweep1_def)
  show ?thesis
  proof (cases "rs = []")
    case True
    have "J L rs 0 ([] @ tx_leases tx1) [] (tx_ops tx1)"
      by (rule skip_all [where J = "\<lambda>pre suf. J L rs 0 pre suf (tx_ops tx1)"]) (auto intro: skip2 J0)
    with final [OF IL, of "tx_leases tx1"] True have "Q (tx_leases tx1) (tx_ops tx1)"
      using consumption_mset [OF L(1)] by simp
    moreover have "acc_ok acc (tx_leases tx1)"
      using s1 L(1) True by (metis acc_ok_mset sweep1_acc_ok)
    ultimately show ?thesis
      using p1 rec True L(2) same1 by (simp add: Refresh_def)
  next
    case False
    let ?J = "\<lambda>acc' r pre suf ops. J L rs r pre suf ops \<and> sweep2 acc rs (tx_leases tx1) acc' r pre suf"
    have s1': "sweep1 acc rs (tx_leases tx1)" using s1 L(1) by (metis sweep1_mset)
    have "\<exists>acc' r tx2 xs. Tx_ProcessReverse srt (replace_proc rs) (acc, 0) tx1 = Inr ((acc', r), tx2) \<and>
        ?J acc' r xs [] (tx_ops tx2) \<and> mset (tx_leases tx2) = mset xs \<and> in_order (tx_leases tx2) \<and>
        tx_resource tx2 = tx_resource tx1 \<and> tx_revision tx2 = tx_revision tx1"
    proof (rule second_sweep_rule [where J = ?J, OF srt])
      show "J L rs 0 [] (tx_leases tx1) (tx_ops tx1) \<and> sweep2 acc rs (tx_leases tx1) acc 0 [] (tx_leases tx1)"
        using J0 sweep2_init [OF s1'] by simp
    qed (use skip2 sweep2_skip in blast, use replace sweep2_replace in blast)
    then obtain acc' r tx2 xs where p2: "Tx_ProcessReverse srt (replace_proc rs) (acc, 0) tx1 = Inr ((acc', r), tx2)"
      and J: "J L rs r xs [] (tx_ops tx2)" and s2: "sweep2 acc rs (tx_leases tx1) acc' r xs []"
      and X: "mset (tx_leases tx2) = mset xs" "in_order (tx_leases tx2)"
      and same2: "tx_resource tx2 = tx_resource tx1" "tx_revision tx2 = tx_revision tx1"
      by blast
    from sweep2_final [OF s1' s2] have ok: "acc_ok acc' xs" and r: "r = length rs" by auto
    have ok2: "acc_ok acc' (tx_leases tx2)" using ok X(1) by (metis acc_ok_mset)
    have "Accumulator_Total acc' strat = Accumulator_Total acc strat" for strat
      using s2 by (auto simp: sweep2_def Accumulator_Total_def)
    then have "\<forall>strat. consumption strat (tx_leases tx2) = consumption strat L"
      using acc_ok_Total [OF ok2] sweep1_Total [OF s1] by simp
    with final [OF IL J [unfolded r] X(1)] have "Q (tx_leases tx2) (tx_ops tx2)" by simp
    then show ?thesis
      using p1 p2 rec False ok2 X(2) same1 same2 by (simp add: Refresh_def)
  qed
qed

section \<open>Consequences for Refresh\<close>

lemma Refresh_total:
  assumes "lease_sorter srt"
  shows "\<exists>acc tx'. Refresh srt tx at = Inr (acc, tx') \<and> acc_ok acc (tx_leases tx') \<and>
      in_order (tx_leases tx') \<and> tx_resource tx' = tx_resource tx \<and> tx_revision tx' = tx_revision tx"
  using Refresh_rule [where I = "\<lambda>_ _ _ _ _. True" and J = "\<lambda>_ _ _ _ _ _. True" and Q = "\<lambda>_ _. True", OF assms]
  by auto

text \<open>A property of single leases that demotion and promotion keep survives \<^verbatim>\<open>Refresh\<close>.\<close>

lemma Refresh_all:
  assumes srt: "lease_sorter srt" and R: "Refresh srt tx at = Inr (acc, tx')"
    and all: "\<forall>l \<in> set (tx_leases tx). P l"
    and demote: "\<And>l. P l \<Longrightarrow> ls_Status l = Active \<Longrightarrow> P (demoted l)"
    and promote: "\<And>l. P l \<Longrightarrow> ls_Status l = Queued \<Longrightarrow> P (promoted l)"
  shows "\<forall>l \<in> set (tx_leases tx'). P l"
proof -
  let ?I = "\<lambda>(acc::accumulator) rs pre suf (ops::op_t list).
      (\<forall>l \<in> set (pre @ suf). P l) \<and> (\<forall>l \<in> set rs. P l \<and> ls_Status l = Queued)"
  let ?J = "\<lambda>(L::leases) rs (r::nat) pre suf (ops::op_t list).
      (\<forall>l \<in> set (pre @ suf). P l) \<and> (\<forall>l \<in> set rs. P l \<and> ls_Status l = Queued)"
  have "\<exists>acc tx'. Refresh srt tx at = Inr (acc, tx') \<and> (\<forall>l \<in> set (tx_leases tx'). P l) \<and>
      acc_ok acc (tx_leases tx') \<and> in_order (tx_leases tx') \<and>
      tx_resource tx' = tx_resource tx \<and> tx_revision tx' = tx_revision tx"
    by (rule Refresh_rule [where I = ?I and J = ?J and Q = "\<lambda>ys ops. \<forall>l \<in> set ys. P l", OF srt])
      (auto simp: all dest: verdict_status mset_eq_set intro: demote promote)
  then show ?thesis using R by auto
qed

lemma Refresh_replays:
  assumes srt: "lease_sorter srt" and R: "Refresh srt tx at = Inr (acc, tx')"
    and base: "replays base (tx_ops tx) (tx_leases tx)"
  shows "replays base (tx_ops tx') (tx_leases tx')"
proof -
  let ?I = "\<lambda>(acc::accumulator) rs pre suf ops. replays base ops (pre @ suf) \<and>
      distinct (map ls_Subject rs) \<and> subjects rs \<inter> subjects (pre @ suf) = {}"
  let ?J = "\<lambda>(L::leases) rs r pre suf ops. replays base ops (pre @ suf) \<and>
      distinct (map ls_Subject (drop r rs)) \<and> subjects (drop r rs) \<inter> subjects (pre @ suf) = {}"
  have del: "?I acc rs pre suf (ops @ [delete_op x])" if "?I acc rs pre (x # suf) ops" for acc rs pre x suf ops
    using that by (auto intro: replays.delete)
  have sup: "?I acc (rs @ [x]) pre suf (ops @ [delete_op x])" if "?I acc' rs pre (x # suf) ops" for acc acc' rs pre x suf ops
    using that replays_distinct [of base ops "pre @ x # suf"] by (auto intro: replays.delete)
  have upd: "?I acc rs (pre @ [y]) suf (ops @ [update_op x y])"
    if "?I acc' rs pre (x # suf) ops" "ls_Subject y = ls_Subject x" for acc acc' rs pre x y suf ops
    using that replays_update_same [of base ops pre x suf y] by auto
  have rep: "?J L rs (Suc r) (pre @ [promoted (rs ! r)]) suf (ops @ [update_op x (promoted (rs ! r))])"
    if J: "?J L rs r pre (x # suf) ops" and r: "r < length rs" for L rs r pre x suf ops
  proof -
    have d: "drop r rs = rs ! r # drop (Suc r) rs" using r by (simp add: Cons_nth_drop_Suc)
    from J have "replays base (ops @ [update_op x (promoted (rs ! r))]) (pre @ promoted (rs ! r) # suf)"
      by (intro replays.update) (auto simp: d)
    with J show ?thesis by (auto simp: d)
  qed
  have "\<exists>acc tx'. Refresh srt tx at = Inr (acc, tx') \<and> replays base (tx_ops tx') (tx_leases tx') \<and>
      acc_ok acc (tx_leases tx') \<and> in_order (tx_leases tx') \<and>
      tx_resource tx' = tx_resource tx \<and> tx_revision tx' = tx_revision tx"
  proof (rule Refresh_rule [where I = ?I and J = ?J and Q = "\<lambda>ys ops. replays base ops ys", OF srt], goal_cases)
    case 1
    then show ?case using base by simp
  next
    case (2 acc rs pre x suf ops)
    then show ?case by (intro del) simp
  next
    case (3 acc rs pre x suf ops)
    then show ?case by simp
  next
    case (4 acc rs pre x suf ops)
    then show ?case by simp
  next
    case (5 acc rs pre x suf ops)
    then show ?case by (intro upd) auto
  next
    case (6 acc rs pre x suf ops)
    then show ?case by (intro sup) auto
  next
    case (7 acc rs pre x suf ops)
    then show ?case by (intro upd) auto
  next
    case (8 acc rs xs ys ops)
    then have "set ys = set xs" by (intro mset_eq_set)
    with 8 replays.perm [of base ops xs ys] show ?case by auto
  next
    case (9 L rs r pre x suf ops)
    then show ?case by simp
  next
    case (10 L rs r pre x suf ops)
    then show ?case by (intro rep) auto
  next
    case (11 acc0 rs L ops0 xs ys ops)
    with replays.perm [of base ops xs ys] show ?case by simp
  qed
  then show ?thesis using R by auto
qed

text \<open>
  A lease is current when what its status promises still holds: active and queued leases
  are not expired, released leases not decayed. Outside the released status the release
  time is zero (\<open>clean\<close>), as every lease the server writes has it.
\<close>

definition current :: "time \<Rightarrow> lease \<Rightarrow> bool" where
  "current at l \<longleftrightarrow>
     (ls_Status l = Active \<or> ls_Status l = Queued \<longrightarrow> \<not> Lease_Expired l at) \<and>
     (ls_Status l = Released \<longrightarrow> \<not> Lease_Decayed l at)"

definition clean :: "lease \<Rightarrow> bool" where
  "clean l \<longleftrightarrow> ls_Status l \<noteq> Released \<longrightarrow> ls_Released l = 0"

lemma verdict_current:
  assumes "clean x"
  shows "verdict at acc x = Skip \<Longrightarrow> current at x"
    and "verdict at acc x = Hold \<Longrightarrow> current at x"
    and "verdict at acc x = Demote \<Longrightarrow> current at (demoted x)"
    and "verdict at acc x = Supplant \<Longrightarrow> \<not> Lease_Expired x at"
    and "verdict at acc x = Promote \<Longrightarrow> current at (promoted x)"
  using assms
  by (auto simp: verdict_def current_def clean_def Lease_Decayed_def Lease_DecayTime_def
      Lease_Expired_def Lease_ExpirationTime_def Let_def split: if_splits)

lemma promoted_current: "\<not> Lease_Expired x at \<Longrightarrow> current at (promoted x)"
  by (simp add: current_def Lease_Expired_def Lease_ExpirationTime_def)

lemma Refresh_current:
  assumes srt: "lease_sorter srt" and R: "Refresh srt tx at = Inr (acc, tx')"
    and clean: "\<forall>l \<in> set (tx_leases tx). clean l"
  shows "\<forall>l \<in> set (tx_leases tx'). current at l"
proof -
  let ?I = "\<lambda>(acc::accumulator) rs pre suf (ops::op_t list).
      (\<forall>l \<in> set suf. clean l) \<and> (\<forall>l \<in> set pre. current at l) \<and> (\<forall>l \<in> set rs. \<not> Lease_Expired l at)"
  let ?J = "\<lambda>(L::leases) rs (r::nat) pre suf (ops::op_t list).
      (\<forall>l \<in> set (pre @ suf). current at l) \<and> (\<forall>l \<in> set rs. \<not> Lease_Expired l at)"
  have "\<exists>acc tx'. Refresh srt tx at = Inr (acc, tx') \<and> (\<forall>l \<in> set (tx_leases tx'). current at l) \<and>
      acc_ok acc (tx_leases tx') \<and> in_order (tx_leases tx') \<and>
      tx_resource tx' = tx_resource tx \<and> tx_revision tx' = tx_revision tx"
    by (rule Refresh_rule [where I = ?I and J = ?J and Q = "\<lambda>ys ops. \<forall>l \<in> set ys. current at l", OF srt])
      (auto simp: clean verdict_current promoted_current dest: mset_eq_set)
  then show ?thesis using R by auto
qed

section \<open>Limits\<close>

lemma consumption_mono:
  assumes "\<And>c. c \<in> consumers xs \<Longrightarrow> c \<in> consumers ys"
    and "length (filter Lease_Consumptive xs) \<le> length (filter Lease_Consumptive ys)"
  shows "consumption strat xs \<le> consumption strat ys"
  using assms by (auto simp: consumption_def intro: card_mono)

lemma consumption_drop: "consumption strat (pre @ suf) \<le> consumption strat (pre @ x # suf)"
  by (rule consumption_mono) auto

lemma consumption_snoc_ge: "consumption strat pre \<le> consumption strat (pre @ [x])"
  using consumption_drop [of strat pre "[]" x] by simp

lemma consumption_none:
  "\<forall>y \<in> set suf. \<not> Lease_Consumptive y \<Longrightarrow> consumption strat (pre @ suf) = consumption strat pre"
  by (induction suf arbitrary: pre rule: rev_induct) (auto simp: consumption_def)

lemma consumption_snoc_le: "consumption strat (xs @ [x]) \<le> Suc (consumption strat xs)"
  by (simp add: consumption_def card_insert_if)

lemma consumption_snoc_same:
  "ls_HostUser x \<in> consumers xs \<Longrightarrow> consumption strategy_Consumer (xs @ [x]) = consumption strategy_Consumer xs"
  by (auto simp: consumption_def insert_absorb)

lemma sweep1_active:
  assumes "sweep1 acc rs pre" and "0 < Accumulator_Active acc c"
  shows "c \<in> consumers pre"
proof -
  have "Accumulator_Active acc c = n_status Active c pre + count (hus rs) c"
    and "gm_get (acc_released acc) c + count (hus rs) c = n_status Released c pre"
    using assms(1) by (simp_all add: sweep1_def Accumulator_Active_def)
  with assms(2) show ?thesis unfolding consumers_iff by linarith
qed

text \<open>Activating one more lease keeps consumption within the limit it was checked against.\<close>

lemma CanActivate_consumption:
  assumes "CanActivate strat active (consumption strat pre) lim"
    and "0 < active \<Longrightarrow> c \<in> consumers pre" and "ls_HostUser x = c"
  shows "consumption strat (pre @ [x]) \<le> lim"
proof (cases "strat = strategy_Consumer \<and> 0 < active")
  case True
  with assms show ?thesis
    by (auto simp: consumption_snoc_same CanActivate_def split: if_splits)
next
  case False
  with assms(1) have "consumption strat pre < lim" by (auto simp: CanActivate_def split: if_splits)
  then show ?thesis using consumption_snoc_le [of strat pre x] by linarith
qed

lemma promote_within:
  assumes s: "sweep1 acc rs pre" and v: "verdict at acc x = Promote"
    and none: "\<forall>y \<in> set suf. \<not> Lease_Consumptive y"
  shows "consumption (ls_Strategy x) (pre @ promoted x # suf) \<le> ls_Limit x"
proof -
  have "CanActivate (ls_Strategy x) (Accumulator_Active acc (ls_HostUser x))
      (consumption (ls_Strategy x) pre) (ls_Limit x)"
    using v sweep1_Total [OF s] by (auto simp: verdict_def split: if_splits)
  then have "consumption (ls_Strategy x) (pre @ [promoted x]) \<le> ls_Limit x"
    by (rule CanActivate_consumption) (use sweep1_active [OF s] in auto)
  then show ?thesis using consumption_none [OF none, of _ "pre @ [promoted x]"] by simp
qed

lemma Refresh_within:
  assumes srt: "lease_sorter srt" and R: "Refresh srt tx at = Inr (acc, tx')"
    and ord: "in_order (tx_leases tx)"
    and queued: "\<forall>l \<in> set (tx_leases tx). ls_Status l = Queued \<longrightarrow> ls_Strategy l = strat \<and> ls_Limit l \<le> lim"
  shows "consumption strat (tx_leases tx') \<le> max lim (consumption strat (tx_leases tx))"
proof -
  let ?C = "max lim (consumption strat (tx_leases tx))"
  let ?I = "\<lambda>(acc::accumulator) (rs::leases) pre suf (ops::op_t list). in_order suf \<and>
      (\<forall>l \<in> set suf. ls_Status l = Queued \<longrightarrow> ls_Strategy l = strat \<and> ls_Limit l \<le> lim) \<and>
      consumption strat (pre @ suf) \<le> ?C"
  have drop: "consumption strat (pre @ suf) \<le> ?C" if "consumption strat (pre @ x # suf) \<le> ?C" for pre x suf
    using that consumption_drop by (rule order_trans [rotated])
  have demote: "consumption strat (pre @ demoted x # suf) = consumption strat (pre @ x # suf)"
    if "ls_Status x = Active" for pre x suf
    using that by (simp add: consumption_def)
  have promote: "consumption strat (pre @ promoted x # suf) \<le> ?C"
    if I: "?I acc rs pre (x # suf) ops" and s: "sweep1 acc rs pre" and v: "verdict at acc x = Promote"
    for acc rs pre x suf ops
  proof -
    have x: "ls_Status x = Queued" using v by (rule verdict_status)
    then have "\<forall>y \<in> set suf. \<not> Lease_Consumptive y"
      using I by (intro in_order_consumptive_first [of x]) auto
    from promote_within [OF s v this] show ?thesis using I x by auto
  qed
  have "\<exists>acc tx'. Refresh srt tx at = Inr (acc, tx') \<and> consumption strat (tx_leases tx') \<le> ?C \<and>
      acc_ok acc (tx_leases tx') \<and> in_order (tx_leases tx') \<and>
      tx_resource tx' = tx_resource tx \<and> tx_revision tx' = tx_revision tx"
  proof (rule Refresh_rule [where I = ?I and J = "\<lambda>_ _ _ _ _ _. True"
        and Q = "\<lambda>ys ops. consumption strat ys \<le> ?C", OF srt], goal_cases)
    case 1
    then show ?case using ord queued by simp
  next
    case (2 acc rs pre x suf ops)
    then show ?case using drop [of pre x suf] by (simp add: in_order_Cons)
  next
    case (5 acc rs pre x suf ops)
    then show ?case using demote [of x pre suf] verdict_status(4) by (simp add: in_order_Cons)
  next
    case (6 acc rs pre x suf ops)
    then show ?case using drop [of pre x suf] by (simp add: in_order_Cons)
  next
    case (7 acc rs pre x suf ops)
    then show ?case using promote [OF 7] by (simp add: in_order_Cons)
  qed (auto simp: in_order_Cons)
  then show ?thesis using R by auto
qed

text \<open>
  \<^verbatim>\<open>Refresh\<close> leaves nothing idle: a lease that stays queued faces a resource whose consumption,
  counted by the lease's own strategy, has reached the lease's limit.
\<close>

lemma verdict_Skip_queued:
  "verdict at acc x = Skip \<Longrightarrow> ls_Status x = Queued \<Longrightarrow>
   ls_Limit x \<le> Accumulator_Total acc (ls_Strategy x)"
  by (auto simp: verdict_def CanActivate_def split: if_splits)

lemma Refresh_saturated:
  assumes srt: "lease_sorter srt" and R: "Refresh srt tx at = Inr (acc, tx')"
  shows "\<forall>l \<in> set (tx_leases tx'). ls_Status l = Queued \<longrightarrow>
      ls_Limit l \<le> consumption (ls_Strategy l) (tx_leases tx')"
proof -
  let ?W = "\<lambda>xs C. \<forall>l \<in> set xs. ls_Status l = Queued \<longrightarrow> ls_Limit l \<le> consumption (ls_Strategy l) C"
  let ?I = "\<lambda>(acc::accumulator) (rs::leases) pre suf (ops::op_t list). ?W pre pre"
  let ?J = "\<lambda>L (rs::leases) (r::nat) pre suf (ops::op_t list). ?W (pre @ suf) L"
  have grow: "?W pre (pre @ [y])" if "?W pre pre" for pre y
    using that consumption_snoc_ge by (blast intro: order_trans)
  have "\<exists>acc tx'. Refresh srt tx at = Inr (acc, tx') \<and> ?W (tx_leases tx') (tx_leases tx') \<and>
      acc_ok acc (tx_leases tx') \<and> in_order (tx_leases tx') \<and>
      tx_resource tx' = tx_resource tx \<and> tx_revision tx' = tx_revision tx"
  proof (rule Refresh_rule [where I = ?I and J = ?J and Q = "\<lambda>ys ops. ?W ys ys", OF srt], goal_cases)
    case (3 acc rs pre x suf ops)
    have "ls_Limit x \<le> consumption (ls_Strategy x) (pre @ [x])" if "ls_Status x = Queued"
      using verdict_Skip_queued [OF 3(3) that] sweep1_Total [OF 3(2)]
        consumption_snoc_ge [of "ls_Strategy x" pre x] by simp
    then show ?case using grow [OF 3(1), of x] by auto
  next
    case (4 acc rs pre x suf ops)
    from verdict_status(3) [OF 4(3)] show ?case using grow [OF 4(1), of x] by auto
  next
    case (5 acc rs pre x suf ops)
    then show ?case using grow [OF 5(1), of "demoted x"] by auto
  next
    case (7 acc rs pre x suf ops)
    then show ?case using grow [OF 7(1), of "promoted x"] by auto
  next
    case (8 acc rs xs ys ops)
    then show ?case using mset_eq_set [OF 8(2)] by simp
  next
    case (11 acc0 rs L ops0 xs ys ops)
    then show ?case using mset_eq_set [OF 11(3)] by simp
  qed auto
  then show ?thesis using R by auto
qed

end
