(* ===== verification/Policy.thy ===== *)
theory Policy
  imports Lease
begin

text \<open>
  Package \<^verbatim>\<open>policy\<close> (\<^verbatim>\<open>src/policy/\<close>): criteria, policies, policy sets, and the byte stream
  that \<^verbatim>\<open>Policy.Hash\<close> feeds to SHA3-224. Regular expressions and the Unicode tables of
  \<^verbatim>\<open>strings.ToLower\<close> are parameters (the record \<open>golib\<close>); the hash function is a
  parameter of \<open>PolicySet_Diff\<close>. A Go map is ranged over in an arbitrary order, so the
  encoding takes the order in which the properties were visited as an argument.
\<close>

record golib =
  gl_unicodeToLower :: "string \<Rightarrow> string"
  gl_regexp :: "string \<Rightarrow> (string \<Rightarrow> bool) option"

definition ascii_lower :: "char \<Rightarrow> char" where
  "ascii_lower c = (if 65 \<le> (of_char c :: nat) \<and> (of_char c :: nat) \<le> 90
                    then char_of ((of_char c :: nat) + 32) else c)"

definition is_ascii :: "string \<Rightarrow> bool" where
  "is_ascii s \<longleftrightarrow> list_all (\<lambda>c. (of_char c :: nat) < 128) s"

definition strings_ToLower :: "golib \<Rightarrow> string \<Rightarrow> string" where
  "strings_ToLower lib s = (if is_ascii s then map ascii_lower s else gl_unicodeToLower lib s)"

section \<open>Criteria\<close>

record criterion =
  cr_Key :: string
  cr_Comparison :: string
  cr_Value :: string

definition ComparisonExact :: string where "ComparisonExact = ''exact''"
definition ComparisonIgnoreCase :: string where "ComparisonIgnoreCase = ''ignorecase''"
definition ComparisonRegex :: string where "ComparisonRegex = ''regex''"

definition Criterion_Match :: "golib \<Rightarrow> criterion \<Rightarrow> properties \<Rightarrow> bool" where
  "Criterion_Match lib c props =
     (let v = props_get props (cr_Key c) in
      if cr_Comparison c = ComparisonExact then cr_Value c = v
      else if cr_Comparison c = ComparisonIgnoreCase
      then strings_ToLower lib (cr_Value c) = strings_ToLower lib v
      else if cr_Comparison c = ComparisonRegex
      then (case gl_regexp lib (cr_Value c) of None \<Rightarrow> False | Some re \<Rightarrow> re v)
      else False)"

type_synonym criteria = "criterion list"

definition Criteria_Match :: "golib \<Rightarrow> criteria \<Rightarrow> properties \<Rightarrow> bool" where
  "Criteria_Match lib c props =
     (if length c = 0 then False else list_all (\<lambda>criterion. Criterion_Match lib criterion props) c)"

section \<open>Policies\<close>

definition DefaultLimit :: uint where "DefaultLimit = 2 ^ 64 - 1"
definition DefaultDuration :: duration where "DefaultDuration = 15 * Minute"
definition DefaultStrategy :: strategy where "DefaultStrategy = strategy_Instance"

record policy =
  pol_Resource :: string
  pol_Criteria :: criteria
  pol_Strategy :: strategy
  pol_Limit :: uint
  pol_Duration :: duration
  pol_Decay :: duration
  pol_Refresh :: refresh_t
  pol_Properties :: properties

definition Policy_New :: "string \<Rightarrow> strategy \<Rightarrow> uint \<Rightarrow> duration \<Rightarrow> criteria \<Rightarrow> policy" where
  "Policy_New res strat limit dur crit =
     \<lparr>pol_Resource = res, pol_Criteria = crit, pol_Strategy = strat, pol_Limit = limit,
      pol_Duration = dur, pol_Decay = 0, pol_Refresh = zero_refresh, pol_Properties = Map.empty\<rparr>"

definition Policy_Match :: "golib \<Rightarrow> policy \<Rightarrow> properties \<Rightarrow> bool" where
  "Policy_Match lib p props = Criteria_Match lib (pol_Criteria p) props"

section \<open>The byte stream of Policy.Hash\<close>

definition WriteInt :: "int \<Rightarrow> string" where
  "WriteInt v = map (\<lambda>i. char_of (nat ((v mod 2 ^ 64) div 256 ^ i mod 256))) [0..<8]"

definition WriteDuration :: "duration \<Rightarrow> string" where
  "WriteDuration v = map (\<lambda>i. char_of (nat ((v mod 2 ^ 64) div 256 ^ i mod 256))) [0..<8]"

definition WriteString :: "string \<Rightarrow> string" where
  "WriteString s = WriteInt (int (length s)) @ s"

definition Policy_Hash_bytes :: "(string \<times> string) list \<Rightarrow> policy \<Rightarrow> string" where
  "Policy_Hash_bytes order p =
     WriteString (pol_Resource p) @
     WriteInt (int (length (pol_Criteria p))) @
     concat (map (\<lambda>c. WriteString (cr_Key c) @ WriteString (cr_Comparison c) @
                      WriteString (cr_Value c)) (pol_Criteria p)) @
     WriteString (pol_Strategy p) @
     WriteInt (int (pol_Limit p)) @
     WriteDuration (pol_Duration p) @
     WriteDuration (pol_Decay p) @
     WriteDuration (rf_Active (pol_Refresh p)) @
     WriteDuration (rf_Queued (pol_Refresh p)) @
     WriteInt (int (length order)) @
     concat (map (\<lambda>(key, v). WriteString key @ WriteString v) order)"

text \<open>An order in which Go may range over the property map.\<close>

definition map_order :: "properties \<Rightarrow> (string \<times> string) list \<Rightarrow> bool" where
  "map_order m order \<longleftrightarrow> distinct (map fst order) \<and> map_of order = m"

section \<open>Policy sets\<close>

type_synonym policies = "policy list"

definition PolicySet_Diff ::
  "(policy \<Rightarrow> 'h) \<Rightarrow> policies option \<Rightarrow> policies option \<Rightarrow> policies option \<times> policies option" where
  "PolicySet_Diff hash s nxt =
     (case s of
        None \<Rightarrow> (nxt, None)
      | Some s' \<Rightarrow> (case nxt of
          None \<Rightarrow> (None, s)
        | Some nxt' \<Rightarrow>
            (let a = foldl (\<lambda>m p. gm_put m (hash p) p) [] s';
                 b = foldl (\<lambda>m p. gm_put m (hash p) p) [] nxt';
                 deletions = map snd (filter (\<lambda>(key, pol). map_of b key = None) a);
                 additions = map snd (filter (\<lambda>(key, pol). map_of a key = None) b)
             in (if additions = [] then None else Some additions,
                 if deletions = [] then None else Some deletions))))"

definition PolicySet_MatchResource :: "policies \<Rightarrow> string \<Rightarrow> policies" where
  "PolicySet_MatchResource s res = filter (\<lambda>p. pol_Resource p = res) s"

definition PolicySet_Match :: "golib \<Rightarrow> policies \<Rightarrow> properties \<Rightarrow> policies" where
  "PolicySet_Match lib s props = filter (\<lambda>p. Policy_Match lib p props) s"

fun PolicySet_Strategy :: "policies \<Rightarrow> strategy" where
  "PolicySet_Strategy [] = DefaultStrategy"
| "PolicySet_Strategy (p # s) =
     (if pol_Strategy p = strategy_Empty then PolicySet_Strategy s else pol_Strategy p)"

definition PolicySet_Limit :: "policies \<Rightarrow> uint" where
  "PolicySet_Limit s =
     (case s of [] \<Rightarrow> DefaultLimit
      | p # s' \<Rightarrow> foldl (\<lambda>limit q. if pol_Limit q < limit then pol_Limit q else limit) (pol_Limit p) s')"

definition PolicySet_Duration :: "policies \<Rightarrow> duration" where
  "PolicySet_Duration s =
     (case s of [] \<Rightarrow> DefaultDuration
      | p # s' \<Rightarrow> foldl (\<lambda>d q. if pol_Duration q < d then pol_Duration q else d) (pol_Duration p) s')"

definition PolicySet_Decay :: "policies \<Rightarrow> duration" where
  "PolicySet_Decay s =
     (case s of [] \<Rightarrow> 0
      | p # s' \<Rightarrow> foldl (\<lambda>d q. if pol_Decay q > d then pol_Decay q else d) (pol_Decay p) s')"

fun PolicySet_Refresh_loop :: "refresh_t \<Rightarrow> policies \<Rightarrow> refresh_t" where
  "PolicySet_Refresh_loop refresh [] = refresh"
| "PolicySet_Refresh_loop refresh (p # s) =
     (let refresh = (if rf_Active refresh = 0 \<and> rf_Active (pol_Refresh p) \<noteq> 0
                     then refresh\<lparr>rf_Active := rf_Active (pol_Refresh p)\<rparr> else refresh);
          refresh = (if rf_Queued refresh = 0 \<and> rf_Queued (pol_Refresh p) \<noteq> 0
                     then refresh\<lparr>rf_Queued := rf_Queued (pol_Refresh p)\<rparr> else refresh)
      in if rf_Active refresh \<noteq> 0 \<and> rf_Queued refresh \<noteq> 0 then refresh
         else PolicySet_Refresh_loop refresh s)"

definition PolicySet_Refresh :: "policies \<Rightarrow> refresh_t" where
  "PolicySet_Refresh s = PolicySet_Refresh_loop zero_refresh s"

fun PolicySet_Resource :: "policies \<Rightarrow> string" where
  "PolicySet_Resource [] = ''''"
| "PolicySet_Resource (p # s) =
     (if pol_Resource p \<noteq> '''' then pol_Resource p else PolicySet_Resource s)"

fun Resources_loop :: "(string \<Rightarrow> bool) \<Rightarrow> string list \<Rightarrow> string list \<Rightarrow> string list" where
  "Resources_loop seen out [] = out"
| "Resources_loop seen out (r # rs) =
     Resources_loop seen (if r \<noteq> '''' \<and> \<not> seen r then out @ [r] else out) rs"

definition PolicySet_Resources :: "policies \<Rightarrow> string list" where
  "PolicySet_Resources s = Resources_loop (\<lambda>_. False) [] (map pol_Resource s)"

definition PolicySet_Properties :: "policies \<Rightarrow> properties" where
  "PolicySet_Properties s = MergeProperties (map pol_Properties s)"

section \<open>Facts about policy sets\<close>

lemma PolicySet_Strategy_not_Empty: "PolicySet_Strategy s \<noteq> strategy_Empty"
  by (induction s) (simp_all add: DefaultStrategy_def)

lemma PolicySet_Strategy_valid:
  "\<forall>p \<in> set s. strategy_Valid (pol_Strategy p) \<Longrightarrow>
   PolicySet_Strategy s = strategy_Instance \<or> PolicySet_Strategy s = strategy_Consumer"
  by (induction s) (auto simp: DefaultStrategy_def strategy_Valid_def)

lemma foldl_min_le:
  fixes f :: "'a \<Rightarrow> 'b::linorder"
  shows "foldl (\<lambda>m q. if f q < m then f q else m) m xs \<le> m \<and>
   (\<forall>q \<in> set xs. foldl (\<lambda>m q. if f q < m then f q else m) m xs \<le> f q) \<and>
   (foldl (\<lambda>m q. if f q < m then f q else m) m xs \<in> insert m (f ` set xs))"
proof (induction xs arbitrary: m)
  case Nil
  show ?case by simp
next
  case (Cons x xs)
  show ?case
  proof (cases "f x < m")
    case True
    with Cons.IH [of "f x"] show ?thesis by auto
  next
    case False
    with Cons.IH [of m] show ?thesis by auto
  qed
qed

lemma PolicySet_Limit_Min: "s \<noteq> [] \<Longrightarrow> PolicySet_Limit s = Min (pol_Limit ` set s)"
  using foldl_min_le [of pol_Limit]
  by (cases s) (auto simp: PolicySet_Limit_def intro!: Min_eqI [symmetric])

lemma PolicySet_Duration_Min: "s \<noteq> [] \<Longrightarrow> PolicySet_Duration s = Min (pol_Duration ` set s)"
  using foldl_min_le [of pol_Duration]
  by (cases s) (auto simp: PolicySet_Duration_def intro!: Min_eqI [symmetric])

lemma Resources_loop_filter: "Resources_loop (\<lambda>_. False) out rs = out @ filter (\<lambda>r. r \<noteq> '''') rs"
  by (induction rs arbitrary: out) auto

end
