(* ===== verification/Provider.thy ===== *)
theory Provider
  imports LeaseTx
begin

text \<open>
  The interface \<^verbatim>\<open>lease.Provider\<close> (\<^verbatim>\<open>src/lease/provider.go\<close>) as a record of functions
  over a store \<open>'p\<close>, and its contract. \<open>lease_store\<close> is what every provider promises:
  \<^verbatim>\<open>LeaseView\<close> returns the revision and the leases of a resource; \<^verbatim>\<open>LeaseCommit\<close> refuses a
  transaction built on another revision, and a commit that reports success leaves exactly the
  leases of the transaction (up to the order of equal leases), moves the revision on by one
  and touches the leases of no other resource (a provider may share one revision among them);
  one that reports an error changes nothing. \<open>reliable_store\<close> adds that a commit on the
  current revision succeeds. The theories of the providers interpret them.
\<close>

record 'p provider =
  pv_LeaseResources :: "'p \<Rightarrow> 'p \<times> (goerror + string list)"
  pv_LeaseView :: "'p \<Rightarrow> string \<Rightarrow> 'p \<times> (goerror + (64 word \<times> leases))"
  pv_LeaseCommit :: "'p \<Rightarrow> tx \<Rightarrow> 'p \<times> goerror option"

definition conflict_error :: goerror where
  "conflict_error = ''Unable to commit lease transaction due to opportunistic lock conflict''"

locale lease_store =
  fixes prov :: "'p provider" and invar :: "'p \<Rightarrow> bool"
    and content :: "'p \<Rightarrow> string \<Rightarrow> leases" and revision :: "'p \<Rightarrow> string \<Rightarrow> 64 word"
  assumes resources: "invar p \<Longrightarrow> pv_LeaseResources prov p = (p', names) \<Longrightarrow>
      invar p' \<and> content p' = content p \<and> revision p' = revision p"
    and view: "invar p \<Longrightarrow> pv_LeaseView prov p res = (p', r) \<Longrightarrow>
      invar p' \<and> content p' = content p \<and> revision p' = revision p \<and>
      (\<forall>rv xs. r = Inr (rv, xs) \<longrightarrow> rv = revision p res \<and> xs = content p res)"
    and commit_empty: "invar p \<Longrightarrow> tx_ops tx = [] \<Longrightarrow> pv_LeaseCommit prov p tx = (p, None)"
    and commit_conflict: "invar p \<Longrightarrow> tx_ops tx \<noteq> [] \<Longrightarrow> tx_revision tx \<noteq> revision p (tx_resource tx) \<Longrightarrow>
      \<exists>e. snd (pv_LeaseCommit prov p tx) = Some e"
    and commit_error: "invar p \<Longrightarrow> pv_LeaseCommit prov p tx = (p', Some e) \<Longrightarrow>
      invar p' \<and> content p' = content p \<and> revision p' = revision p"
    and commit_ok: "invar p \<Longrightarrow> pv_LeaseCommit prov p tx = (p', None) \<Longrightarrow> tx_ops tx \<noteq> [] \<Longrightarrow>
      replays (content p (tx_resource tx)) (tx_ops tx) (tx_leases tx) \<Longrightarrow> in_order (tx_leases tx) \<Longrightarrow>
      invar p' \<and> mset (content p' (tx_resource tx)) = mset (tx_leases tx) \<and>
      in_order (content p' (tx_resource tx)) \<and>
      revision p' (tx_resource tx) = revision p (tx_resource tx) + 1 \<and>
      (\<forall>res. res \<noteq> tx_resource tx \<longrightarrow> content p' res = content p res \<and>
         (revision p' res = revision p res \<or> revision p' res = revision p res + 1))"
begin

lemma commit_current:
  "invar p \<Longrightarrow> pv_LeaseCommit prov p tx = (p', None) \<Longrightarrow> tx_ops tx \<noteq> [] \<Longrightarrow>
   tx_revision tx = revision p (tx_resource tx)"
  using commit_conflict [of p tx] by fastforce

text \<open>
  The transfer rule for clients: a property of the stored leases of a resource that only
  depends on their multiset, and that holds of the transaction's result, holds of the store
  after any commit, successful or not.
\<close>

lemma commit_transfer:
  assumes "invar p" and "pv_LeaseCommit prov p tx = (p', r)"
    and old: "\<And>res. P res (content p res)"
    and new: "tx_ops tx \<noteq> [] \<Longrightarrow> tx_revision tx = revision p (tx_resource tx) \<Longrightarrow>
      replays (content p (tx_resource tx)) (tx_ops tx) (tx_leases tx) \<and> in_order (tx_leases tx) \<and>
      P (tx_resource tx) (tx_leases tx)"
    and mset: "\<And>res xs ys. P res xs \<Longrightarrow> mset ys = mset xs \<Longrightarrow> in_order ys \<Longrightarrow> P res ys"
  shows "invar p' \<and> (\<forall>res. P res (content p' res))"
proof (cases r)
  case (Some e)
  with assms(2) commit_error [OF assms(1)] old show ?thesis by simp
next
  case None
  show ?thesis
  proof (cases "tx_ops tx = []")
    case True
    with assms(2) commit_empty [OF assms(1) True] old assms(1) show ?thesis by simp
  next
    case False
    have c: "pv_LeaseCommit prov p tx = (p', None)" using assms(2) None by simp
    from new [OF False commit_current [OF assms(1) c False]]
    have n: "replays (content p (tx_resource tx)) (tx_ops tx) (tx_leases tx)"
      "in_order (tx_leases tx)" "P (tx_resource tx) (tx_leases tx)" by auto
    from commit_ok [OF assms(1) c False n(1,2)] mset [OF n(3)] old
    show ?thesis by metis
  qed
qed

end

locale reliable_store = lease_store +
  assumes view_reliable: "invar p \<Longrightarrow>
      \<exists>p'. pv_LeaseView prov p res = (p', Inr (revision p res, content p res))"
    and commit_reliable: "invar p \<Longrightarrow> tx_revision tx = revision p (tx_resource tx) \<Longrightarrow>
      \<exists>p'. pv_LeaseCommit prov p tx = (p', None)"

end
