(* ===== verification/Server.thy ===== *)
theory Server
  imports LeaseUtil Policy Provider
begin

text \<open>
  The guardian server, \<^verbatim>\<open>src/guardian/server.go\<close>, with the messages of
  \<^verbatim>\<open>src/guardian/transport/transport.go\<close>. The server keeps no state of its own between
  requests: everything it changes is in the lease provider's store \<open>'p\<close>, which every
  operation takes and returns. Where the code reads \<^verbatim>\<open>time.Now()\<close> the model takes the time
  (\<open>clock n\<close> in attempt \<open>n\<close>). Other requests run concurrently: between the view and the
  commit of attempt \<open>n\<close> they may change the store, which is the function \<open>env n\<close>. The
  events published to stream listeners are returned as a list of snapshots. Log output is not
  modelled; the arguments of the log line that summarises statistics are, because computing
  them can panic.
\<close>

section \<open>Messages\<close>

record request =
  rq_Subject :: subject_t
  rq_Properties :: properties

record snapshot =
  sn_Resource :: string
  sn_Revision :: "64 word"
  sn_Leases :: leases
  sn_Stats :: stats

record acquireResponse =
  ar_Request :: request
  ar_Lease :: lease
  ar_Leases :: leases

record releaseResponse =
  rr_Request :: request
  rr_Success :: bool

datatype body =
    NoBody
  | ErrorText string
  | HealthBody bool
  | PoliciesText policies
  | PoliciesBody policies
  | LeasesBody "snapshot list"
  | AcquireBody acquireResponse
  | ReleaseBody releaseResponse

record response =
  rs_Code :: nat
  rs_Body :: body

definition StatusOK :: nat where "StatusOK = 200"
definition StatusNoContent :: nat where "StatusNoContent = 204"
definition StatusBadRequest :: nat where "StatusBadRequest = 400"
definition StatusInternalServerError :: nat where "StatusInternalServerError = 500"

definition http_Error :: "string \<Rightarrow> nat \<Rightarrow> response" where
  "http_Error msg code = \<lparr>rs_Code = code, rs_Body = ErrorText msg\<rparr>"

text \<open>The configuration: \<open>sc_marshal\<close> tells whether \<^verbatim>\<open>json.Marshal\<close> succeeds on a body.\<close>

record 'p server =
  sc_LeaseProvider :: "'p provider"
  sc_Policies :: "goerror + policies"
  sc_lib :: golib
  sc_sort :: sorter
  sc_marshal :: "body \<Rightarrow> bool"

section \<open>Requests\<close>

type_synonym form = "(string \<times> string list) list"

definition empty_request :: request where
  "empty_request = \<lparr>rq_Subject = zero_subject, rq_Properties = Map.empty\<rparr>"

definition set_field :: "request \<Rightarrow> string \<Rightarrow> string \<Rightarrow> request" where
  "set_field req k v =
     (let s = rq_Subject req; i = sub_Instance s in
      if k = ''resource'' then req\<lparr>rq_Subject := s\<lparr>sub_Resource := v\<rparr>\<rparr>
      else if k = ''host'' then req\<lparr>rq_Subject := s\<lparr>sub_Instance := i\<lparr>inst_Host := v\<rparr>\<rparr>\<rparr>
      else if k = ''user'' then req\<lparr>rq_Subject := s\<lparr>sub_Instance := i\<lparr>inst_User := v\<rparr>\<rparr>\<rparr>
      else if k = ''instance'' then req\<lparr>rq_Subject := s\<lparr>sub_Instance := i\<lparr>inst_ID := v\<rparr>\<rparr>\<rparr>
      else req\<lparr>rq_Properties := (rq_Properties req)(k \<mapsto> v)\<rparr>)"

fun parseForm :: "request \<Rightarrow> form \<Rightarrow> request" where
  "parseForm req [] = req"
| "parseForm req ((k, values) # rest) =
     parseForm (case values of [] \<Rightarrow> req | v # _ \<Rightarrow> set_field req k v) rest"

definition parseRequest :: "goerror + form \<Rightarrow> goerror + request" where
  "parseRequest r = (case r of Inl e \<Rightarrow> Inl e | Inr form \<Rightarrow> Inr (parseForm empty_request form))"

definition initRequest :: "'p server \<Rightarrow> goerror + form \<Rightarrow> goerror + (request \<times> policies)" where
  "initRequest s r =
     (case parseRequest r of
        Inl e \<Rightarrow> Inl (''unable to parse request: '' @ e)
      | Inr req \<Rightarrow>
          if Subject_HostUser (rq_Subject req) = ''''
          then Inl ''consumer not specified or determinable''
          else (case sc_Policies s of
              Inl e \<Rightarrow> Inl (''unable to retrieve policies: '' @ e)
            | Inr pols \<Rightarrow> Inr (req, PolicySet_Match (sc_lib s) pols (rq_Properties req))))"

record summary =
  sm_consumed :: uint
  sm_limit :: "uint option"
  sm_active :: uint
  sm_released :: uint
  sm_queued :: uint

definition statsSummary :: "uint \<Rightarrow> stats \<Rightarrow> strategy \<Rightarrow> summary go" where
  "statsSummary limit stats strat =
     go_bind (Stats_Consumed stats strat) (\<lambda>consumed.
     go_bind (Stats_Active stats strat) (\<lambda>active.
     go_bind (Stats_Released stats strat) (\<lambda>released.
     go_bind (Stats_Queued stats strat) (\<lambda>queued.
       Inr \<lparr>sm_consumed = consumed,
            sm_limit = (if limit = DefaultLimit then None else Some limit),
            sm_active = active, sm_released = released, sm_queued = queued\<rparr>))))"

section \<open>Acquisition\<close>

definition refresh_override :: "lease \<Rightarrow> lease" where
  "refresh_override l =
     (let l = (if rf_Active (ls_Refresh l) \<noteq> 0 \<and> ls_Duration l \<le> rf_Active (ls_Refresh l)
               then l\<lparr>ls_Refresh := (ls_Refresh l)\<lparr>rf_Active := 0\<rparr>\<rparr> else l)
      in if rf_Queued (ls_Refresh l) \<noteq> 0 \<and> ls_Duration l \<le> rf_Queued (ls_Refresh l)
         then l\<lparr>ls_Refresh := (ls_Refresh l)\<lparr>rf_Queued := 0\<rparr>\<rparr> else l)"

definition new_lease :: "subject_t \<Rightarrow> properties \<Rightarrow> policies \<Rightarrow> time \<Rightarrow> lease" where
  "new_lease subject props pols now =
     refresh_override \<lparr>ls_Subject = subject, ls_Properties = props, ls_Status = '''',
       ls_Started = now, ls_Renewed = now, ls_Released = 0,
       ls_Strategy = PolicySet_Strategy pols, ls_Limit = PolicySet_Limit pols,
       ls_Duration = PolicySet_Duration pols, ls_Decay = PolicySet_Decay pols,
       ls_Refresh = PolicySet_Refresh pols\<rparr>"

definition released_count_panic :: panic where
  "released_count_panic = Panic ''server: acquireHandler: accumulator returned a different count for relased leases than the transaction''"

definition acquire_body ::
  "sorter \<Rightarrow> subject_t \<Rightarrow> properties \<Rightarrow> policies \<Rightarrow> time \<Rightarrow> 64 word \<Rightarrow> leases \<Rightarrow> (lease \<times> tx) go" where
  "acquire_body srt subject props pols now revision leases =
     (let strat = PolicySet_Strategy pols; limit = PolicySet_Limit pols;
          ls = new_lease subject props pols now;
          inst = sub_Instance subject;
          tx = NewTx (sub_Resource subject) revision leases in
      go_bind (Refresh srt tx now) (\<lambda>(acc, tx).
        let consumed = Accumulator_Total acc strat;
            released = Accumulator_Released acc (Subject_HostUser subject) in
        case Tx_Instance tx inst of
          Some existing \<Rightarrow>
            if ls_Status existing = Released then
              (let ls = ls\<lparr>ls_Status := (if consumed \<le> limit then Active else Queued)\<rparr>
               in go_bind (Tx_Update srt (ls_Instance existing) ls tx) (\<lambda>tx. Inr (ls, tx)))
            else
              (let ls = ls\<lparr>ls_Status := ls_Status existing, ls_Started := ls_Started existing\<rparr>
               in go_bind (Tx_Update srt (ls_Instance existing) ls tx) (\<lambda>tx. Inr (ls, tx)))
        | None \<Rightarrow>
            if released > 0 \<and> consumed \<le> limit then
              (let replaceable = Set_Status (Tx_HostUser tx (inst_Host inst) (inst_User inst)) Released in
               if length replaceable \<noteq> released then Inl released_count_panic
               else
                 let replaced = replaceable ! (released - 1); ls = ls\<lparr>ls_Status := Active\<rparr>
                 in go_bind (Tx_Update srt (ls_Instance replaced) ls tx) (\<lambda>tx. Inr (ls, tx)))
            else
              (let ls = ls\<lparr>ls_Status :=
                       (if CanActivate strat (Accumulator_Active acc (Subject_HostUser subject)) consumed limit
                        then Active else Queued)\<rparr>
               in Inr (ls, Tx_Create srt ls tx))))"

definition tx_snapshot :: "tx \<Rightarrow> snapshot" where
  "tx_snapshot tx = \<lparr>sn_Resource = tx_resource tx, sn_Revision = tx_revision tx,
     sn_Leases = tx_leases tx, sn_Stats = Set_Stats (tx_leases tx)\<rparr>"

text \<open>
  The attempt loop that acquisition and release share: at most \<open>n\<close> more attempts, each a view,
  a transaction built from it (\<open>body\<close>, which may panic) and a commit unless the transaction
  is empty. \<open>None\<close> stands for the zero values the variables have before the first transaction.
\<close>

fun attempt_loop ::
  "'p provider \<Rightarrow> (nat \<Rightarrow> 'p \<Rightarrow> 'p) \<Rightarrow> (nat \<Rightarrow> time) \<Rightarrow> string \<Rightarrow>
   (time \<Rightarrow> 64 word \<Rightarrow> leases \<Rightarrow> ('a \<times> tx) go) \<Rightarrow> nat \<Rightarrow> 'p \<Rightarrow> goerror option \<Rightarrow> ('a \<times> snapshot) option \<Rightarrow>
   ('p \<times> goerror option \<times> ('a \<times> snapshot) option) go" where
  "attempt_loop prov env clock res body 0 p err out = Inr (p, err, out)"
| "attempt_loop prov env clock res body (Suc n) p err out =
     (case pv_LeaseView prov p res of
        (p, Inl e) \<Rightarrow> attempt_loop prov env clock res body n p (Some e) out
      | (p, Inr (revision, leases)) \<Rightarrow>
          go_bind (body (clock (4 - n)) revision leases) (\<lambda>(a, tx).
            let out = Some (a, tx_snapshot tx) in
            if Tx_Empty tx then Inr (p, None, out)
            else
              (case pv_LeaseCommit prov (env (4 - n) p) tx of
                 (p, None) \<Rightarrow> Inr (p, None, out)
               | (p, Some e) \<Rightarrow> attempt_loop prov env clock res body n p (Some e) out)))"

definition acquire ::
  "'p server \<Rightarrow> (nat \<Rightarrow> 'p \<Rightarrow> 'p) \<Rightarrow> (nat \<Rightarrow> time) \<Rightarrow> subject_t \<Rightarrow> properties \<Rightarrow> policies \<Rightarrow> 'p \<Rightarrow>
   ('p \<times> snapshot list \<times> (goerror + (lease \<times> snapshot))) go" where
  "acquire s env clock subject props pols p =
     go_bind (attempt_loop (sc_LeaseProvider s) env clock (sub_Resource subject)
                (acquire_body (sc_sort s) subject props pols) 5 p None None)
       (\<lambda>(p, err, out). case (err, out) of
          (Some e, _) \<Rightarrow> Inr (p, [], Inl e)
        | (None, Some (ls, snap)) \<Rightarrow>
            go_bind (statsSummary (PolicySet_Limit pols) (sn_Stats snap) (PolicySet_Strategy pols))
              (\<lambda>_. Inr (p, [snap], Inr (ls, snap)))
        | (None, None) \<Rightarrow> Inr (p, [], Inl ''unreachable''))"

section \<open>Release\<close>

definition release_body ::
  "sorter \<Rightarrow> subject_t \<Rightarrow> time \<Rightarrow> 64 word \<Rightarrow> leases \<Rightarrow> (lease option \<times> tx) go" where
  "release_body srt subject now revision leases =
     go_bind (Refresh srt (NewTx (sub_Resource subject) revision leases) now) (\<lambda>(acc, tx).
       let ls = Tx_Instance tx (sub_Instance subject) in
       go_bind (Tx_Release srt (sub_Instance subject) now tx) (\<lambda>tx.
       go_bind (Refresh srt tx now) (\<lambda>(acc, tx). Inr (ls, tx))))"

definition release ::
  "'p server \<Rightarrow> (nat \<Rightarrow> 'p \<Rightarrow> 'p) \<Rightarrow> (nat \<Rightarrow> time) \<Rightarrow> subject_t \<Rightarrow> policies \<Rightarrow> 'p \<Rightarrow>
   ('p \<times> snapshot list \<times> goerror option) go" where
  "release s env clock subject pols p =
     go_bind (attempt_loop (sc_LeaseProvider s) env clock (sub_Resource subject)
                (release_body (sc_sort s) subject) 5 p None None)
       (\<lambda>(p, err, out). case (err, out) of
          (Some e, _) \<Rightarrow> Inr (p, [], Some e)
        | (None, Some (ls, snap)) \<Rightarrow>
            go_bind (statsSummary (PolicySet_Limit pols) (sn_Stats snap) (PolicySet_Strategy pols))
              (\<lambda>_. Inr (p, [snap], None))
        | (None, None) \<Rightarrow> Inr (p, [], Some ''unreachable''))"

section \<open>Surveys of the stored leases\<close>

definition refresh_tx :: "sorter \<Rightarrow> string \<Rightarrow> time \<Rightarrow> 64 word \<Rightarrow> leases \<Rightarrow> (unit \<times> tx) go" where
  "refresh_tx srt res now revision leases =
     go_bind (Refresh srt (NewTx res revision leases) now) (\<lambda>(acc, tx). Inr ((), tx))"

definition collectResources :: "'p server \<Rightarrow> 'p \<Rightarrow> 'p \<times> (goerror + string list)" where
  "collectResources s p =
     (case sc_Policies s of
        Inl e \<Rightarrow> (p, Inl (''policy retrieval failed: '' @ e))
      | Inr pols \<Rightarrow>
          (case pv_LeaseResources (sc_LeaseProvider s) p of
             (p, Inl e) \<Rightarrow> (p, Inl (''resource list retrieval failed: '' @ e))
           | (p, Inr leaseResources) \<Rightarrow>
               (let seen = (\<lambda>_. False);
                    resources = Resources_loop seen [] (map pol_Resource pols)
                in (p, Inr (Resources_loop seen resources leaseResources)))))"

definition collectSnapshot ::
  "'p server \<Rightarrow> ('p \<Rightarrow> 'p) \<Rightarrow> time \<Rightarrow> string \<Rightarrow> 'p \<Rightarrow> ('p \<times> (goerror + snapshot)) go" where
  "collectSnapshot s env now res p =
     (case pv_LeaseView (sc_LeaseProvider s) p res of
        (p, Inl e) \<Rightarrow> Inr (p, Inl e)
      | (p, Inr (revision, leases)) \<Rightarrow>
          go_bind (refresh_tx (sc_sort s) res now revision leases) (\<lambda>(u, tx).
            let p = (if \<not> Tx_Empty tx then fst (pv_LeaseCommit (sc_LeaseProvider s) (env p) tx) else p)
            in Inr (p, Inr \<lparr>sn_Resource = res, sn_Revision = revision, sn_Leases = tx_leases tx,
                            sn_Stats = Set_Stats (tx_leases tx)\<rparr>)))"

fun collectSnapshots_loop ::
  "'p server \<Rightarrow> (string \<Rightarrow> 'p \<Rightarrow> 'p) \<Rightarrow> (string \<Rightarrow> time) \<Rightarrow> string list \<Rightarrow> 'p \<Rightarrow> snapshot list \<Rightarrow>
   ('p \<times> (goerror + snapshot list)) go" where
  "collectSnapshots_loop s env clock [] p out = Inr (p, Inr out)"
| "collectSnapshots_loop s env clock (res # rest) p out =
     go_bind (collectSnapshot s (env res) (clock res) res p) (\<lambda>(p, r).
       case r of Inl e \<Rightarrow> Inr (p, Inl e)
       | Inr snap \<Rightarrow> collectSnapshots_loop s env clock rest p (out @ [snap]))"

definition collectSnapshots ::
  "'p server \<Rightarrow> (string \<Rightarrow> 'p \<Rightarrow> 'p) \<Rightarrow> (string \<Rightarrow> time) \<Rightarrow> string list \<Rightarrow> 'p \<Rightarrow>
   ('p \<times> (goerror + snapshot list)) go" where
  "collectSnapshots s env clock resources p =
     (if length resources = 0
      then (case collectResources s p of
              (p, Inl e) \<Rightarrow> Inr (p, Inl e)
            | (p, Inr resources) \<Rightarrow> collectSnapshots_loop s env clock resources p [])
      else collectSnapshots_loop s env clock resources p [])"

fun Purge_loop ::
  "'p server \<Rightarrow> (string \<Rightarrow> nat \<Rightarrow> 'p \<Rightarrow> 'p) \<Rightarrow> (string \<Rightarrow> nat \<Rightarrow> time) \<Rightarrow> string list \<Rightarrow> 'p \<Rightarrow>
   ('p \<times> goerror option) go" where
  "Purge_loop s env clock [] p = Inr (p, None)"
| "Purge_loop s env clock (res # rest) p =
     go_bind (attempt_loop (sc_LeaseProvider s) (env res) (clock res) res
                (refresh_tx (sc_sort s) res) 5 p None None)
       (\<lambda>(p, err, out). case err of Some e \<Rightarrow> Inr (p, Some e) | None \<Rightarrow> Purge_loop s env clock rest p)"

definition Purge ::
  "'p server \<Rightarrow> (string \<Rightarrow> nat \<Rightarrow> 'p \<Rightarrow> 'p) \<Rightarrow> (string \<Rightarrow> nat \<Rightarrow> time) \<Rightarrow> 'p \<Rightarrow> ('p \<times> goerror option) go" where
  "Purge s env clock p =
     (case pv_LeaseResources (sc_LeaseProvider s) p of
        (p, Inl e) \<Rightarrow> Inr (p, Some e)
      | (p, Inr resources) \<Rightarrow> Purge_loop s env clock resources p)"

fun refreshLeases_loop ::
  "'p server \<Rightarrow> (string \<Rightarrow> 'p \<Rightarrow> 'p) \<Rightarrow> (string \<Rightarrow> time) \<Rightarrow> string list \<Rightarrow> 'p \<Rightarrow> snapshot list \<Rightarrow>
   ('p \<times> snapshot list) go" where
  "refreshLeases_loop s env clock [] p events = Inr (p, events)"
| "refreshLeases_loop s env clock (res # rest) p events =
     (case pv_LeaseView (sc_LeaseProvider s) p res of
        (p, Inl e) \<Rightarrow> refreshLeases_loop s env clock rest p events
      | (p, Inr (revision, leases)) \<Rightarrow>
          go_bind (refresh_tx (sc_sort s) res (clock res) revision leases) (\<lambda>(u, tx).
            if Tx_Empty tx then refreshLeases_loop s env clock rest p events
            else
              (let p = fst (pv_LeaseCommit (sc_LeaseProvider s) (env res p) tx);
                   snap = \<lparr>sn_Resource = res, sn_Revision = revision, sn_Leases = tx_leases tx,
                           sn_Stats = Set_Stats (tx_leases tx)\<rparr>
               in refreshLeases_loop s env clock rest p (events @ [snap]))))"

definition refreshLeases ::
  "'p server \<Rightarrow> (string \<Rightarrow> 'p \<Rightarrow> 'p) \<Rightarrow> (string \<Rightarrow> time) \<Rightarrow> 'p \<Rightarrow> ('p \<times> snapshot list) go" where
  "refreshLeases s env clock p =
     (case collectResources s p of
        (p, Inl e) \<Rightarrow> Inr (p, [])
      | (p, Inr resources) \<Rightarrow> refreshLeases_loop s env clock resources p [])"

section \<open>Handlers\<close>

definition healthHandler :: "'p server \<Rightarrow> response" where
  "healthHandler s =
     (if \<not> sc_marshal s (HealthBody True)
      then http_Error ''Unable to marshal health response'' StatusBadRequest
      else \<lparr>rs_Code = StatusOK, rs_Body = HealthBody True\<rparr>)"

definition policiesHandler :: "'p server \<Rightarrow> string \<Rightarrow> response" where
  "policiesHandler s accepted =
     (case sc_Policies s of
        Inl e \<Rightarrow> http_Error ''Unable to retrieve policies'' StatusInternalServerError
      | Inr pols \<Rightarrow>
          if accepted = ''text/plain'' then \<lparr>rs_Code = StatusOK, rs_Body = PoliciesText pols\<rparr>
          else if accepted = ''application/json'' then
            (if \<not> sc_marshal s (PoliciesBody pols)
             then http_Error ''Unable to marshal policies'' StatusInternalServerError
             else \<lparr>rs_Code = StatusOK, rs_Body = PoliciesBody pols\<rparr>)
          else \<lparr>rs_Code = StatusOK, rs_Body = NoBody\<rparr>)"

definition leasesHandler ::
  "'p server \<Rightarrow> (string \<Rightarrow> 'p \<Rightarrow> 'p) \<Rightarrow> (string \<Rightarrow> time) \<Rightarrow> goerror + form \<Rightarrow> 'p \<Rightarrow> ('p \<times> response) go" where
  "leasesHandler s env clock r p =
     (case parseRequest r of
        Inl e \<Rightarrow> Inr (p, http_Error (''unable to parse request: '' @ e) StatusBadRequest)
      | Inr req \<Rightarrow>
          (let res = sub_Resource (rq_Subject req);
               (p, resources) = (if res = '''' then collectResources s p else (p, Inr [res])) in
           case resources of
             Inl e \<Rightarrow> Inr (p, http_Error e StatusInternalServerError)
           | Inr resources \<Rightarrow>
               go_bind (collectSnapshots s env clock resources p) (\<lambda>(p, snapshots).
                 case snapshots of
                   Inl e \<Rightarrow> Inr (p, http_Error e StatusInternalServerError)
                 | Inr snapshots \<Rightarrow>
                     if \<not> sc_marshal s (LeasesBody snapshots)
                     then Inr (p, http_Error ''Unable to marshal health response'' StatusBadRequest)
                     else Inr (p, \<lparr>rs_Code = StatusOK, rs_Body = LeasesBody snapshots\<rparr>))))"

text \<open>
  The acquire handler. A renewal whose policies now name another resource, or none, first
  releases the lease it held; \<open>renv\<close> and \<open>rclock\<close> belong to that release.
\<close>

definition acquire_switch ::
  "'p server \<Rightarrow> (nat \<Rightarrow> 'p \<Rightarrow> 'p) \<Rightarrow> (nat \<Rightarrow> time) \<Rightarrow> request \<Rightarrow> policies \<Rightarrow> 'p \<Rightarrow>
   ('p \<times> snapshot list \<times> goerror option) go" where
  "acquire_switch s renv rclock req pols p =
     (if PolicySet_Resource pols \<noteq> sub_Resource (rq_Subject req) \<and> sub_Resource (rq_Subject req) \<noteq> ''''
      then release s renv rclock (rq_Subject req) pols p
      else Inr (p, [], None))"

definition acquireHandler ::
  "'p server \<Rightarrow> (nat \<Rightarrow> 'p \<Rightarrow> 'p) \<Rightarrow> (nat \<Rightarrow> time) \<Rightarrow> (nat \<Rightarrow> 'p \<Rightarrow> 'p) \<Rightarrow> (nat \<Rightarrow> time) \<Rightarrow>
   goerror + form \<Rightarrow> 'p \<Rightarrow> ('p \<times> snapshot list \<times> response) go" where
  "acquireHandler s renv rclock env clock r p =
     (case initRequest s r of
        Inl e \<Rightarrow> Inr (p, [], http_Error e StatusBadRequest)
      | Inr (req, pols) \<Rightarrow>
          go_bind (acquire_switch s renv rclock req pols p) (\<lambda>(p, ev1, err).
            case err of
              Some e \<Rightarrow> Inr (p, ev1, http_Error e StatusBadRequest)
            | None \<Rightarrow>
                (let req = req\<lparr>rq_Subject := (rq_Subject req)\<lparr>sub_Resource := PolicySet_Resource pols\<rparr>\<rparr> in
                 if sub_Resource (rq_Subject req) = ''''
                 then Inr (p, ev1, \<lparr>rs_Code = StatusNoContent, rs_Body = NoBody\<rparr>)
                 else
                   (let props = MergeProperties [rq_Properties req, PolicySet_Properties pols] in
                    go_bind (acquire s env clock (rq_Subject req) props pols p) (\<lambda>(p, ev2, result).
                      case result of
                        Inl e \<Rightarrow> Inr (p, ev1 @ ev2, http_Error e StatusBadRequest)
                      | Inr (ls, snap) \<Rightarrow>
                          (let resp = AcquireBody \<lparr>ar_Request = req, ar_Lease = ls, ar_Leases = sn_Leases snap\<rparr> in
                           if \<not> sc_marshal s resp
                           then Inr (p, ev1 @ ev2, http_Error ''Failed to marshal response'' StatusBadRequest)
                           else Inr (p, ev1 @ ev2, \<lparr>rs_Code = StatusOK, rs_Body = resp\<rparr>)))))))"

definition releaseHandler ::
  "'p server \<Rightarrow> (nat \<Rightarrow> 'p \<Rightarrow> 'p) \<Rightarrow> (nat \<Rightarrow> time) \<Rightarrow> goerror + form \<Rightarrow> 'p \<Rightarrow>
   ('p \<times> snapshot list \<times> response) go" where
  "releaseHandler s env clock r p =
     (case initRequest s r of
        Inl e \<Rightarrow> Inr (p, [], http_Error e StatusBadRequest)
      | Inr (req, pols) \<Rightarrow>
          go_bind (release s env clock (rq_Subject req) pols p) (\<lambda>(p, ev, err).
            case err of
              Some e \<Rightarrow> Inr (p, ev, http_Error e StatusBadRequest)
            | None \<Rightarrow>
                (let resp = ReleaseBody \<lparr>rr_Request = req, rr_Success = True\<rparr> in
                 if \<not> sc_marshal s resp
                 then Inr (p, ev, http_Error ''Failed to marshal response'' StatusBadRequest)
                 else Inr (p, ev, \<lparr>rs_Code = StatusOK, rs_Body = resp\<rparr>))))"

section \<open>The event stream\<close>

text \<open>
  The library \<^verbatim>\<open>eventsource\<close> is represented by the calls the server makes to it, in their order;
  a client is a number. \<open>enc\<close> is the JSON encoder: an event it cannot encode gives an error.
\<close>

datatype event = PoliciesEvent policies | LeasesEvent snapshot

datatype streamcall =
    StreamRegister nat
  | StreamSubscribe string nat
  | ClientSend nat event
  | StreamBroadcast "event option"
  | StreamRemove nat
  | StreamShutdown

definition makePoliciesEvent :: "(event \<Rightarrow> goerror option) \<Rightarrow> policies \<Rightarrow> goerror + event" where
  "makePoliciesEvent enc pols =
     (let evt = PoliciesEvent pols in case enc evt of Some err \<Rightarrow> Inl err | None \<Rightarrow> Inr evt)"

definition makeLeasesEvent :: "(event \<Rightarrow> goerror option) \<Rightarrow> snapshot \<Rightarrow> goerror + event" where
  "makeLeasesEvent enc snapshot =
     (let evt = LeasesEvent snapshot in case enc evt of Some err \<Rightarrow> Inl err | None \<Rightarrow> Inr evt)"

text \<open>What the goroutine of \<^verbatim>\<open>publishLeaseUpdate\<close> does: an event that could not be made is \<open>None\<close>.\<close>

definition publishLeaseUpdate :: "(event \<Rightarrow> goerror option) \<Rightarrow> snapshot \<Rightarrow> streamcall" where
  "publishLeaseUpdate enc snapshot =
     StreamBroadcast (case makeLeasesEvent enc snapshot of Inl err \<Rightarrow> None | Inr evt \<Rightarrow> Some evt)"

definition send_event :: "nat \<Rightarrow> goerror + event \<Rightarrow> streamcall list" where
  "send_event c evt = (case evt of Inl err \<Rightarrow> [] | Inr evt \<Rightarrow> [ClientSend c evt])"

definition StatusNotAcceptable :: nat where "StatusNotAcceptable = 406"

text \<open>
  The stream handler up to the wait for the client to leave, after which it calls \<open>StreamRemove\<close>.
  \<open>client\<close> is what \<^verbatim>\<open>eventsource.NewClient\<close> returns.
\<close>

definition streamHandler ::
  "(event \<Rightarrow> goerror option) \<Rightarrow> 'p server \<Rightarrow> (string \<Rightarrow> 'p \<Rightarrow> 'p) \<Rightarrow> (string \<Rightarrow> time) \<Rightarrow> string \<Rightarrow> nat option \<Rightarrow> 'p \<Rightarrow>
   ('p \<times> (response + streamcall list)) go" where
  "streamHandler enc s env clock accept client p =
     (if accept \<noteq> ''text/event-stream''
      then Inr (p, Inl (http_Error ''This is an EventStream endpoint'' StatusNotAcceptable))
      else case client of
        None \<Rightarrow> Inr (p, Inl (http_Error ''EventStream not supported for this connection'' StatusInternalServerError))
      | Some c \<Rightarrow>
          (let calls = [StreamRegister c, StreamSubscribe ''leases'' c];
               calls = calls @ (case sc_Policies s of
                                  Inl err \<Rightarrow> []
                                | Inr pols \<Rightarrow> send_event c (makePoliciesEvent enc pols))
           in go_bind (collectSnapshots s env clock [] p) (\<lambda>(p, snapshots).
                case snapshots of
                  Inl err \<Rightarrow> Inr (p, Inr calls)
                | Inr snapshots \<Rightarrow>
                    Inr (p, Inr (calls @ concat (map (\<lambda>snapshot. send_event c (makeLeasesEvent enc snapshot)) snapshots))))))"

lemma makeEvent_eq_Inr [simp]:
  "Inr e = makePoliciesEvent enc pols \<longleftrightarrow> e = PoliciesEvent pols \<and> enc (PoliciesEvent pols) = None"
  "Inr e = makeLeasesEvent enc snap \<longleftrightarrow> e = LeasesEvent snap \<and> enc (LeasesEvent snap) = None"
  by (auto simp: makePoliciesEvent_def makeLeasesEvent_def Let_def split: option.splits)

end
