(* ===== verification/Endpoint.thy ===== *)
theory Endpoint
  imports Server GoStrings
begin

text \<open>
  The client's view of one guardian service and of a set of them: \<^verbatim>\<open>src/guardian/endpoint.go\<close>
  and \<^verbatim>\<open>src/guardian/endpointset.go\<close>. The network is a parameter: the record \<open>network\<close> holds
  what an HTTP exchange does to a world \<open>'w\<close> and returns, whether the context has ended, and
  what time it is. A response body is decoded as the message the server encoded
  (\<open>body\<close> of \<open>Server\<close>). \<open>urlValues\<close> and the server's \<open>parseForm\<close> are inverse to each other
  on requests whose properties do not use the reserved keys.
\<close>

section \<open>Errors and the network\<close>

datatype cerr =
    ErrEmptyEndpoint
  | ErrLeaseNotRequired
  | ContextErr goerror
  | TransportErr goerror
  | HttpStatus nat
  | DecodeErr
  | SelectionErr nat nat "cerr option"
  | ErrSelectionInterval
  | ErrResolverInterval

datatype exchange = GET | POST form

record 'w network =
  nw_Do :: "'w \<Rightarrow> string \<Rightarrow> exchange \<Rightarrow> 'w \<times> (goerror + response)"
  nw_ctx :: "'w \<Rightarrow> goerror option"
  nw_now :: "'w \<Rightarrow> time"

type_synonym endpoint = string

section \<open>One endpoint\<close>

definition Endpoint_prefix :: "endpoint \<Rightarrow> string" where
  "Endpoint_prefix e =
     (let u = (if \<not> strings_Contains e ''://'' then ''http://'' @ e else e)
      in if \<not> strings_HasSuffix u ''/'' then u @ ''/'' else u)"

definition Endpoint_get ::
  "'w network \<Rightarrow> (body \<Rightarrow> 'r option) \<Rightarrow> endpoint \<Rightarrow> string \<Rightarrow> 'w \<Rightarrow> 'w \<times> (cerr + 'r)" where
  "Endpoint_get net decode e path w =
     (if e = '''' then (w, Inl ErrEmptyEndpoint)
      else case nw_ctx net w of
        Some err \<Rightarrow> (w, Inl (ContextErr err))
      | None \<Rightarrow>
          (case nw_Do net w (Endpoint_prefix e @ path) GET of
             (w, Inl err) \<Rightarrow> (w, Inl (TransportErr err))
           | (w, Inr resp) \<Rightarrow>
               if rs_Code resp \<noteq> 200 then (w, Inl (HttpStatus (rs_Code resp)))
               else (w, case decode (rs_Body resp) of None \<Rightarrow> Inl DecodeErr | Some r \<Rightarrow> Inr r)))"

text \<open>
  \<^verbatim>\<open>url.Values\<close>: a map from keys to lists of values. The properties are visited in the
  order \<open>order\<close>.
\<close>

definition urlValues :: "subject_t \<Rightarrow> (string \<times> string) list \<Rightarrow> form" where
  "urlValues subject order =
     (let v = [];
          v = (if sub_Resource subject \<noteq> '''' then gm_put v ''resource'' [sub_Resource subject] else v);
          v = (if inst_Host (sub_Instance subject) \<noteq> '''' then gm_put v ''host'' [inst_Host (sub_Instance subject)] else v);
          v = (if inst_User (sub_Instance subject) \<noteq> '''' then gm_put v ''user'' [inst_User (sub_Instance subject)] else v);
          v = (if inst_ID (sub_Instance subject) \<noteq> '''' then gm_put v ''instance'' [inst_ID (sub_Instance subject)] else v)
      in foldl (\<lambda>v (key, val). gm_put v key [val]) v order)"

definition Endpoint_post ::
  "'w network \<Rightarrow> (body \<Rightarrow> 'r option) \<Rightarrow> endpoint \<Rightarrow> string \<Rightarrow> subject_t \<Rightarrow> (string \<times> string) list \<Rightarrow> 'w \<Rightarrow> 'w \<times> (cerr + 'r)" where
  "Endpoint_post net decode e path subject order w =
     (if e = '''' then (w, Inl ErrEmptyEndpoint)
      else case nw_ctx net w of
        Some err \<Rightarrow> (w, Inl (ContextErr err))
      | None \<Rightarrow>
          (case nw_Do net w (Endpoint_prefix e @ path) (POST (urlValues subject order)) of
             (w, Inl err) \<Rightarrow> (w, Inl (TransportErr err))
           | (w, Inr resp) \<Rightarrow>
               if rs_Code resp = StatusNoContent then (w, Inl ErrLeaseNotRequired)
               else if rs_Code resp = StatusOK
               then (w, case decode (rs_Body resp) of None \<Rightarrow> Inl DecodeErr | Some r \<Rightarrow> Inr r)
               else (w, Inl (HttpStatus (rs_Code resp)))))"

definition decode_health :: "body \<Rightarrow> bool option" where
  "decode_health b = (case b of HealthBody ok \<Rightarrow> Some ok | _ \<Rightarrow> None)"

definition decode_policies :: "body \<Rightarrow> policies option" where
  "decode_policies b = (case b of PoliciesBody pols \<Rightarrow> Some pols | _ \<Rightarrow> None)"

definition decode_acquire :: "body \<Rightarrow> acquireResponse option" where
  "decode_acquire b = (case b of AcquireBody r \<Rightarrow> Some r | _ \<Rightarrow> None)"

definition decode_release :: "body \<Rightarrow> releaseResponse option" where
  "decode_release b = (case b of ReleaseBody r \<Rightarrow> Some r | _ \<Rightarrow> None)"

definition Endpoint_Health :: "'w network \<Rightarrow> endpoint \<Rightarrow> 'w \<Rightarrow> 'w \<times> (cerr + bool)" where
  "Endpoint_Health net e w = Endpoint_get net decode_health e ''health'' w"

definition Endpoint_Policies :: "'w network \<Rightarrow> endpoint \<Rightarrow> 'w \<Rightarrow> 'w \<times> (cerr + policies)" where
  "Endpoint_Policies net e w = Endpoint_get net decode_policies e ''policies'' w"

definition Endpoint_Leases :: "'w network \<Rightarrow> endpoint \<Rightarrow> string \<Rightarrow> 'w \<Rightarrow> 'w \<times> (cerr + policies)" where
  "Endpoint_Leases net e res w = Endpoint_get net decode_policies e ''leases'' w"

definition Endpoint_Acquire ::
  "'w network \<Rightarrow> endpoint \<Rightarrow> subject_t \<Rightarrow> (string \<times> string) list \<Rightarrow> 'w \<Rightarrow> 'w \<times> (cerr + acquireResponse)" where
  "Endpoint_Acquire net e subject order w = Endpoint_post net decode_acquire e ''acquire'' subject order w"

definition Endpoint_Release :: "'w network \<Rightarrow> endpoint \<Rightarrow> subject_t \<Rightarrow> 'w \<Rightarrow> 'w \<times> (cerr + releaseResponse)" where
  "Endpoint_Release net e subject w = Endpoint_post net decode_release e ''release'' subject [] w"

section \<open>Endpoint sets\<close>

type_synonym endpoints = "endpoint list"

fun Select_loop ::
  "'w network \<Rightarrow> cerr list \<Rightarrow> endpoints \<Rightarrow> 'w \<Rightarrow> 'w \<times> (cerr list + endpoint)" where
  "Select_loop net failed [] w = (w, Inl failed)"
| "Select_loop net failed (e # es) w =
     (case Endpoint_Health net e w of
        (w, Inl err) \<Rightarrow> Select_loop net (failed @ [err]) es w
      | (w, Inr ok) \<Rightarrow> if \<not> ok then Select_loop net failed es w else (w, Inr e))"

definition EndpointSet_Select :: "'w network \<Rightarrow> endpoints \<Rightarrow> 'w \<Rightarrow> 'w \<times> (cerr + endpoint)" where
  "EndpointSet_Select net s w =
     (case nw_ctx net w of
        Some err \<Rightarrow> (w, Inl (ContextErr err))
      | None \<Rightarrow>
          (case Select_loop net [] s w of
             (w, Inr e) \<Rightarrow> (w, Inr e)
           | (w, Inl failed) \<Rightarrow>
               (case Select_loop net failed s w of
                  (w, Inr e) \<Rightarrow> (w, Inr e)
                | (w, Inl failed) \<Rightarrow>
                    (w, Inl (SelectionErr (length failed) (length s)
                       (case failed of [] \<Rightarrow> None | f # _ \<Rightarrow> Some f))))))"

section \<open>Requests survive the wire\<close>

definition reserved :: "string \<Rightarrow> bool" where
  "reserved k \<longleftrightarrow> k \<in> {''resource'', ''host'', ''user'', ''instance''}"

definition field :: "form \<Rightarrow> string \<Rightarrow> string \<Rightarrow> string" where
  "field f k old = (case map_of f k of Some (v # _) \<Rightarrow> v | _ \<Rightarrow> old)"

lemma set_field_simps:
  "sub_Resource (rq_Subject (set_field req k v)) = (if k = ''resource'' then v else sub_Resource (rq_Subject req))"
  "inst_Host (sub_Instance (rq_Subject (set_field req k v))) =
     (if k = ''host'' then v else inst_Host (sub_Instance (rq_Subject req)))"
  "inst_User (sub_Instance (rq_Subject (set_field req k v))) =
     (if k = ''user'' then v else inst_User (sub_Instance (rq_Subject req)))"
  "inst_ID (sub_Instance (rq_Subject (set_field req k v))) =
     (if k = ''instance'' then v else inst_ID (sub_Instance (rq_Subject req)))"
  "rq_Properties (set_field req k v) = (if reserved k then rq_Properties req else (rq_Properties req)(k \<mapsto> v))"
  by (simp_all add: set_field_def reserved_def Let_def)

lemma field_Cons: "field ((k, vals) # f) k' old =
    (if k = k' then (case vals of v # _ \<Rightarrow> v | [] \<Rightarrow> old) else field f k' old)"
  by (simp add: field_def split: list.splits)

lemma field_none: "k \<notin> fst ` set f \<Longrightarrow> field f k old = old"
  by (simp add: field_def map_of_eq_None_iff [THEN iffD2])

text \<open>
  What the server makes of a form: each key once, in any order. \<open>get\<close> is one of the four
  components of the subject, \<open>key\<close> its name in the form.
\<close>

lemma parseForm_field:
  assumes get: "\<And>r k v. get (set_field r k v) = (if k = key then v else get r)" and "distinct (map fst f)"
  shows "get (parseForm req f) = field f key (get req)"
  using assms(2)
proof (induction f arbitrary: req)
  case (Cons kv f)
  obtain k vals where kv: "kv = (k, vals)" by fastforce
  show ?case
  proof (cases vals)
    case Nil
    with Cons show ?thesis by (auto simp: kv field_Cons field_none)
  next
    case vals: (Cons v vs)
    have "get (parseForm (set_field req k v) f) = field f key (get (set_field req k v))"
      using Cons.IH Cons.prems by (simp add: kv)
    with Cons.prems show ?thesis by (auto simp: kv vals field_Cons get field_none)
  qed
qed (simp add: field_def)

lemma parseForm_props:
  assumes "distinct (map fst f)"
  shows "rq_Properties (parseForm req f) k = (if reserved k then rq_Properties req k
      else case map_of f k of Some (v # _) \<Rightarrow> Some v | _ \<Rightarrow> rq_Properties req k)"
  using assms
proof (induction f arbitrary: req)
  case (Cons kv f)
  obtain key vals where kv: "kv = (key, vals)" by fastforce
  have key: "map_of f key = None" using Cons.prems by (simp add: kv map_of_eq_None_iff)
  show ?case
  proof (cases vals)
    case Nil
    with Cons key show ?thesis by (cases "k = key") (simp_all add: kv)
  next
    case vals: (Cons v vs)
    have "rq_Properties (parseForm (set_field req key v) f) k = (if reserved k then rq_Properties (set_field req key v) k
        else case map_of f k of Some (v # _) \<Rightarrow> Some v | _ \<Rightarrow> rq_Properties (set_field req key v) k)"
      using Cons.IH Cons.prems by (simp add: kv)
    moreover have "k \<noteq> key \<Longrightarrow> rq_Properties (set_field req key v) k = rq_Properties req k"
      by (simp add: set_field_simps)
    ultimately show ?thesis using key
      by (cases "k = key") (simp_all add: kv vals set_field_simps(5) [of req key] split: option.split list.split)
  qed
qed simp

lemma request_eqI:
  assumes "sub_Resource (rq_Subject r) = sub_Resource s"
    and "inst_Host (sub_Instance (rq_Subject r)) = inst_Host (sub_Instance s)"
    and "inst_User (sub_Instance (rq_Subject r)) = inst_User (sub_Instance s)"
    and "inst_ID (sub_Instance (rq_Subject r)) = inst_ID (sub_Instance s)"
    and "rq_Properties r = props"
  shows "r = \<lparr>rq_Subject = s, rq_Properties = props\<rparr>"
  using assms by (intro request.equality subject_t.equality instance_t.equality) simp_all

text \<open>The form of a request, key by key.\<close>

lemma urlValues_props:
  assumes "distinct (map fst order)"
  shows "map_of (foldl (\<lambda>v (key, val). gm_put v key [val]) m order) k =
   (case map_of order k of Some v \<Rightarrow> Some [v] | None \<Rightarrow> map_of m k)"
  using assms
proof (induction order arbitrary: m)
  case (Cons kv order)
  obtain key v where kv: "kv = (key, v)" by fastforce
  have key: "map_of order key = None" using Cons.prems by (simp add: kv map_of_eq_None_iff)
  from Cons.IH [of "gm_put m key [v]"] Cons.prems have
    IH: "map_of (foldl (\<lambda>v (key, val). gm_put v key [val]) (gm_put m key [v]) order) k =
      (case map_of order k of Some v \<Rightarrow> Some [v] | None \<Rightarrow> map_of (gm_put m key [v]) k)" by simp
  show ?case
  proof (cases "k = key")
    case True
    with IH key show ?thesis by (simp add: kv gm_put_def update_conv')
  next
    case False
    with IH show ?thesis by (cases "map_of order k") (simp_all add: kv gm_put_def update_conv')
  qed
qed simp

lemma urlValues_wf:
  "distinct (map fst m) \<Longrightarrow> distinct (map fst (foldl (\<lambda>v (key, val). gm_put v key [val]) m order))"
  by (induction order arbitrary: m) (auto simp: gm_put_def distinct_update)

lemma urlValues_map:
  assumes "distinct (map fst order)"
  shows "map_of (urlValues s order) k = (case map_of order k of Some v \<Rightarrow> Some [v]
      | None \<Rightarrow> (let v = (if k = ''resource'' then sub_Resource s else if k = ''host'' then inst_Host (sub_Instance s)
           else if k = ''user'' then inst_User (sub_Instance s) else if k = ''instance'' then inst_ID (sub_Instance s)
           else '''') in if v = '''' then None else Some [v]))"
  unfolding urlValues_def Let_def urlValues_props [OF assms]
  by (cases "map_of order k") (auto simp: gm_put_def update_conv')

lemma urlValues_distinct: "distinct (map fst (urlValues s order))"
  unfolding urlValues_def Let_def by (rule urlValues_wf) (simp add: gm_put_def distinct_update)

lemma field_urlValues:
  assumes "distinct (map fst order)" and "map_of order k = None" and "map_of f = map_of (urlValues s order)"
  shows "k = ''resource'' \<Longrightarrow> field f k '''' = sub_Resource s"
    and "k = ''host'' \<Longrightarrow> field f k '''' = inst_Host (sub_Instance s)"
    and "k = ''user'' \<Longrightarrow> field f k '''' = inst_User (sub_Instance s)"
    and "k = ''instance'' \<Longrightarrow> field f k '''' = inst_ID (sub_Instance s)"
  using assms(2) unfolding field_def assms(3) urlValues_map [OF assms(1)] by (simp_all add: Let_def)

text \<open>
  The request the server parses is the request the client sent, in whatever order the
  two sides visit their maps.
\<close>

lemma urlValues_roundtrip:
  assumes ord: "map_order props order" and free: "\<And>k. reserved k \<Longrightarrow> props k = None"
    and wire: "mset f = mset (urlValues s order)"
  shows "parseRequest (Inr f) = Inr \<lparr>rq_Subject = s, rq_Properties = props\<rparr>"
proof -
  from ord have d: "distinct (map fst order)" and m: "map_of order = props" by (simp_all add: map_order_def)
  have df: "distinct (map fst f)"
    using mset_eq_distinct_map [OF wire, of fst] urlValues_distinct [of s order] by simp
  have mf: "map_of f = map_of (urlValues s order)"
    using df urlValues_distinct [of s order] mset_eq_set [OF wire] by (simp add: map_of_inject_set)
  have none: "map_of order k = None" if "reserved k" for k using free [OF that] m by simp
  note fld = field_urlValues [OF d none mf]
  note parsed = parseForm_field [where req = empty_request and get = "\<lambda>r. sub_Resource (rq_Subject r)", OF set_field_simps(1) df]
    parseForm_field [where req = empty_request and get = "\<lambda>r. inst_Host (sub_Instance (rq_Subject r))", OF set_field_simps(2) df]
    parseForm_field [where req = empty_request and get = "\<lambda>r. inst_User (sub_Instance (rq_Subject r))", OF set_field_simps(3) df]
    parseForm_field [where req = empty_request and get = "\<lambda>r. inst_ID (sub_Instance (rq_Subject r))", OF set_field_simps(4) df]
  have empty: "sub_Resource (rq_Subject empty_request) = ''''" "inst_Host (sub_Instance (rq_Subject empty_request)) = ''''"
    "inst_User (sub_Instance (rq_Subject empty_request)) = ''''" "inst_ID (sub_Instance (rq_Subject empty_request)) = ''''"
    "rq_Properties empty_request = Map.empty"
    by (simp_all add: empty_request_def zero_subject_def zero_instance_def)
  have "parseForm empty_request f = \<lparr>rq_Subject = s, rq_Properties = props\<rparr>"
  proof (rule request_eqI)
    have "rq_Properties (parseForm empty_request f) k = props k" for k
      using free [of k] unfolding parseForm_props [OF df] mf urlValues_map [OF d] m empty
      by (cases "props k") (auto simp: reserved_def)
    then show "rq_Properties (parseForm empty_request f) = props" ..
  qed (simp_all add: parsed empty fld reserved_def)
  then show ?thesis by (simp add: parseRequest_def)
qed

section \<open>Selection\<close>

lemma Select_loop_Inr:
  "Select_loop net failed es w = (w', Inr e) \<Longrightarrow>
   e \<in> set es \<and> (\<exists>w0. Endpoint_Health net e w0 = (w', Inr True))"
  by (induction net failed es w rule: Select_loop.induct)
    (auto split: prod.splits sum.splits if_splits)

lemma Select_loop_Inl:
  "Select_loop net failed es w = (w', Inl failed') \<Longrightarrow> length failed' \<le> length failed + length es"
  by (induction net failed es w rule: Select_loop.induct)
    (fastforce split: prod.splits sum.splits if_splits)+

lemma Select_healthy:
  assumes "EndpointSet_Select net s w = (w', Inr e)"
  shows "e \<in> set s \<and> (\<exists>w0. Endpoint_Health net e w0 = (w', Inr True))"
  using assms Select_loop_Inr [of net]
  by (auto simp: EndpointSet_Select_def split: option.splits prod.splits sum.splits)

lemma Select_loop_finds:
  assumes "e \<in> set es" and "\<And>w. \<exists>w'. Endpoint_Health net e w = (w', Inr True)"
  shows "\<exists>w' e'. Select_loop net failed es w = (w', Inr e')"
  using assms(1)
proof (induction es arbitrary: failed w)
  case (Cons a es)
  show ?case
  proof (cases "a = e")
    case True
    with assms(2) [of w] show ?thesis by auto
  next
    case False
    with Cons show ?thesis by (auto split: prod.splits sum.splits)
  qed
qed simp

lemma Select_finds:
  assumes "e \<in> set es" and "\<And>w. \<exists>w'. Endpoint_Health net e w = (w', Inr True)" and "nw_ctx net w = None"
  shows "\<exists>w' e'. EndpointSet_Select net es w = (w', Inr e')"
  using Select_loop_finds [OF assms(1,2), of "[]" w] assms(3) by (auto simp: EndpointSet_Select_def)

end
