(* ===== verification/Client.thy ===== *)
theory Client
  imports Endpoint
begin

text \<open>
  The guardian client, \<^verbatim>\<open>src/guardian/client.go\<close>: it keeps a selected endpoint, and on an error
  of a call selects another one (\<^verbatim>\<open>failover\<close>) and repeats the call there. The locks make each
  update of the fields one step. \<open>resolve\<close> stands for the \<^verbatim>\<open>Resolver\<close> interface, \<open>net\<close> for
  the network with its clock.
\<close>

record client =
  cl_endpoints :: endpoints
  cl_endpoint :: endpoint
  cl_resolved :: time
  cl_selected :: time

type_synonym 'w resolver = "'w \<Rightarrow> 'w \<times> (cerr + endpoints)"

definition NewClient :: client where
  "NewClient = \<lparr>cl_endpoints = [], cl_endpoint = '''', cl_resolved = 0, cl_selected = 0\<rparr>"

definition Client_Resolve :: "'w network \<Rightarrow> 'w resolver \<Rightarrow> client \<Rightarrow> 'w \<Rightarrow> 'w \<times> client \<times> cerr option" where
  "Client_Resolve net resolve c w =
     (case nw_ctx net w of
        Some err \<Rightarrow> (w, c, Some (ContextErr err))
      | None \<Rightarrow>
          (case resolve w of
             (w, Inl err) \<Rightarrow> (w, c, Some err)
           | (w, Inr endpoints) \<Rightarrow>
               (case EndpointSet_Select net endpoints w of
                  (w, Inl err) \<Rightarrow> (w, c, Some err)
                | (w, Inr endpoint) \<Rightarrow>
                    (let now = nw_now net w
                     in (w, c\<lparr>cl_resolved := now, cl_selected := now, cl_endpoints := endpoints,
                              cl_endpoint := endpoint\<rparr>, None)))))"

definition Client_failover ::
  "'w network \<Rightarrow> 'w resolver \<Rightarrow> bool \<Rightarrow> client \<Rightarrow> 'w \<Rightarrow> 'w \<times> client \<times> (cerr + endpoint)" where
  "Client_failover net resolve essential c w =
     (case nw_ctx net w of
        Some err \<Rightarrow> (w, c, Inl (ContextErr err))
      | None \<Rightarrow>
          (let now = nw_now net w in
           if \<not> essential \<and> cl_selected c \<noteq> 0 \<and> Time_Sub now (cl_selected c) < 2 * Second
           then (w, c, Inl ErrSelectionInterval)
           else
             (case EndpointSet_Select net (cl_endpoints c) w of
                (w, Inr endpoint) \<Rightarrow> (w, c\<lparr>cl_endpoint := endpoint\<rparr>, Inr endpoint)
              | (w, Inl err) \<Rightarrow>
                  if \<not> essential \<and> cl_resolved c \<noteq> 0 \<and> Time_Sub now (cl_resolved c) < 10 * Second
                  then (w, c, Inl ErrResolverInterval)
                  else
                    (case resolve w of
                       (w, Inl err) \<Rightarrow> (w, c, Inl err)
                     | (w, Inr endpoints) \<Rightarrow>
                         (case EndpointSet_Select net endpoints w of
                            (w, Inl err) \<Rightarrow> (w, c, Inl err)
                          | (w, Inr endpoint) \<Rightarrow>
                              (w, c\<lparr>cl_resolved := nw_now net w, cl_endpoint := endpoint,
                                    cl_endpoints := endpoints\<rparr>, Inr endpoint))))))"

definition isContextErr :: "cerr \<Rightarrow> bool" where
  "isContextErr err = (case err of ContextErr _ \<Rightarrow> True | _ \<Rightarrow> False)"

text \<open>The body that \<^verbatim>\<open>Policies\<close>, \<^verbatim>\<open>Acquire\<close> and \<^verbatim>\<open>Release\<close> share, with the call as an argument.\<close>

definition with_failover ::
  "'w network \<Rightarrow> 'w resolver \<Rightarrow> bool \<Rightarrow> (endpoint \<Rightarrow> 'w \<Rightarrow> 'w \<times> (cerr + 'r)) \<Rightarrow> client \<Rightarrow> 'w \<Rightarrow>
   'w \<times> client \<times> (cerr + 'r)" where
  "with_failover net resolve essential call c w =
     (case call (cl_endpoint c) w of
        (w, Inr response) \<Rightarrow> (w, c, Inr response)
      | (w, Inl err) \<Rightarrow>
          if isContextErr err then (w, c, Inl err)
          else
            (case Client_failover net resolve essential c w of
               (w, c, Inl err2) \<Rightarrow> (w, c, Inl err)
             | (w, c, Inr failover) \<Rightarrow>
                 (let (w, r) = call failover w in (w, c, r))))"

definition Client_Policies ::
  "'w network \<Rightarrow> 'w resolver \<Rightarrow> client \<Rightarrow> 'w \<Rightarrow> 'w \<times> client \<times> (cerr + policies)" where
  "Client_Policies net resolve c w = with_failover net resolve False (Endpoint_Policies net) c w"

definition Client_Acquire ::
  "'w network \<Rightarrow> 'w resolver \<Rightarrow> subject_t \<Rightarrow> (string \<times> string) list \<Rightarrow> client \<Rightarrow> 'w \<Rightarrow>
   'w \<times> client \<times> (cerr + acquireResponse)" where
  "Client_Acquire net resolve subject order c w =
     with_failover net resolve False (\<lambda>e. Endpoint_Acquire net e subject order) c w"

definition Client_Release ::
  "'w network \<Rightarrow> 'w resolver \<Rightarrow> subject_t \<Rightarrow> client \<Rightarrow> 'w \<Rightarrow> 'w \<times> client \<times> (cerr + releaseResponse)" where
  "Client_Release net resolve subject c w =
     with_failover net resolve True (\<lambda>e. Endpoint_Release net e subject) c w"

section \<open>Failover\<close>

text \<open>The selected endpoint belongs to the set the client knows, or none is selected yet.\<close>

definition client_ok :: "client \<Rightarrow> bool" where
  "client_ok c \<longleftrightarrow> cl_endpoint c = '''' \<or> cl_endpoint c \<in> set (cl_endpoints c)"

lemma Client_Resolve_ok:
  assumes "Client_Resolve net resolve c w = (w', c', err)" and "client_ok c"
  shows "client_ok c' \<and> (err = None \<longrightarrow> (\<exists>w0. Endpoint_Health net (cl_endpoint c') w0 = (w', Inr True))) \<and>
    (err \<noteq> None \<longrightarrow> c' = c)"
  using assms Select_healthy [of net]
  by (auto simp: Client_Resolve_def client_ok_def Let_def split: option.splits prod.splits sum.splits)

lemma Client_failover_ok:
  assumes "Client_failover net resolve essential c w = (w', c', r)" and "client_ok c"
  shows "client_ok c' \<and> (\<forall>e. r = Inr e \<longrightarrow> cl_endpoint c' = e \<and> e \<in> set (cl_endpoints c') \<and>
      (\<exists>w0. Endpoint_Health net e w0 = (w', Inr True))) \<and> ((\<exists>err. r = Inl err) \<longrightarrow> c' = c)"
  using assms Select_healthy [of net]
  by (auto simp: Client_failover_def client_ok_def Let_def split: option.splits prod.splits sum.splits if_splits)

lemma with_failover_ok:
  assumes "with_failover net resolve essential call c w = (w', c', r)" and "client_ok c"
  shows "client_ok c'"
  using assms Client_failover_ok [of net resolve essential c]
  by (auto simp: with_failover_def Let_def split: prod.splits sum.splits if_splits)

text \<open>A response comes from the endpoint selected before the call or from the one after it.\<close>

lemma with_failover_response:
  assumes "with_failover net resolve essential call c w = (w', c', Inr resp)" and "client_ok c"
  shows "\<exists>w0. call (cl_endpoint c) w0 = (w', Inr resp) \<or> call (cl_endpoint c') w0 = (w', Inr resp)"
  using assms Client_failover_ok [of net resolve essential c]
  by (auto simp: with_failover_def Let_def split: prod.splits sum.splits if_splits)

text \<open>
  \<^verbatim>\<open>failover\<close> never stores the time of a selection, so \<^verbatim>\<open>c.selected\<close> only changes in \<^verbatim>\<open>Resolve\<close>.
\<close>

lemma Client_failover_selected:
  "Client_failover net resolve essential c w = (w', c', r) \<Longrightarrow> cl_selected c' = cl_selected c"
  by (auto simp: Client_failover_def Let_def split: option.splits prod.splits sum.splits if_splits)

lemma with_failover_finds:
  assumes "e \<in> set (cl_endpoints c)" and "\<And>w. \<exists>w'. Endpoint_Health net e w = (w', Inr True)"
    and fails: "call (cl_endpoint c) w = (w1, Inl err)" "\<not> isContextErr err"
    and "nw_ctx net w1 = None"
  shows "\<exists>w2 e' c'. with_failover net resolve True call c w =
    (let (w3, r) = call e' w2 in (w3, c', r)) \<and> e' \<in> set (cl_endpoints c)"
proof -
  from Select_finds [OF assms(1,2,5)] obtain w2 e' where sel: "EndpointSet_Select net (cl_endpoints c) w1 = (w2, Inr e')"
    by blast
  from Select_healthy [OF this] sel fails assms(5) show ?thesis
    by (intro exI [of _ w2] exI [of _ e'] exI [of _ "c\<lparr>cl_endpoint := e'\<rparr>"])
      (simp add: with_failover_def Client_failover_def Let_def)
qed

end
