(* ===== verification/Maintainer.thy ===== *)
theory Maintainer
  imports Client
begin

text \<open>
  The lease maintainer, \<^verbatim>\<open>src/guardian/maintainer.go\<close>, and the state it reports,
  \<^verbatim>\<open>src/lease/state.go\<close>. While it runs, a goroutine waits for a timer or a shutdown: \<open>tick\<close> is
  one acquisition with the interval until the next, \<open>Maintainer_stop\<close> is the shutdown with an
  optional release. The locks make each of these one step; \<open>lm_step\<close> is the resulting
  step relation. A listener is the list of states it was sent.
\<close>

section \<open>State\<close>

record lstate =
  lt_Online :: bool
  lt_LeaseNotRequired :: bool
  lt_Acquired :: bool
  lt_Lease :: lease
  lt_Leases :: leases
  lt_Retry :: duration
  lt_Err :: "cerr option"

definition zero_lstate :: lstate where
  "zero_lstate = \<lparr>lt_Online = False, lt_LeaseNotRequired = False, lt_Acquired = False,
     lt_Lease = zero_lease, lt_Leases = [], lt_Retry = 0, lt_Err = None\<rparr>"

definition State_IsZero :: "lstate \<Rightarrow> bool" where
  "State_IsZero s =
     (if lt_Online s \<or> lt_Acquired s \<or> lt_LeaseNotRequired s then False
      else if \<not> Subject_Empty (ls_Subject (lt_Lease s)) then False
      else if length (lt_Leases s) > 0 then False
      else if lt_Err s \<noteq> None then False
      else True)"

record listener =
  li_received :: "lstate list"
  li_closed :: bool

record maintainer =
  lm_client :: client
  lm_instance :: instance_t
  lm_retry :: duration
  lm_running :: bool
  lm_state :: lstate
  lm_props :: "(string \<times> string) list"
  lm_listeners :: "listener list"

definition NewLeaseMaintainer :: "client \<Rightarrow> instance_t \<Rightarrow> (string \<times> string) list \<Rightarrow> duration \<Rightarrow> maintainer" where
  "NewLeaseMaintainer c inst props retry = \<lparr>lm_client = c, lm_instance = inst, lm_retry = retry,
     lm_running = False, lm_state = zero_lstate, lm_props = props, lm_listeners = []\<rparr>"

datatype lmerr = ErrStarted | ErrClosed

section \<open>Operations\<close>

definition Maintainer_Acquire :: "maintainer \<Rightarrow> maintainer \<times> lmerr option" where
  "Maintainer_Acquire lm = (if lm_running lm then (lm, Some ErrStarted) else (lm\<lparr>lm_running := True\<rparr>, None))"

definition acquire_subject :: "maintainer \<Rightarrow> subject_t" where
  "acquire_subject lm =
     (if lt_Acquired (lm_state lm) then ls_Subject (lt_Lease (lm_state lm))
      else zero_subject\<lparr>sub_Instance := lm_instance lm\<rparr>)"

definition broadcast :: "lstate \<Rightarrow> listener list \<Rightarrow> listener list" where
  "broadcast s ls = map (\<lambda>l. l\<lparr>li_received := li_received l @ [s]\<rparr>) ls"

definition acquired_state :: "lstate \<Rightarrow> cerr + acquireResponse \<Rightarrow> lstate" where
  "acquired_state s r =
     (case r of
        Inr response \<Rightarrow> s\<lparr>lt_Online := True, lt_LeaseNotRequired := False, lt_Acquired := True,
          lt_Lease := ar_Lease response, lt_Leases := ar_Leases response, lt_Err := None\<rparr>
      | Inl err \<Rightarrow>
          if err = ErrLeaseNotRequired
          then s\<lparr>lt_Online := True, lt_LeaseNotRequired := True, lt_Acquired := False,
            lt_Lease := zero_lease, lt_Leases := [], lt_Err := None\<rparr>
          else s\<lparr>lt_Online := False, lt_LeaseNotRequired := False, lt_Err := Some err\<rparr>)"

definition Maintainer_acquire ::
  "'w network \<Rightarrow> 'w resolver \<Rightarrow> maintainer \<Rightarrow> 'w \<Rightarrow> 'w \<times> maintainer \<times> lstate" where
  "Maintainer_acquire net resolve lm w =
     (let (w, c, r) = Client_Acquire net resolve (acquire_subject lm) (lm_props lm) (lm_client lm) w;
          state = acquired_state (lm_state lm) r
      in (w, lm\<lparr>lm_client := c, lm_state := state, lm_listeners := broadcast state (lm_listeners lm)\<rparr>, state))"

definition Maintainer_release ::
  "'w network \<Rightarrow> 'w resolver \<Rightarrow> maintainer \<Rightarrow> 'w \<Rightarrow> 'w \<times> maintainer \<times> lstate" where
  "Maintainer_release net resolve lm w =
     (let s = lm_state lm;
          (w, c, err) = (if lt_Acquired s
             then (case Client_Release net resolve (ls_Subject (lt_Lease s)) (lm_client lm) w of
                     (w, c, Inl err) \<Rightarrow> (w, c, Some err) | (w, c, Inr _) \<Rightarrow> (w, c, None))
             else (w, lm_client lm, None));
          s = (if err = None then s\<lparr>lt_Acquired := False, lt_Online := False\<rparr> else s);
          s = s\<lparr>lt_Err := err\<rparr>
      in (w, lm\<lparr>lm_client := c, lm_state := s\<rparr>, s))"

definition transportTime :: duration where "transportTime = 800 * Millisecond"

definition clamp :: "duration \<Rightarrow> duration" where
  "clamp interval = (if interval < MinimumRefresh then MinimumRefresh else interval)"

definition Maintainer_interval :: "maintainer \<Rightarrow> time \<Rightarrow> lstate \<Rightarrow> duration" where
  "Maintainer_interval lm now state =
     (if \<not> lt_Acquired state then clamp (lm_retry lm)
      else
        (let interval = Lease_EffectiveRefresh (lt_Lease state);
             interval = (if \<not> lt_Online state \<and> lm_retry lm < interval then lm_retry lm else interval);
             interval =
               (if ls_Status (lt_Lease state) = Active then
                  (let exp = Lease_ExpirationTime (lt_Lease state) in
                   if exp > now then
                     (let remaining = Time_Sub exp now;
                          remaining = (if transportTime < remaining then remaining - transportTime else 0)
                      in if remaining < interval then remaining else interval)
                   else 0)
                else if ls_Status (lt_Lease state) = Queued then
                  (let decay = Set_DecayDuration (lt_Leases state) now
                   in if decay > 0 \<and> decay < interval then decay else interval)
                else interval)
         in clamp (clamp interval)))"

text \<open>One turn of the loop of \<^verbatim>\<open>run\<close>: the timer fired.\<close>

definition tick :: "'w network \<Rightarrow> 'w resolver \<Rightarrow> maintainer \<Rightarrow> 'w \<Rightarrow> 'w \<times> maintainer \<times> duration" where
  "tick net resolve lm w =
     (let (w, lm, state) = Maintainer_acquire net resolve lm w
      in (w, lm, Maintainer_interval lm (nw_now net w) state))"

definition Maintainer_stop ::
  "'w network \<Rightarrow> 'w resolver \<Rightarrow> bool \<Rightarrow> maintainer \<Rightarrow> 'w \<Rightarrow> 'w \<times> maintainer \<times> lmerr option" where
  "Maintainer_stop net resolve rel lm w =
     (if \<not> lm_running lm then (w, lm, Some ErrClosed)
      else
        (let (w, lm) = (if rel then (let (w, lm, s) = Maintainer_release net resolve lm w in (w, lm)) else (w, lm))
         in (w, lm\<lparr>lm_running := False, lm_state := (lm_state lm)\<lparr>lt_Online := False\<rparr>\<rparr>, None)))"

definition Maintainer_Release ::
  "'w network \<Rightarrow> 'w resolver \<Rightarrow> maintainer \<Rightarrow> 'w \<Rightarrow> 'w \<times> maintainer \<times> lmerr option" where
  "Maintainer_Release net resolve lm w = Maintainer_stop net resolve True lm w"

definition Maintainer_Stop ::
  "'w network \<Rightarrow> 'w resolver \<Rightarrow> maintainer \<Rightarrow> 'w \<Rightarrow> 'w \<times> maintainer \<times> lmerr option" where
  "Maintainer_Stop net resolve lm w = Maintainer_stop net resolve False lm w"

text \<open>\<^verbatim>\<open>Close\<close> closes the channels of the listeners, which are returned beside the maintainer.\<close>

definition Maintainer_Close ::
  "'w network \<Rightarrow> 'w resolver \<Rightarrow> maintainer \<Rightarrow> 'w \<Rightarrow> 'w \<times> maintainer \<times> listener list" where
  "Maintainer_Close net resolve lm w =
     (let (w, lm, err) = Maintainer_stop net resolve False lm w
      in (w, lm\<lparr>lm_listeners := []\<rparr>, map (\<lambda>l. l\<lparr>li_closed := True\<rparr>) (lm_listeners lm)))"

definition Maintainer_Update :: "(string \<times> string) list \<Rightarrow> maintainer \<Rightarrow> maintainer" where
  "Maintainer_Update props lm = lm\<lparr>lm_props := props\<rparr>"

definition Maintainer_Listen :: "maintainer \<Rightarrow> maintainer \<times> listener" where
  "Maintainer_Listen lm =
     (if \<not> lm_running lm then (lm, \<lparr>li_received = [], li_closed = True\<rparr>)
      else
        (let l = \<lparr>li_received = (if State_IsZero (lm_state lm) then [] else [lm_state lm]), li_closed = False\<rparr>
         in (lm\<lparr>lm_listeners := lm_listeners lm @ [l]\<rparr>, l)))"

inductive lm_step :: "'w network \<Rightarrow> 'w resolver \<Rightarrow> maintainer \<times> 'w \<Rightarrow> maintainer \<times> 'w \<Rightarrow> bool"
  for net :: "'w network" and resolve :: "'w resolver" where
  start: "Maintainer_Acquire lm = (lm', err) \<Longrightarrow> lm_step net resolve (lm, w) (lm', w)"
| timer: "lm_running lm \<Longrightarrow> tick net resolve lm w = (w', lm', d) \<Longrightarrow> lm_step net resolve (lm, w) (lm', w')"
| stop: "Maintainer_stop net resolve rel lm w = (w', lm', err) \<Longrightarrow> lm_step net resolve (lm, w) (lm', w')"
| close: "Maintainer_Close net resolve lm w = (w', lm', ls) \<Longrightarrow> lm_step net resolve (lm, w) (lm', w')"
| update: "lm_step net resolve (lm, w) (Maintainer_Update props lm, w)"
| listen: "Maintainer_Listen lm = (lm', l) \<Longrightarrow> lm_step net resolve (lm, w) (lm', w)"
| world: "lm_step net resolve (lm, w) (lm, w')"

inductive_cases lm_step_cases: "lm_step net resolve s s'"

section \<open>The refresh interval\<close>

lemma interval_minimum: "MinimumRefresh \<le> Maintainer_interval lm now state"
  by (simp add: Maintainer_interval_def clamp_def Let_def)

lemma interval_before_expiry:
  assumes "lt_Acquired state" and "ls_Status (lt_Lease state) = Active"
    and "MinimumRefresh + transportTime \<le> Lease_ExpirationTime (lt_Lease state) - now"
    and "Lease_ExpirationTime (lt_Lease state) - now \<le> maxDuration"
  shows "now + Maintainer_interval lm now state \<le> Lease_ExpirationTime (lt_Lease state) - transportTime"
proof -
  let ?exp = "Lease_ExpirationTime (lt_Lease state)"
  have pos: "0 < MinimumRefresh" "0 < transportTime"
    by (simp_all add: MinimumRefresh_def transportTime_def Second_def Millisecond_def)
  have sub: "Time_Sub ?exp now = ?exp - now"
    using assms(3,4) pos by (intro Time_Sub_exact) (simp_all add: minDuration_def)
  show ?thesis using assms pos
    by (auto simp: Maintainer_interval_def clamp_def Let_def sub)
qed

section \<open>Invariants of the maintainer\<close>

definition lm_ok :: "maintainer \<Rightarrow> bool" where
  "lm_ok lm \<longleftrightarrow> client_ok (lm_client lm) \<and>
     \<not> (lt_Acquired (lm_state lm) \<and> lt_LeaseNotRequired (lm_state lm)) \<and>
     (lt_Online (lm_state lm) \<longrightarrow> lm_running lm \<and> (lt_Acquired (lm_state lm) \<or> lt_LeaseNotRequired (lm_state lm))) \<and>
     (\<forall>l \<in> set (lm_listeners lm). \<not> li_closed l)"

lemma NewLeaseMaintainer_ok: "client_ok c \<Longrightarrow> lm_ok (NewLeaseMaintainer c inst props retry)"
  by (simp add: lm_ok_def NewLeaseMaintainer_def zero_lstate_def)

lemma acquired_state_ok:
  "\<not> (lt_Acquired s \<and> lt_LeaseNotRequired s) \<Longrightarrow>
   \<not> (lt_Acquired (acquired_state s r) \<and> lt_LeaseNotRequired (acquired_state s r)) \<and>
   (lt_Online (acquired_state s r) \<longrightarrow> lt_Acquired (acquired_state s r) \<or> lt_LeaseNotRequired (acquired_state s r))"
  by (cases r) (simp_all add: acquired_state_def)

lemma lm_acquire_ok:
  assumes "Maintainer_acquire net resolve lm w = (w', lm', s)" and "lm_ok lm" and "lm_running lm"
  shows "lm_ok lm' \<and> lm_running lm'"
proof -
  obtain w1 c r where C: "Client_Acquire net resolve (acquire_subject lm) (lm_props lm) (lm_client lm) w = (w1, c, r)"
    by (metis prod_cases3)
  have "client_ok c"
    using with_failover_ok [OF C [unfolded Client_Acquire_def]] assms(2) by (simp add: lm_ok_def)
  moreover have "\<not> (lt_Acquired (lm_state lm) \<and> lt_LeaseNotRequired (lm_state lm))"
    using assms(2) by (simp add: lm_ok_def)
  note acquired_state_ok [OF this, of r]
  moreover have "lm' = lm\<lparr>lm_client := c, lm_state := acquired_state (lm_state lm) r,
      lm_listeners := broadcast (acquired_state (lm_state lm) r) (lm_listeners lm)\<rparr>"
    using assms(1) C by (auto simp: Maintainer_acquire_def Let_def)
  ultimately show ?thesis using assms(2,3) by (simp add: lm_ok_def broadcast_def)
qed

lemma lm_release_ok:
  assumes "Maintainer_release net resolve lm w = (w', lm', s)" and "lm_ok lm"
  shows "lm_ok (lm'\<lparr>lm_running := False, lm_state := (lm_state lm')\<lparr>lt_Online := False\<rparr>\<rparr>)"
proof (cases "lt_Acquired (lm_state lm)")
  case True
  obtain w1 c r where C: "Client_Release net resolve (ls_Subject (lt_Lease (lm_state lm))) (lm_client lm) w = (w1, c, r)"
    by (metis prod_cases3)
  have "client_ok c"
    using with_failover_ok [OF C [unfolded Client_Release_def]] assms(2) by (simp add: lm_ok_def)
  then show ?thesis using assms True C
    by (cases r) (auto simp: Maintainer_release_def lm_ok_def Let_def)
next
  case False
  with assms show ?thesis by (auto simp: Maintainer_release_def lm_ok_def Let_def)
qed

lemma lm_stop_ok:
  assumes "Maintainer_stop net resolve rel lm w = (w', lm', err)" and "lm_ok lm"
  shows "lm_ok lm'"
proof (cases "lm_running lm \<and> rel")
  case True
  obtain w1 lm1 s1 where R: "Maintainer_release net resolve lm w = (w1, lm1, s1)" by (metis prod_cases3)
  from lm_release_ok [OF this assms(2)] True R assms(1) show ?thesis by (auto simp: Maintainer_stop_def)
next
  case False
  with assms show ?thesis by (auto simp: Maintainer_stop_def lm_ok_def split: if_splits)
qed

lemma lm_step_ok: "lm_step net resolve s s' \<Longrightarrow> lm_ok (fst s) \<Longrightarrow> lm_ok (fst s')"
proof (induction rule: lm_step.induct)
  case (start lm lm' err w)
  then show ?case by (auto simp: Maintainer_Acquire_def lm_ok_def split: if_splits)
next
  case (timer lm w w' lm' d)
  obtain w1 lm1 s1 where A: "Maintainer_acquire net resolve lm w = (w1, lm1, s1)" by (metis prod_cases3)
  from lm_acquire_ok [OF A] timer A show ?case by (auto simp: tick_def)
next
  case (stop rel lm w w' lm' err)
  then show ?case using lm_stop_ok by simp
next
  case (close lm w w' lm' ls)
  obtain w1 lm1 e1 where S: "Maintainer_stop net resolve False lm w = (w1, lm1, e1)" by (metis prod_cases3)
  from lm_stop_ok [OF S] close S show ?case by (auto simp: Maintainer_Close_def lm_ok_def)
next
  case (listen lm lm' l w)
  then show ?case by (auto simp: Maintainer_Listen_def lm_ok_def Let_def split: if_splits)
qed (simp_all add: Maintainer_Update_def lm_ok_def)

interpretation lmInv: inductive_invariant "lm_step net resolve" "\<lambda>s. lm_ok (fst s)" for net resolve
  by unfold_locales (rule lm_step_ok)

end
