(* ===== verification/MemProv.thy ===== *)
theory MemProv
  imports Provider
begin

text \<open>
  The in-memory provider, \<^verbatim>\<open>src/provider/memprov/provider.go\<close>. Each resource has a page with a
  revision and its leases; a commit replays the operations of the transaction one by one,
  looking each previous lease up by resource and instance. The replay reaches the same leases
  as the transaction itself, which makes the provider a \<open>reliable_store\<close>. The page locks make
  view and commit atomic, so each is one step here. Go ranges over the page map in an arbitrary
  order; \<open>MemProv_LeaseResources\<close> lists the pages in the order they were created.
\<close>

record leasePage =
  pg_revision :: "64 word"
  pg_leases :: leases

type_synonym memprov = "(string, leasePage) gomap"

definition new_leasePage :: leasePage where
  "new_leasePage = \<lparr>pg_revision = 0, pg_leases = []\<rparr>"

definition MemProv_New :: memprov where "MemProv_New = []"

definition MemProv_leasePage :: "memprov \<Rightarrow> string \<Rightarrow> memprov \<times> leasePage" where
  "MemProv_leasePage p res =
     (case map_of p res of
        Some page \<Rightarrow> (p, page)
      | None \<Rightarrow> (gm_put p res new_leasePage, new_leasePage))"

definition MemProv_LeaseResources :: "memprov \<Rightarrow> memprov \<times> (goerror + string list)" where
  "MemProv_LeaseResources p = (p, Inr (map fst p))"

definition MemProv_LeaseView :: "memprov \<Rightarrow> string \<Rightarrow> memprov \<times> (goerror + (64 word \<times> leases))" where
  "MemProv_LeaseView p res =
     (let (p', page) = MemProv_leasePage p res in (p', Inr (pg_revision page, pg_leases page)))"

definition MemProv_apply :: "leases \<Rightarrow> op_t \<Rightarrow> leases" where
  "MemProv_apply xs op =
     (let i = Set_Index xs (ls_Resource (op_Previous op)) (ls_Instance (op_Previous op)) in
      case op_Type op of
        Create \<Rightarrow> xs @ [op_Lease op]
      | Update \<Rightarrow> (if i \<ge> 0 then xs[nat i := Clone (op_Lease op)] else xs)
      | Delete \<Rightarrow> (if i \<ge> 0 then take (nat i) xs @ drop (Suc (nat i)) xs else xs)
      | ActNone \<Rightarrow> xs)"

definition MemProv_LeaseCommit :: "sorter \<Rightarrow> memprov \<Rightarrow> tx \<Rightarrow> memprov \<times> goerror option" where
  "MemProv_LeaseCommit srt p tx =
     (let ops = tx_ops tx in
      if length ops = 0 then (p, None)
      else let (p', page) = MemProv_leasePage p (tx_resource tx) in
        if pg_revision page \<noteq> tx_revision tx then (p', Some conflict_error)
        else (gm_put p' (tx_resource tx)
                \<lparr>pg_revision = pg_revision page + 1,
                 pg_leases = srt (foldl MemProv_apply (pg_leases page) ops)\<rparr>, None))"

definition MemProv :: "sorter \<Rightarrow> memprov provider" where
  "MemProv srt = \<lparr>pv_LeaseResources = MemProv_LeaseResources, pv_LeaseView = MemProv_LeaseView,
     pv_LeaseCommit = MemProv_LeaseCommit srt\<rparr>"

section \<open>Replaying the operations\<close>

lemma Set_Index_from_split:
  assumes "distinct (map ls_Subject (pre @ x # suf))"
  shows "Set_Index_from i (pre @ x # suf) (ls_Resource x) (ls_Instance x) = int (i + length pre)"
  using assms
proof (induction pre arbitrary: i)
  case Nil
  then show ?case by (simp add: Lease_MatchInstance_def)
next
  case (Cons y pre)
  from Cons.prems have "ls_Subject y \<noteq> ls_Subject x" by auto
  then have "\<not> Lease_MatchInstance y (ls_Resource x) (ls_Instance x)"
    by (auto simp: Lease_MatchInstance_def intro: subject_t.equality)
  with Cons show ?case by simp
qed

lemma Set_Index_split:
  "distinct (map ls_Subject (pre @ x # suf)) \<Longrightarrow>
   Set_Index (pre @ x # suf) (ls_Resource x) (ls_Instance x) = int (length pre)"
  using Set_Index_from_split [of pre x suf 0] by (simp add: Set_Index_def)

lemma MemProv_apply_update:
  assumes "mset xs = mset (pre @ x # suf)" and "distinct (map ls_Subject (pre @ x # suf))"
  shows "mset (MemProv_apply xs (update_op x l)) = mset (pre @ l # suf)"
    and "mset (MemProv_apply xs (delete_op x)) = mset (pre @ suf)"
proof -
  have "x \<in> set xs" using mset_eq_set [OF assms(1)] by simp
  then obtain ys zs where xs: "xs = ys @ x # zs" by (blast dest: split_list)
  have d: "distinct (map ls_Subject (ys @ x # zs))"
    using mset_eq_distinct_map [OF assms(1), of ls_Subject] assms(2) xs by simp
  have rest: "mset (ys @ zs) = mset (pre @ suf)" using assms(1) xs by simp
  show "mset (MemProv_apply xs (update_op x l)) = mset (pre @ l # suf)"
    using rest Set_Index_split [OF d] by (simp add: MemProv_apply_def update_op_def xs)
  show "mset (MemProv_apply xs (delete_op x)) = mset (pre @ suf)"
    using rest Set_Index_split [OF d] by (simp add: MemProv_apply_def delete_op_def xs)
qed

lemma MemProv_replays:
  "replays base ops cur \<Longrightarrow> mset xs = mset base \<Longrightarrow> mset (foldl MemProv_apply xs ops) = mset cur"
proof (induction rule: replays.induct)
  case (update ops pre x suf l)
  then show ?case using MemProv_apply_update(1) replays_distinct [OF update(1)] by simp
next
  case (delete ops pre x suf)
  then show ?case using MemProv_apply_update(2) replays_distinct [OF delete(1)] by simp
qed (simp_all add: MemProv_apply_def create_op_def)

section \<open>The provider contract\<close>

definition mem_content :: "memprov \<Rightarrow> string \<Rightarrow> leases" where
  "mem_content p res = (case map_of p res of Some page \<Rightarrow> pg_leases page | None \<Rightarrow> [])"

definition mem_revision :: "memprov \<Rightarrow> string \<Rightarrow> 64 word" where
  "mem_revision p res = (case map_of p res of Some page \<Rightarrow> pg_revision page | None \<Rightarrow> 0)"

lemma mem_put [simp]:
  "mem_content (gm_put p res page) res' = (if res' = res then pg_leases page else mem_content p res')"
  "mem_revision (gm_put p res page) res' = (if res' = res then pg_revision page else mem_revision p res')"
  by (simp_all add: mem_content_def mem_revision_def gm_put_def update_conv')

lemma MemProv_leasePage_spec:
  assumes "MemProv_leasePage p res = (p', page)"
  shows "mem_content p' = mem_content p" and "mem_revision p' = mem_revision p"
    and "pg_leases page = mem_content p res" and "pg_revision page = mem_revision p res"
proof -
  have "mem_content p res = []" "mem_revision p res = 0" if "map_of p res = None"
    using that by (simp_all add: mem_content_def mem_revision_def)
  then have new: "mem_content (gm_put p res new_leasePage) = mem_content p"
    "mem_revision (gm_put p res new_leasePage) = mem_revision p" if "map_of p res = None"
    using that by (auto simp: fun_eq_iff new_leasePage_def)
  show "mem_content p' = mem_content p" "mem_revision p' = mem_revision p"
    "pg_leases page = mem_content p res" "pg_revision page = mem_revision p res"
    using assms new
    by (auto simp: MemProv_leasePage_def mem_content_def [of _ res] mem_revision_def [of _ res]
        new_leasePage_def split: option.splits)
qed

lemma MemProv_reliable_store:
  assumes srt: "lease_sorter srt"
  shows "reliable_store (MemProv srt) (\<lambda>_. True) mem_content mem_revision"
proof (unfold_locales, goal_cases)
  case (1 p p' r)
  then show ?case by (simp add: MemProv_def MemProv_LeaseResources_def)
next
  case (2 p res p' r)
  then show ?case using MemProv_leasePage_spec
    by (fastforce simp: MemProv_def MemProv_LeaseView_def split: prod.splits)
next
  case (3 p tx)
  then show ?case by (simp add: MemProv_def MemProv_LeaseCommit_def)
next
  case (4 p tx)
  then show ?case using MemProv_leasePage_spec(4)
    by (fastforce simp: MemProv_def MemProv_LeaseCommit_def Let_def split: prod.splits)
next
  case (5 p tx p' e)
  then show ?case using MemProv_leasePage_spec
    by (auto simp: MemProv_def MemProv_LeaseCommit_def Let_def split: prod.splits if_splits)
next
  case (6 p tx p')
  obtain p1 page where pg: "MemProv_leasePage p (tx_resource tx) = (p1, page)" by fastforce
  note spec = MemProv_leasePage_spec [OF pg]
  from 6(2,3) pg have p': "p' = gm_put p1 (tx_resource tx) \<lparr>pg_revision = pg_revision page + 1,
      pg_leases = srt (foldl MemProv_apply (pg_leases page) (tx_ops tx))\<rparr>"
    by (auto simp: MemProv_def MemProv_LeaseCommit_def Let_def split: if_splits)
  show ?case
    using MemProv_replays [OF 6(4), of "pg_leases page"] spec
      lease_sorter.mset_srt [OF srt] lease_sorter.srt_in_order [OF srt]
    by (simp add: p')
next
  case (7 p res)
  then show ?case using MemProv_leasePage_spec
    by (fastforce simp: MemProv_def MemProv_LeaseView_def split: prod.splits)
next
  case (8 p tx)
  then show ?case using MemProv_leasePage_spec(4)
    by (fastforce simp: MemProv_def MemProv_LeaseCommit_def Let_def split: prod.splits)
qed

interpretation mem: reliable_store "MemProv insertionSort" "\<lambda>_. True" mem_content mem_revision
  by (rule MemProv_reliable_store) (rule goSort.lease_sorter_axioms)

end
