(* ===== verification/ServerInv.thy ===== *)
theory ServerInv
  imports Server MemProv
begin

text \<open>
  The invariant of the guardian's stored leases and the proof that every server operation
  keeps it, on every provider that meets the \<open>lease_store\<close> contract and under any
  interference of other requests that keeps it too. \<open>page_inv\<close> speaks about the leases of
  one resource under the terms of its policies (one strategy, a largest limit): subjects are
  distinct and belong to the resource, statuses are known, and consumption stays within the limit.
\<close>

section \<open>The invariant of one resource\<close>

text \<open>
  The terms a deployment is run under: the strategy of each resource, the largest limit any of
  its policies sets, and the host names requests may carry.
\<close>

record terms =
  tm_Strategy :: "string \<Rightarrow> strategy"
  tm_Limit :: "string \<Rightarrow> uint"
  tm_Host :: "string \<Rightarrow> bool"

definition lease_ok :: "terms \<Rightarrow> string \<Rightarrow> lease \<Rightarrow> bool" where
  "lease_ok T res l \<longleftrightarrow> ls_Resource l = res \<and> clean l \<and>
     ls_Status l \<in> {Active, Released, Queued} \<and>
     ls_Strategy l = tm_Strategy T res \<and> ls_Limit l \<le> tm_Limit T res \<and> tm_Host T (inst_Host (ls_Instance l))"

definition page_inv :: "terms \<Rightarrow> string \<Rightarrow> leases \<Rightarrow> bool" where
  "page_inv T res xs \<longleftrightarrow> distinct (map ls_Subject xs) \<and> (\<forall>l \<in> set xs. lease_ok T res l) \<and>
     consumption (tm_Strategy T res) xs \<le> tm_Limit T res"

definition page_ok :: "terms \<Rightarrow> string \<Rightarrow> leases \<Rightarrow> bool" where
  "page_ok T res xs \<longleftrightarrow> in_order xs \<and> page_inv T res xs"

lemma page_inv_mset: "page_inv T res xs \<Longrightarrow> mset ys = mset xs \<Longrightarrow> page_inv T res ys"
  using mset_eq_distinct_map [of ys xs ls_Subject] mset_eq_set [of ys xs]
    consumption_mset [of ys xs "tm_Strategy T res"]
  by (simp add: page_inv_def)

lemma page_ok_mset: "page_ok T res xs \<Longrightarrow> mset ys = mset xs \<Longrightarrow> in_order ys \<Longrightarrow> page_ok T res ys"
  using page_inv_mset by (auto simp: page_ok_def)

lemma page_ok_srt: "lease_sorter srt \<Longrightarrow> page_inv T res xs \<Longrightarrow> page_ok T res (srt xs)"
  using page_inv_mset [of T res xs "srt xs"]
  by (simp add: page_ok_def lease_sorter.mset_srt lease_sorter.srt_in_order)

lemma page_ok_Nil: "page_ok T res []"
  by (simp add: page_ok_def page_inv_def consumption_def)

lemma page_inv_replace:
  assumes "page_inv T res (pre @ e # suf)" and "lease_ok T res l"
    and "ls_Subject l \<notin> subjects (pre @ suf)"
    and "consumption (tm_Strategy T res) (pre @ l # suf) \<le> tm_Limit T res"
  shows "page_inv T res (pre @ l # suf)"
  using assms by (auto simp: page_inv_def)

lemma consumption_replace:
  assumes "ls_HostUser l = ls_HostUser e" and "Lease_Consumptive l \<Longrightarrow> Lease_Consumptive e"
  shows "consumption strat (pre @ l # suf) \<le> consumption strat (pre @ e # suf)"
  by (rule consumption_mono) (use assms in \<open>auto split: if_splits\<close>)

section \<open>Refresh keeps the invariant\<close>

lemma lease_ok_demoted: "lease_ok T res l \<Longrightarrow> lease_ok T res (demoted l)"
  and lease_ok_promoted: "lease_ok T res l \<Longrightarrow> ls_Status l = Queued \<Longrightarrow> lease_ok T res (promoted l)"
  by (auto simp: lease_ok_def clean_def)

lemma Refresh_page:
  assumes srt: "lease_sorter srt" and R: "Refresh srt tx at = Inr (acc, tx')"
    and page: "page_ok T (tx_resource tx) (tx_leases tx)"
    and base: "replays base (tx_ops tx) (tx_leases tx)"
  shows "page_ok T (tx_resource tx) (tx_leases tx') \<and> replays base (tx_ops tx') (tx_leases tx') \<and>
     acc_ok acc (tx_leases tx') \<and> tx_resource tx' = tx_resource tx \<and> tx_revision tx' = tx_revision tx"
proof -
  let ?r = "tx_resource tx"
  have rep: "replays base (tx_ops tx') (tx_leases tx')" by (rule Refresh_replays [OF srt R base])
  have all: "\<forall>l \<in> set (tx_leases tx'). lease_ok T ?r l"
    by (rule Refresh_all [OF srt R]) (use page in \<open>auto simp: page_ok_def page_inv_def lease_ok_demoted lease_ok_promoted\<close>)
  have "consumption (tm_Strategy T ?r) (tx_leases tx') \<le> max (tm_Limit T ?r) (consumption (tm_Strategy T ?r) (tx_leases tx))"
    by (rule Refresh_within [OF srt R])
      (use page in \<open>auto simp: page_ok_def page_inv_def lease_ok_def prod_eq_iff\<close>)
  with page have "consumption (tm_Strategy T ?r) (tx_leases tx') \<le> tm_Limit T ?r"
    by (simp add: page_ok_def page_inv_def)
  with all replays_distinct [OF rep] Refresh_total [OF srt, of tx at] R rep show ?thesis
    by (auto simp: page_ok_def page_inv_def)
qed

section \<open>Updates of one lease\<close>

lemma map_match_split:
  assumes "distinct (map ls_Subject (pre @ e # suf))" and "ls_Resource e = res"
  shows "map (\<lambda>x. if Lease_MatchInstance x res (ls_Instance e) then l else x) (pre @ e # suf) = pre @ l # suf"
    and "concat (map (\<lambda>x. if Lease_MatchInstance x res (ls_Instance e) then [update_op x l] else []) (pre @ e # suf)) =
      [update_op e l]"
proof -
  have no: "\<not> Lease_MatchInstance x res (ls_Instance e)" if "x \<in> set pre \<union> set suf" for x
  proof
    assume "Lease_MatchInstance x res (ls_Instance e)"
    then have "ls_Subject x = ls_Subject e"
      using assms(2) by (auto simp: Lease_MatchInstance_def intro: subject_t.equality)
    with that assms(1) show False by (force simp: image_iff)
  qed
  have yes: "Lease_MatchInstance e res (ls_Instance e)" using assms(2) by (simp add: Lease_MatchInstance_def)
  have m: "map (\<lambda>x. if Lease_MatchInstance x res (ls_Instance e) then l else x) xs = xs"
    and c: "concat (map (\<lambda>x. if Lease_MatchInstance x res (ls_Instance e) then [update_op x l] else []) xs) = []"
    if "set xs \<subseteq> set pre \<union> set suf" for xs
    using that no by (auto intro!: map_idI)
  show "map (\<lambda>x. if Lease_MatchInstance x res (ls_Instance e) then l else x) (pre @ e # suf) = pre @ l # suf"
    "concat (map (\<lambda>x. if Lease_MatchInstance x res (ls_Instance e) then [update_op x l] else []) (pre @ e # suf)) =
      [update_op e l]"
    by (simp_all add: yes m c)
qed

lemma Tx_Update_page:
  assumes srt: "lease_sorter srt" and page: "page_ok T (tx_resource tx) (tx_leases tx)"
    and base: "replays base (tx_ops tx) (tx_leases tx)"
    and e: "e \<in> set (tx_leases tx)" and l: "lease_ok T (tx_resource tx) l"
    and fresh: "\<And>x. x \<in> set (tx_leases tx) \<Longrightarrow> ls_Subject x = ls_Subject l \<Longrightarrow> x = e"
    and hu: "ls_HostUser l = ls_HostUser e" and cons: "Lease_Consumptive l \<Longrightarrow> Lease_Consumptive e"
  shows "\<exists>tx'. Tx_Update srt (ls_Instance e) l tx = Inr tx' \<and> page_ok T (tx_resource tx) (tx_leases tx') \<and>
      replays base (tx_ops tx') (tx_leases tx') \<and> tx_resource tx' = tx_resource tx \<and>
      tx_revision tx' = tx_revision tx \<and> l \<in> set (tx_leases tx') \<and> tx_ops tx' \<noteq> []"
proof -
  from e obtain pre suf where xs: "tx_leases tx = pre @ e # suf" by (blast dest: split_list)
  have d: "distinct (map ls_Subject (pre @ e # suf))" using page xs by (simp add: page_ok_def page_inv_def)
  have res: "ls_Resource e = tx_resource tx" using page e by (auto simp: page_ok_def page_inv_def lease_ok_def)
  note match = map_match_split [OF d res]
  have notin: "ls_Subject l \<notin> subjects (pre @ suf)"
  proof
    assume "ls_Subject l \<in> subjects (pre @ suf)"
    then obtain x where x: "x \<in> set (pre @ suf)" "ls_Subject x = ls_Subject l" by (metis imageE)
    with fresh [of x] xs have "x = e" by auto
    with x(1) d show False by auto
  qed
  have inv: "page_inv T (tx_resource tx) (pre @ l # suf)"
  proof (rule page_inv_replace [OF _ l notin])
    show "page_inv T (tx_resource tx) (pre @ e # suf)" using page xs by (simp add: page_ok_def)
    then show "consumption (tm_Strategy T (tx_resource tx)) (pre @ l # suf) \<le> tm_Limit T (tx_resource tx)"
      using consumption_replace [OF hu cons, of "tm_Strategy T (tx_resource tx)" pre suf]
      by (simp add: page_inv_def)
  qed
  have "replays base (tx_ops tx @ [update_op e l]) (pre @ l # suf)"
    using base xs notin by (intro replays.update) simp_all
  then have "replays base (tx_ops tx @ [update_op e l]) (srt (pre @ l # suf))"
    by (rule replays.perm) (rule lease_sorter.mset_srt [OF srt])
  then show ?thesis
    using page_ok_srt [OF srt inv] lease_sorter.set_srt [OF srt]
    by (simp add: Tx_Update_eq xs match del: map_append concat_append)
qed

lemma Tx_Create_page:
  assumes srt: "lease_sorter srt" and page: "page_ok T (tx_resource tx) (tx_leases tx)"
    and base: "replays base (tx_ops tx) (tx_leases tx)" and l: "lease_ok T (tx_resource tx) l"
    and fresh: "ls_Subject l \<notin> subjects (tx_leases tx)"
    and cons: "consumption (tm_Strategy T (tx_resource tx)) (tx_leases tx @ [l]) \<le> tm_Limit T (tx_resource tx)"
  shows "page_ok T (tx_resource tx) (tx_leases (Tx_Create srt l tx)) \<and>
      replays base (tx_ops (Tx_Create srt l tx)) (tx_leases (Tx_Create srt l tx)) \<and>
      l \<in> set (tx_leases (Tx_Create srt l tx))"
proof -
  have "page_inv T (tx_resource tx) (tx_leases tx @ [l])"
    using page l fresh cons by (auto simp: page_ok_def page_inv_def)
  moreover have "replays base (tx_ops tx @ [create_op l]) (srt (tx_leases tx @ [l]))"
    by (rule replays.perm [OF replays.create [OF base fresh]]) (rule lease_sorter.mset_srt [OF srt])
  ultimately show ?thesis
    using page_ok_srt [OF srt] lease_sorter.set_srt [OF srt] by (simp add: Tx_Create_def)
qed

section \<open>Acquisition keeps the invariant\<close>

lemma new_lease_simps [simp]:
  "ls_Subject (new_lease subject props pols now) = subject"
  "ls_Released (new_lease subject props pols now) = 0"
  "ls_Strategy (new_lease subject props pols now) = PolicySet_Strategy pols"
  "ls_Limit (new_lease subject props pols now) = PolicySet_Limit pols"
  "ls_Renewed (new_lease subject props pols now) = now"
  "ls_Started (new_lease subject props pols now) = now"
  "ls_Duration (new_lease subject props pols now) = PolicySet_Duration pols"
  by (simp_all add: new_lease_def refresh_override_def Let_def)

lemma subject_eta [simp]: "\<lparr>sub_Resource = sub_Resource s, sub_Instance = sub_Instance s\<rparr> = (s :: subject_t)"
  by (cases s) simp

lemma Tx_Instance_Some:
  "Tx_Instance tx inst = Some e \<Longrightarrow>
   e \<in> set (tx_leases tx) \<and> ls_Subject e = \<lparr>sub_Resource = tx_resource tx, sub_Instance = inst\<rparr>"
  using Set_Instance_Some [of "tx_leases tx" "tx_resource tx" inst e]
  by (cases "ls_Subject e") (simp add: Tx_Instance_def)

lemma Tx_Instance_None:
  "Tx_Instance tx inst = None \<Longrightarrow> \<lparr>sub_Resource = tx_resource tx, sub_Instance = inst\<rparr> \<notin> subjects (tx_leases tx)"
  by (auto simp: Tx_Instance_def Set_Instance_None MatchInstance_Subject)

lemma page_subject_inj:
  assumes "page_ok T res xs" and "x \<in> set xs" and "e \<in> set xs" and "ls_Subject x = ls_Subject e"
  shows "x = e"
proof -
  have "inj_on ls_Subject (set xs)" using assms(1) by (simp add: page_ok_def page_inv_def distinct_map)
  with assms(2-4) show ?thesis by (simp add: inj_on_def)
qed

definition tx_good :: "terms \<Rightarrow> string \<Rightarrow> 64 word \<Rightarrow> leases \<Rightarrow> tx \<Rightarrow> bool" where
  "tx_good T res rv base tx \<longleftrightarrow> page_ok T res (tx_leases tx) \<and> replays base (tx_ops tx) (tx_leases tx) \<and>
     tx_resource tx = res \<and> tx_revision tx = rv"

lemma tx_good_NewTx: "page_ok T res xs \<Longrightarrow> tx_good T res rv xs (NewTx res rv xs)"
  by (simp add: tx_good_def NewTx_def page_ok_def page_inv_def replays.start)

lemma tx_good_Refresh:
  "lease_sorter srt \<Longrightarrow> tx_good T res rv base tx \<Longrightarrow> Refresh srt tx at = Inr (acc, tx') \<Longrightarrow>
   tx_good T res rv base tx' \<and> acc_ok acc (tx_leases tx')"
  using Refresh_page [of srt tx at acc tx' T base] by (simp add: tx_good_def)

text \<open>What one attempt of \<^verbatim>\<open>acquire\<close> produces, case by case.\<close>

lemma acquire_renew:
  assumes srt: "lease_sorter srt" and good: "tx_good T (sub_Resource subject) rv base tx"
    and found: "Tx_Instance tx (sub_Instance subject) = Some e"
    and l: "ls_Subject l = subject" "lease_ok T (sub_Resource subject) l"
    and cons: "Lease_Consumptive l \<Longrightarrow> Lease_Consumptive e"
  shows "\<exists>tx'. Tx_Update srt (ls_Instance e) l tx = Inr tx' \<and> tx_good T (sub_Resource subject) rv base tx' \<and>
    l \<in> set (tx_leases tx') \<and> tx_ops tx' \<noteq> []"
proof -
  have r: "tx_resource tx = sub_Resource subject" using good by (simp add: tx_good_def)
  from Tx_Instance_Some [OF found] r l(1) have e: "e \<in> set (tx_leases tx)" "ls_Subject e = ls_Subject l"
    by auto
  have page: "page_ok T (tx_resource tx) (tx_leases tx)" and base: "replays base (tx_ops tx) (tx_leases tx)"
    using good r by (simp_all add: tx_good_def)
  have "x = e" if "x \<in> set (tx_leases tx)" "ls_Subject x = ls_Subject l" for x
    using page_subject_inj [OF page that(1) e(1)] that(2) e(2) by simp
  from Tx_Update_page [OF srt page base e(1) _ this] e(2) l(2) cons r good
  show ?thesis by (auto simp: tx_good_def)
qed

lemma acquire_replace:
  assumes srt: "lease_sorter srt" and good: "tx_good T (sub_Resource subject) rv base tx"
    and new: "Tx_Instance tx (sub_Instance subject) = None"
    and e: "e \<in> set (tx_leases tx)" "ls_HostUser e = Subject_HostUser subject" "Lease_Consumptive e"
    and l: "ls_Subject l = subject" "lease_ok T (sub_Resource subject) l"
  shows "\<exists>tx'. Tx_Update srt (ls_Instance e) l tx = Inr tx' \<and> tx_good T (sub_Resource subject) rv base tx' \<and>
    l \<in> set (tx_leases tx') \<and> tx_ops tx' \<noteq> []"
proof -
  have r: "tx_resource tx = sub_Resource subject" using good by (simp add: tx_good_def)
  have page: "page_ok T (tx_resource tx) (tx_leases tx)" and base: "replays base (tx_ops tx) (tx_leases tx)"
    using good r by (simp_all add: tx_good_def)
  have "subject \<notin> subjects (tx_leases tx)" using Tx_Instance_None [OF new] r by simp
  then have "x = e" if "x \<in> set (tx_leases tx)" "ls_Subject x = ls_Subject l" for x
    using that l(1) by auto
  from Tx_Update_page [OF srt page base e(1) _ this] e(2,3) l r good
  show ?thesis by (auto simp: tx_good_def)
qed

lemma acquire_create:
  assumes srt: "lease_sorter srt" and good: "tx_good T (sub_Resource subject) rv base tx"
    and acc: "acc_ok acc (tx_leases tx)"
    and new: "Tx_Instance tx (sub_Instance subject) = None"
    and T: "tm_Strategy T (sub_Resource subject) = strat" "limit \<le> tm_Limit T (sub_Resource subject)"
    and l: "ls_Subject l = subject" "lease_ok T (sub_Resource subject) l"
    and can: "Lease_Consumptive l \<Longrightarrow>
      CanActivate strat (Accumulator_Active acc (Subject_HostUser subject)) (Accumulator_Total acc strat) limit"
  shows "tx_good T (sub_Resource subject) rv base (Tx_Create srt l tx) \<and>
    l \<in> set (tx_leases (Tx_Create srt l tx)) \<and> tx_ops (Tx_Create srt l tx) \<noteq> []"
proof -
  have r: "tx_resource tx = sub_Resource subject" using good by (simp add: tx_good_def)
  have page: "page_ok T (tx_resource tx) (tx_leases tx)" and base: "replays base (tx_ops tx) (tx_leases tx)"
    using good r by (simp_all add: tx_good_def)
  have fresh: "ls_Subject l \<notin> subjects (tx_leases tx)" using Tx_Instance_None [OF new] r l(1) by simp
  have "consumption strat (tx_leases tx @ [l]) \<le> tm_Limit T (sub_Resource subject)"
  proof (cases "Lease_Consumptive l")
    case True
    from can [OF True] have "CanActivate strat (Accumulator_Active acc (Subject_HostUser subject))
        (consumption strat (tx_leases tx)) limit"
      by (simp add: acc_ok_Total [OF acc])
    then have "consumption strat (tx_leases tx @ [l]) \<le> limit"
      by (rule CanActivate_consumption) (use acc l(1) in \<open>auto simp: acc_ok_def Accumulator_Active_def consumers_iff\<close>)
    with T(2) show ?thesis by simp
  next
    case False
    then show ?thesis
      using consumption_none [of "[l]" strat "tx_leases tx"] page r T by (simp add: page_ok_def page_inv_def)
  qed
  with Tx_Create_page [OF srt page base _ fresh] l(2) r T good
  show ?thesis by (simp add: tx_good_def) (simp add: Tx_Create_def)
qed

lemma replaceable_members:
  assumes "e \<in> set (Set_Status (Tx_HostUser tx host user) Released)"
  shows "e \<in> set (tx_leases tx)" "ls_Status e = Released" "inst_Host (ls_Instance e) = host"
    "inst_User (ls_Instance e) = user"
  using assms
  by (auto simp: Set_Status_def Tx_HostUser_def Set_HostUser_def Lease_MatchHostUser_def Lease_MatchStatus_def)

text \<open>
  One attempt of \<^verbatim>\<open>acquire\<close>. \<open>pols_terms\<close> says that the policies the request matched are
  those the terms of the resource come from; \<open>renewed\<close> is the lease a renewal of \<open>e\<close> writes.
\<close>

definition pols_terms :: "terms \<Rightarrow> subject_t \<Rightarrow> policies \<Rightarrow> bool" where
  "pols_terms T s pols \<longleftrightarrow> PolicySet_Strategy pols = tm_Strategy T (sub_Resource s) \<and>
     PolicySet_Limit pols \<le> tm_Limit T (sub_Resource s) \<and> tm_Host T (inst_Host (sub_Instance s))"

definition renewed :: "lease \<Rightarrow> bool \<Rightarrow> lease \<Rightarrow> lease" where
  "renewed new fits e = (if ls_Status e = Released then new\<lparr>ls_Status := if fits then Active else Queued\<rparr>
     else new\<lparr>ls_Status := ls_Status e, ls_Started := ls_Started e\<rparr>)"

lemma lease_ok_new:
  assumes "pols_terms T subject pols"
  shows "st \<in> {Active, Released, Queued} \<Longrightarrow>
      lease_ok T (sub_Resource subject) ((new_lease subject props pols now)\<lparr>ls_Status := st\<rparr>)"
    and "ls_Status e \<in> {Active, Released, Queued} \<Longrightarrow>
      lease_ok T (sub_Resource subject) (renewed (new_lease subject props pols now) fits e)"
  using assms by (auto simp: lease_ok_def clean_def renewed_def pols_terms_def)

lemma renewed_simps [simp]:
  "ls_Subject (renewed new fits e) = ls_Subject new"
  "Lease_Consumptive (renewed new fits e) \<Longrightarrow> Lease_Consumptive e"
  by (auto simp: renewed_def Lease_Consumptive_def split: if_splits)

abbreviation replaceable :: "tx \<Rightarrow> subject_t \<Rightarrow> leases" where
  "replaceable tx s \<equiv> Set_Status (Tx_HostUser tx (inst_Host (sub_Instance s)) (inst_User (sub_Instance s))) Released"

lemma acquire_body_cases:
  fixes subject props pols now
  defines "new \<equiv> new_lease subject props pols now" and "strat \<equiv> PolicySet_Strategy pols"
    and "limit \<equiv> PolicySet_Limit pols" and "hu \<equiv> Subject_HostUser subject"
  assumes R: "Refresh srt (NewTx (sub_Resource subject) rv xs) now = Inr (acc, tx)"
  shows "Tx_Instance tx (sub_Instance subject) = Some e \<Longrightarrow>
      acquire_body srt subject props pols now rv xs =
        go_bind (Tx_Update srt (ls_Instance e) (renewed new (Accumulator_Total acc strat \<le> limit) e) tx)
          (\<lambda>tx. Inr (renewed new (Accumulator_Total acc strat \<le> limit) e, tx))"
    and "Tx_Instance tx (sub_Instance subject) = None \<Longrightarrow>
      0 < Accumulator_Released acc hu \<Longrightarrow> Accumulator_Total acc strat \<le> limit \<Longrightarrow>
      acquire_body srt subject props pols now rv xs =
        (if length (replaceable tx subject) \<noteq> Accumulator_Released acc hu then Inl released_count_panic
         else go_bind (Tx_Update srt (ls_Instance (replaceable tx subject ! (Accumulator_Released acc hu - 1)))
                (new\<lparr>ls_Status := Active\<rparr>) tx) (\<lambda>tx. Inr (new\<lparr>ls_Status := Active\<rparr>, tx)))"
    and "Tx_Instance tx (sub_Instance subject) = None \<Longrightarrow>
      \<not> (0 < Accumulator_Released acc hu \<and> Accumulator_Total acc strat \<le> limit) \<Longrightarrow>
      acquire_body srt subject props pols now rv xs =
        (let st = if CanActivate strat (Accumulator_Active acc hu) (Accumulator_Total acc strat) limit
                  then Active else Queued
         in Inr (new\<lparr>ls_Status := st\<rparr>, Tx_Create srt (new\<lparr>ls_Status := st\<rparr>) tx))"
  using R by (auto simp: acquire_body_def Let_def renewed_def new_def strat_def limit_def hu_def)

lemma acquire_body_page:
  assumes srt: "lease_sorter srt" and page: "page_ok T (sub_Resource subject) xs"
    and T: "pols_terms T subject pols"
    and B: "acquire_body srt subject props pols now rv xs = Inr (ls, tx)"
  shows "tx_good T (sub_Resource subject) rv xs tx \<and> ls \<in> set (tx_leases tx) \<and>
    ls_Subject ls = subject \<and> tx_ops tx \<noteq> []"
proof -
  let ?res = "sub_Resource subject" and ?new = "new_lease subject props pols now"
  obtain acc tx1 where R: "Refresh srt (NewTx ?res rv xs) now = Inr (acc, tx1)"
    using Refresh_total [OF srt] by blast
  let ?n = "Accumulator_Released acc (Subject_HostUser subject)"
  let ?fits = "Accumulator_Total acc (PolicySet_Strategy pols) \<le> PolicySet_Limit pols"
  from tx_good_Refresh [OF srt tx_good_NewTx [OF page] R]
  have good: "tx_good T ?res rv xs tx1" and acc: "acc_ok acc (tx_leases tx1)" by auto
  note new_ok = lease_ok_new [where T = T and subject = subject and pols = pols and props = props and now = now, OF T]
    and body = acquire_body_cases [where props = props and pols = pols, OF R]
  consider (renew) e where "Tx_Instance tx1 (sub_Instance subject) = Some e"
    | (replace) "Tx_Instance tx1 (sub_Instance subject) = None" "0 < ?n"
        "Accumulator_Total acc (PolicySet_Strategy pols) \<le> PolicySet_Limit pols"
    | (create) "Tx_Instance tx1 (sub_Instance subject) = None"
        "\<not> (0 < ?n \<and> Accumulator_Total acc (PolicySet_Strategy pols) \<le> PolicySet_Limit pols)"
    by fastforce
  then show ?thesis
  proof cases
    case renew
    have "ls_Status e \<in> {Active, Released, Queued}"
      using good Tx_Instance_Some [OF renew] by (auto simp: tx_good_def page_ok_def page_inv_def lease_ok_def)
    from acquire_renew [OF srt good renew _ new_ok(2) [OF this]] obtain tx'
      where u: "Tx_Update srt (ls_Instance e) (renewed ?new ?fits e) tx1 = Inr tx'"
        and out: "tx_good T ?res rv xs tx'" "renewed ?new ?fits e \<in> set (tx_leases tx')" "tx_ops tx' \<noteq> []"
      by fastforce
    have "ls = renewed ?new ?fits e" "tx = tx'" using B by (simp_all add: body(1) [OF renew] u)
    with out show ?thesis by simp
  next
    case replace
    let ?e = "replaceable tx1 subject ! (?n - 1)"
    from B body(2) [OF replace] have len: "length (replaceable tx1 subject) = ?n" by (auto split: if_splits)
    then have "?e \<in> set (replaceable tx1 subject)" using replace(2) by (intro nth_mem) linarith
    note e = replaceable_members [OF this]
    have "?new\<lparr>ls_Status := Active\<rparr> = ls \<and> (\<exists>tx'. tx = tx' \<and> tx_good T ?res rv xs tx' \<and>
        ?new\<lparr>ls_Status := Active\<rparr> \<in> set (tx_leases tx') \<and> tx_ops tx' \<noteq> [])"
      using acquire_replace [OF srt good replace(1) e(1) _ _ _ new_ok(1) [of Active]] e(2-4) B len
      by (auto simp: body(2) [OF replace] go_bind_eq_Inr Subject_HostUser_def)
    then show ?thesis by auto
  next
    case create
    define st where "st = (if CanActivate (PolicySet_Strategy pols)
        (Accumulator_Active acc (Subject_HostUser subject)) (Accumulator_Total acc (PolicySet_Strategy pols))
        (PolicySet_Limit pols) then Active else Queued)"
    have out: "ls = ?new\<lparr>ls_Status := st\<rparr>" "tx = Tx_Create srt ls tx1"
      using B body(3) [OF create] by (auto simp: Let_def st_def)
    have "tx_good T ?res rv xs (Tx_Create srt ls tx1) \<and> ls \<in> set (tx_leases (Tx_Create srt ls tx1)) \<and>
        tx_ops (Tx_Create srt ls tx1) \<noteq> []"
    proof (rule acquire_create [OF srt good acc create(1), where strat = "PolicySet_Strategy pols"
          and limit = "PolicySet_Limit pols"])
      show "lease_ok T ?res ls" unfolding out(1) by (rule new_ok(1)) (simp add: st_def)
      show "CanActivate (PolicySet_Strategy pols) (Accumulator_Active acc (Subject_HostUser subject))
          (Accumulator_Total acc (PolicySet_Strategy pols)) (PolicySet_Limit pols)" if "Lease_Consumptive ls"
        using that unfolding out(1) st_def by (simp split: if_split_asm)
    qed (use T in \<open>simp_all add: out(1) pols_terms_def\<close>)
    with out show ?thesis by simp
  qed
qed

text \<open>
  The accumulator counts consumers by the string \<^verbatim>\<open>host + " " + user\<close>, the transaction by host
  and user. Where host names hold no space the two agree, and the panic that guards against a
  difference is never reached.
\<close>

definition no_space :: "string \<Rightarrow> bool" where
  "no_space h \<longleftrightarrow> CHR '' '' \<notin> set h"

lemma HostUser_inj:
  assumes "no_space h1" and "no_space h2" and "h1 @ '' '' @ u1 = h2 @ '' '' @ u2"
  shows "h1 = h2 \<and> u1 = u2"
proof -
  have host: "takeWhile (\<lambda>c. c \<noteq> CHR '' '') (h @ CHR '' '' # u) = h" if "no_space h" for h u :: string
    using that by (induction h) (auto simp: no_space_def)
  have "h1 @ CHR '' '' # u1 = h2 @ CHR '' '' # u2" using assms(3) by simp
  then have "takeWhile (\<lambda>c. c \<noteq> CHR '' '') (h1 @ CHR '' '' # u1) =
      takeWhile (\<lambda>c. c \<noteq> CHR '' '') (h2 @ CHR '' '' # u2)" by (rule arg_cong)
  then have "h1 = h2" unfolding host [OF assms(1)] host [OF assms(2)] .
  with assms(3) show ?thesis by simp
qed

lemma one_consumer:
  assumes "no_space (inst_Host (sub_Instance s1))" and "no_space (inst_Host (sub_Instance s2))"
  shows "Subject_HostUser s1 = Subject_HostUser s2 \<longleftrightarrow>
    inst_Host (sub_Instance s1) = inst_Host (sub_Instance s2) \<and> inst_User (sub_Instance s1) = inst_User (sub_Instance s2)"
  using HostUser_inj [OF assms] by (auto simp: Subject_HostUser_def)

lemma replaceable_length:
  assumes "no_space (inst_Host (sub_Instance s))"
    and "\<forall>l \<in> set (tx_leases tx). no_space (inst_Host (ls_Instance l)) \<and> ls_Resource l = tx_resource tx"
  shows "length (replaceable tx s) = n_status Released (Subject_HostUser s) (tx_leases tx)"
proof -
  have "filter (\<lambda>l. Lease_MatchHostUser l (tx_resource tx) (inst_Host (sub_Instance s)) (inst_User (sub_Instance s)) \<and>
        Lease_MatchStatus l Released) (tx_leases tx) =
      filter (\<lambda>l. ls_Status l = Released \<and> ls_HostUser l = Subject_HostUser s) (tx_leases tx)"
    by (rule filter_cong [OF refl])
      (use assms one_consumer [of _ s] in \<open>auto simp: Lease_MatchHostUser_def Lease_MatchStatus_def\<close>)
  then show ?thesis
    by (simp add: Set_Status_def Tx_HostUser_def Set_HostUser_def n_status_def conj_commute)
qed

lemma acquire_body_total:
  assumes srt: "lease_sorter srt" and page: "page_ok T (sub_Resource subject) xs"
    and host: "\<And>h. tm_Host T h \<Longrightarrow> no_space h" "tm_Host T (inst_Host (sub_Instance subject))"
  shows "acquire_body srt subject props pols now rv xs \<noteq> Inl pn"
proof -
  obtain acc tx where R: "Refresh srt (NewTx (sub_Resource subject) rv xs) now = Inr (acc, tx)"
    using Refresh_total [OF srt] by blast
  from tx_good_Refresh [OF srt tx_good_NewTx [OF page] R]
  have good: "tx_good T (sub_Resource subject) rv xs tx" and acc: "acc_ok acc (tx_leases tx)" by auto
  have len: "length (replaceable tx subject) = Accumulator_Released acc (Subject_HostUser subject)"
    using acc good host
    by (subst replaceable_length)
      (auto simp: acc_ok_def Accumulator_Released_def tx_good_def page_ok_def page_inv_def lease_ok_def)
  note body = acquire_body_cases [where props = props and pols = pols, OF R]
  show ?thesis
  proof (cases "Tx_Instance tx (sub_Instance subject)")
    case (Some e)
    then show ?thesis by (simp add: body(1) Tx_Update_eq)
  next
    case None
    then show ?thesis
      by (cases "0 < Accumulator_Released acc (Subject_HostUser subject) \<and>
            Accumulator_Total acc (PolicySet_Strategy pols) \<le> PolicySet_Limit pols")
        (simp_all add: body(2,3) len Tx_Update_eq Let_def)
  qed
qed

end
