(* ===== verification/ServerOps.thy ===== *)
theory ServerOps
  imports ServerInv
begin

text \<open>
  Every operation of the server on a provider that meets the \<open>lease_store\<close> contract. The
  bodies of \<^verbatim>\<open>release\<close> and of the refreshes are shown to keep the invariant of
  \<open>ServerInv\<close>; the locale \<open>guardian\<close> then lifts the bodies to whole operations: the attempt
  loop, \<^verbatim>\<open>acquire\<close>, \<^verbatim>\<open>release\<close>, \<^verbatim>\<open>Purge\<close>, \<^verbatim>\<open>refreshLeases\<close>, the snapshots and the HTTP
  handlers, with other requests committing between a view and its commit.
\<close>

section \<open>Release keeps the invariant\<close>

abbreviation released_at :: "time \<Rightarrow> lease \<Rightarrow> lease" where
  "released_at at l \<equiv> l\<lparr>ls_Status := Released, ls_Released := at\<rparr>"

lemma match_unique:
  assumes "distinct (map ls_Subject (pre @ e # suf))" and "ls_Resource e = res" and "x \<in> set pre \<union> set suf"
  shows "\<not> Lease_MatchInstance x res (ls_Instance e)"
proof
  assume "Lease_MatchInstance x res (ls_Instance e)"
  then have "ls_Subject x = ls_Subject e" using assms(2) by (simp add: MatchInstance_Subject)
  with assms(1,3) show False by (force simp: image_iff)
qed

lemma concat_map_Nil: "concat (map (\<lambda>x. []) xs) = []"
  by (induction xs) simp_all

lemma concat_match_split:
  assumes "distinct (map ls_Subject (pre @ e # suf))" and "ls_Resource e = res"
  shows "concat (map (\<lambda>x. if Lease_MatchInstance x res (ls_Instance e) then f x else g x) (pre @ e # suf)) =
    concat (map g pre) @ f e @ concat (map g suf)"
proof -
  have m: "map (\<lambda>x. if Lease_MatchInstance x res (ls_Instance e) then f x else g x) ys = map g ys"
    if "set ys \<subseteq> set pre \<union> set suf" for ys
    using that match_unique [OF assms] by (intro map_cong) auto
  have "Lease_MatchInstance e res (ls_Instance e)" using assms(2) by (simp add: Lease_MatchInstance_def)
  then show ?thesis by (simp add: m)
qed

lemma concat_match_none:
  assumes "\<forall>x \<in> set xs. \<not> Lease_MatchInstance x res inst"
  shows "concat (map (\<lambda>x. if Lease_MatchInstance x res inst then f x else g x) xs) = concat (map g xs)"
proof -
  have "map (\<lambda>x. if Lease_MatchInstance x res inst then f x else g x) xs = map g xs"
    using assms by (intro map_cong) auto
  then show ?thesis by (simp only:)
qed

text \<open>What \<^verbatim>\<open>Tx.Release\<close> does to the leases of a transaction whose subjects are distinct.\<close>

lemma Tx_Release_absent:
  assumes "Tx_Instance tx inst = None"
  shows "Tx_Release srt inst at tx = Inr (tx\<lparr>tx_leases := srt (tx_leases tx)\<rparr>)"
proof -
  have "\<forall>x \<in> set (tx_leases tx). \<not> Lease_MatchInstance x (tx_resource tx) inst"
    using assms by (simp add: Tx_Instance_def Set_Instance_None)
  then show ?thesis by (simp add: Tx_Release_eq concat_match_none concat_map_single concat_map_Nil)
qed

lemma Tx_Release_present:
  assumes "distinct (map ls_Subject (pre @ e # suf))" and "ls_Resource e = tx_resource tx"
    and "tx_leases tx = pre @ e # suf"
  shows "ls_Status e = Active \<Longrightarrow> Tx_Release srt (ls_Instance e) at tx =
      Inr (tx\<lparr>tx_leases := srt (pre @ released_at at e # suf),
              tx_ops := tx_ops tx @ [update_op e (released_at at e)]\<rparr>)"
    and "ls_Status e \<noteq> Active \<Longrightarrow> Tx_Release srt (ls_Instance e) at tx =
      Inr (tx\<lparr>tx_leases := srt (pre @ suf), tx_ops := tx_ops tx @ [delete_op e]\<rparr>)"
  by (simp_all add: Tx_Release_eq assms(3) concat_match_split [OF assms(1,2)] concat_map_single concat_map_Nil
      del: map_append concat_append)

lemma tx_good_srt:
  assumes "lease_sorter srt" and "tx_good T res rv base tx"
    and "replays base ops xs" and "page_inv T res xs"
  shows "tx_good T res rv base (tx\<lparr>tx_leases := srt xs, tx_ops := ops\<rparr>)"
  using assms page_ok_srt [OF assms(1,4)] replays.perm [OF assms(3) lease_sorter.mset_srt [OF assms(1)]]
  by (simp add: tx_good_def)

lemma tx_good_Release:
  assumes srt: "lease_sorter srt" and good: "tx_good T res rv base tx"
  shows "\<exists>tx'. Tx_Release srt inst at tx = Inr tx' \<and> tx_good T res rv base tx'"
proof (cases "Tx_Instance tx inst")
  case None
  have "tx_good T res rv base (tx\<lparr>tx_leases := srt (tx_leases tx), tx_ops := tx_ops tx\<rparr>)"
    by (rule tx_good_srt [OF srt good]) (use good in \<open>simp_all add: tx_good_def page_ok_def\<close>)
  then show ?thesis by (simp add: Tx_Release_absent [OF None])
next
  case (Some e)
  from Tx_Instance_Some [OF Some] good have e: "e \<in> set (tx_leases tx)" "ls_Resource e = tx_resource tx" "ls_Instance e = inst"
    by auto
  from e(1) obtain pre suf where xs: "tx_leases tx = pre @ e # suf" by (blast dest: split_list)
  have base: "replays base (tx_ops tx) (pre @ e # suf)" and inv: "page_inv T res (pre @ e # suf)"
    and d: "distinct (map ls_Subject (pre @ e # suf))"
    using good xs by (auto simp: tx_good_def page_ok_def page_inv_def)
  note rel = Tx_Release_present [OF d e(2) xs, unfolded e(3)]
  show ?thesis
  proof (cases "ls_Status e = Active")
    case True
    have "page_inv T res (pre @ released_at at e # suf)"
      by (rule page_inv_replace [OF inv])
        (use True inv d in \<open>auto simp: page_inv_def lease_ok_def clean_def consumption_def\<close>)
    with tx_good_srt [OF srt good replays_update_same [OF base]] rel(1) [OF True] show ?thesis by simp
  next
    case False
    have "page_inv T res (pre @ suf)"
      using inv d consumption_drop [of "tm_Strategy T res" pre suf e] by (auto simp: page_inv_def)
    with tx_good_srt [OF srt good replays.delete [OF base]] rel(2) [OF False] show ?thesis by simp
  qed
qed

lemma release_body_page:
  assumes srt: "lease_sorter srt" and page: "page_ok T (sub_Resource subject) xs"
  shows "\<exists>l tx. release_body srt subject now rv xs = Inr (l, tx) \<and> tx_good T (sub_Resource subject) rv xs tx"
proof -
  obtain acc tx1 where R1: "Refresh srt (NewTx (sub_Resource subject) rv xs) now = Inr (acc, tx1)"
    using Refresh_total [OF srt] by blast
  from tx_good_Release [OF srt conjunct1 [OF tx_good_Refresh [OF srt tx_good_NewTx [OF page] R1]]]
  obtain tx2 where R2: "Tx_Release srt (sub_Instance subject) now tx1 = Inr tx2"
    and good2: "tx_good T (sub_Resource subject) rv xs tx2" by blast
  obtain acc3 tx3 where R3: "Refresh srt tx2 now = Inr (acc3, tx3)" using Refresh_total [OF srt] by blast
  from tx_good_Refresh [OF srt good2 R3] R1 R2 R3 show ?thesis by (simp add: release_body_def Let_def)
qed

lemma refresh_tx_page:
  assumes srt: "lease_sorter srt" and page: "page_ok T res xs"
  shows "\<exists>tx. refresh_tx srt res now rv xs = Inr ((), tx) \<and> tx_good T res rv xs tx"
proof -
  obtain acc tx where R: "Refresh srt (NewTx res rv xs) now = Inr (acc, tx)"
    using Refresh_total [OF srt] by blast
  from tx_good_Refresh [OF srt tx_good_NewTx [OF page] R] R show ?thesis by (simp add: refresh_tx_def)
qed

text \<open>A snapshot that a client may be sent: leases within the terms, with their statistics.\<close>

definition snap_ok :: "terms \<Rightarrow> snapshot \<Rightarrow> bool" where
  "snap_ok T snap \<longleftrightarrow> page_ok T (sn_Resource snap) (sn_Leases snap) \<and> sn_Stats snap = Set_Stats (sn_Leases snap)"

lemma tx_good_snapshot: "tx_good T res rv xs tx \<Longrightarrow> snap_ok T (tx_snapshot tx)"
  by (auto simp: tx_good_def tx_snapshot_def snap_ok_def)

section \<open>Operations on a store\<close>

definition store_ok :: "terms \<Rightarrow> ('p \<Rightarrow> bool) \<Rightarrow> ('p \<Rightarrow> string \<Rightarrow> leases) \<Rightarrow> 'p \<Rightarrow> bool" where
  "store_ok T invar content p \<longleftrightarrow> invar p \<and> (\<forall>res. page_ok T res (content p res))"

text \<open>
  What other requests may do to the store between a view and the commit that follows it: keep
  the invariant, and change the revision of a resource whose leases they change.
\<close>

definition env_ok ::
  "terms \<Rightarrow> ('p \<Rightarrow> bool) \<Rightarrow> ('p \<Rightarrow> string \<Rightarrow> leases) \<Rightarrow> ('p \<Rightarrow> string \<Rightarrow> 64 word) \<Rightarrow> ('p \<Rightarrow> 'p) \<Rightarrow> bool" where
  "env_ok T invar content revision e \<longleftrightarrow> (\<forall>p. store_ok T invar content p \<longrightarrow>
     store_ok T invar content (e p) \<and>
     (\<forall>res. revision (e p) res = revision p res \<longrightarrow> content (e p) res = content p res))"

lemma replays_Nil: "replays base ops cur \<Longrightarrow> ops = [] \<Longrightarrow> mset cur = mset base"
  by (induction rule: replays.induct) simp_all

locale guardian = lease_store prov invar content revision
  for prov :: "'p provider" and invar :: "'p \<Rightarrow> bool"
    and content :: "'p \<Rightarrow> string \<Rightarrow> leases" and revision :: "'p \<Rightarrow> string \<Rightarrow> 64 word" +
  fixes srt :: sorter and T :: terms
  assumes srt: "lease_sorter srt"
begin

abbreviation ok :: "'p \<Rightarrow> bool" where "ok \<equiv> store_ok T invar content"

abbreviation calm :: "('p \<Rightarrow> 'p) \<Rightarrow> bool" where "calm \<equiv> env_ok T invar content revision"

lemma view_ok:
  assumes "ok p" and "pv_LeaseView prov p res = (p', r)"
  shows "ok p'" and "content p' = content p" and "revision p' = revision p"
    and "r = Inr (rv, xs) \<Longrightarrow> rv = revision p' res \<and> xs = content p' res \<and> page_ok T res xs"
  using assms view [of p res p' r] by (auto simp: store_ok_def)

lemma commit_good:
  assumes p: "ok p" and e: "calm e" and good: "tx_good T res (revision p res) (content p res) tx"
    and c: "pv_LeaseCommit prov (e p) tx = (p', r)"
  shows "ok p'" and "r = None \<Longrightarrow> tx_ops tx \<noteq> [] \<Longrightarrow> mset (content p' res) = mset (tx_leases tx)"
proof -
  have ep: "ok (e p)" and same: "revision (e p) res = revision p res \<Longrightarrow> content (e p) res = content p res"
    using p e by (auto simp: env_ok_def)
  have tx: "tx_resource tx = res" "tx_revision tx = revision p res" "in_order (tx_leases tx)"
    "page_ok T res (tx_leases tx)" "replays (content p res) (tx_ops tx) (tx_leases tx)"
    using good by (auto simp: tx_good_def page_ok_def)
  have "invar p' \<and> (\<forall>res. page_ok T res (content p' res))"
    by (rule commit_transfer [OF _ c]) (use ep tx same page_ok_mset in \<open>auto simp: store_ok_def\<close>)
  then show "ok p'" by (simp add: store_ok_def)
  assume r: "r = None" and ops: "tx_ops tx \<noteq> []"
  have inv: "invar (e p)" using ep by (simp add: store_ok_def)
  note c' = c [unfolded r]
  have "tx_revision tx = revision (e p) (tx_resource tx)" by (rule commit_current [OF inv c' ops])
  with commit_ok [OF inv c' ops] tx same show "mset (content p' res) = mset (tx_leases tx)" by auto
qed

text \<open>
  The attempt loop. One attempt goes on with an error, panics with its body, or ends without
  error; then the store holds the leases of the transaction at the moment the loop ends.
\<close>

abbreviation body_good :: "string \<Rightarrow> (time \<Rightarrow> 64 word \<Rightarrow> leases \<Rightarrow> ('a \<times> tx) go) \<Rightarrow> bool" where
  "body_good res body \<equiv> \<forall>t rv xs a tx. page_ok T res xs \<longrightarrow> body t rv xs = Inr (a, tx) \<longrightarrow> tx_good T res rv xs tx"

definition attempt_done ::
  "string \<Rightarrow> (time \<Rightarrow> 64 word \<Rightarrow> leases \<Rightarrow> ('a \<times> tx) go) \<Rightarrow> 'p \<Rightarrow> ('a \<times> snapshot) option \<Rightarrow> bool" where
  "attempt_done res body p out \<longleftrightarrow> (\<exists>t rv xs a tx. out = Some (a, tx_snapshot tx) \<and> page_ok T res xs \<and>
     body t rv xs = Inr (a, tx) \<and> tx_good T res rv xs tx \<and> mset (content p res) = mset (tx_leases tx))"

lemma attempt_step:
  assumes "ok p" and env: "\<forall>n. calm (env n)" and body: "body_good res body"
  shows "(\<exists>p1 e out1. ok p1 \<and> attempt_loop prov env clock res body (Suc n) p err out =
        attempt_loop prov env clock res body n p1 (Some e) out1) \<or>
      (\<exists>t rv xs pn. page_ok T res xs \<and> body t rv xs = Inl pn \<and>
        attempt_loop prov env clock res body (Suc n) p err out = Inl pn) \<or>
      (\<exists>p1 out1. ok p1 \<and> attempt_done res body p1 out1 \<and>
        attempt_loop prov env clock res body (Suc n) p err out = Inr (p1, None, out1))"
    (is "?again \<or> ?panic \<or> ?done")
proof -
  obtain p1 r where v: "pv_LeaseView prov p res = (p1, r)" by fastforce
  note V = view_ok [OF assms(1) v]
  consider (fail) e where "r = Inl e" | (view) rv xs where "r = Inr (rv, xs)" by (cases r) auto
  then show ?thesis
  proof cases
    case fail
    then have ?again using v V(1) by auto
    then show ?thesis ..
  next
    case view
    from V(4) [OF view] have rv: "rv = revision p1 res" "xs = content p1 res" "page_ok T res xs" by auto
    consider (panic) pn where "body (clock (4 - n)) rv xs = Inl pn"
      | (tx) a tx where "body (clock (4 - n)) rv xs = Inr (a, tx)"
      by (cases "body (clock (4 - n)) rv xs") auto
    then show ?thesis
    proof cases
      case panic
      then have ?panic using v view rv(3) by auto
      then show ?thesis by blast
    next
      case tx
      then have good: "tx_good T res rv xs tx" using body rv(3) by blast
      obtain p2 r2 where c: "pv_LeaseCommit prov (env (4 - n) p1) tx = (p2, r2)" by fastforce
      note C = commit_good [OF V(1) spec [OF env] good [unfolded rv(1,2)] c]
      consider (empty) "tx_ops tx = []" | (committed) "tx_ops tx \<noteq> []" "r2 = None"
        | (refused) e where "tx_ops tx \<noteq> []" "r2 = Some e" by fastforce
      then show ?thesis
      proof cases
        case empty
        then have "mset (tx_leases tx) = mset xs" using good by (intro replays_Nil) (auto simp: tx_good_def)
        then have "attempt_done res body p1 (Some (a, tx_snapshot tx))" using rv tx good
          unfolding attempt_done_def by metis
        with empty tx v view V(1) have ?done by (simp add: Tx_Empty_def Let_def)
        then show ?thesis by blast
      next
        case committed
        then have "attempt_done res body p2 (Some (a, tx_snapshot tx))" using rv tx good C(2)
          unfolding attempt_done_def by blast
        with committed tx v view c C(1) have ?done by (simp add: Tx_Empty_def Let_def)
        then show ?thesis by blast
      next
        case refused
        with tx v view c C(1) have ?again by (auto simp: Tx_Empty_def Let_def)
        then show ?thesis ..
      qed
    qed
  qed
qed

lemma attempt_loop_ok:
  assumes "ok p" and env: "\<forall>n. calm (env n)" and body: "body_good res body"
    and "attempt_loop prov env clock res body n p err out = Inr (p', err', out')"
    and "n = 0 \<Longrightarrow> err \<noteq> None"
  shows "ok p' \<and> (err' = None \<longrightarrow> attempt_done res body p' out')"
  using assms(1,4,5)
proof (induction n arbitrary: p err out)
  case (Suc n)
  from attempt_step [OF Suc.prems(1) env body, where clock = clock and n = n and err = err and out = out] Suc.prems(2)
  show ?case using Suc.IH by (auto simp del: attempt_loop.simps)
qed auto

lemma attempt_loop_total:
  assumes "ok p" and env: "\<forall>n. calm (env n)" and body: "body_good res body"
    and total: "\<And>t xs rv pn. page_ok T res xs \<Longrightarrow> body t rv xs \<noteq> Inl pn"
  shows "\<exists>p' err' out'. attempt_loop prov env clock res body n p err out = Inr (p', err', out')"
  using assms(1)
proof (induction n arbitrary: p err out)
  case (Suc n)
  from attempt_step [OF Suc.prems(1) env body, where clock = clock and n = n and err = err and out = out] total
  show ?case using Suc.IH by (auto simp del: attempt_loop.simps)
qed simp

end

lemma statsSummary_skip:
  "strat = strategy_Instance \<or> strat = strategy_Consumer \<Longrightarrow> go_bind (statsSummary limit stats strat) (\<lambda>_. x) = x"
  by (auto simp: statsSummary_def Stats_Consumed_def Stats_Active_def Stats_Released_def Stats_Queued_def
      Stats_pick_def)

lemma collectResources_store:
  assumes "collectResources s p = (p', r)"
  shows "p' = p \<or> (\<exists>names. pv_LeaseResources (sc_LeaseProvider s) p = (p', names))"
  using assms by (auto simp: collectResources_def Let_def split: sum.splits prod.splits)

context guardian
begin

lemma resources_ok: "ok p \<Longrightarrow> pv_LeaseResources prov p = (p', r) \<Longrightarrow> ok p'"
  using resources [of p p' r] by (simp add: store_ok_def)

lemma collectResources_ok:
  "ok p \<Longrightarrow> sc_LeaseProvider s = prov \<Longrightarrow> collectResources s p = (p', r) \<Longrightarrow> ok p'"
  using collectResources_store [of s p p' r] resources_ok by auto

lemma acquire_body_good:
  "pols_terms T subject pols \<Longrightarrow> body_good (sub_Resource subject) (acquire_body srt subject props pols)"
  using acquire_body_page [OF srt] by blast

lemma release_body_good: "body_good (sub_Resource subject) (release_body srt subject)"
proof (intro allI impI)
  fix t rv xs a tx
  assume "page_ok T (sub_Resource subject) xs" and "release_body srt subject t rv xs = Inr (a, tx)"
  with release_body_page [OF srt, of T subject xs t rv] show "tx_good T (sub_Resource subject) rv xs tx" by auto
qed

lemma refresh_tx_good: "body_good res (refresh_tx srt res)"
proof (intro allI impI)
  fix t rv xs a tx
  assume "page_ok T res xs" and "refresh_tx srt res t rv xs = Inr (a, tx)"
  with refresh_tx_page [OF srt, of T res xs t rv] show "tx_good T res rv xs tx" by auto
qed

text \<open>
  A successful acquisition returns a lease for the subject that the store really holds, and
  publishes the snapshot of the store it leaves.
\<close>

lemma acquire_ok:
  assumes "ok p" and "\<forall>n. calm (env n)" and "pols_terms T subject pols"
    and s: "sc_LeaseProvider s = prov" "sc_sort s = srt"
    and run: "acquire s env clock subject props pols p = Inr (p', ev, r)"
  shows "ok p' \<and> (\<forall>ls snap. r = Inr (ls, snap) \<longrightarrow> ev = [snap] \<and> ls \<in> set (content p' (sub_Resource subject)) \<and>
    ls_Subject ls = subject \<and> mset (sn_Leases snap) = mset (content p' (sub_Resource subject))) \<and>
    (\<forall>e. r = Inl e \<longrightarrow> ev = []) \<and> list_all (snap_ok T) ev"
proof -
  let ?body = "acquire_body srt subject props pols"
  from run s obtain p1 err out where
    L: "attempt_loop prov env clock (sub_Resource subject) ?body 5 p None None = Inr (p1, err, out)"
    by (auto simp: acquire_def go_bind_eq_Inr)
  from attempt_loop_ok [OF assms(1,2) acquire_body_good [OF assms(3)] L]
  have ok: "ok p1" and fin: "err = None \<Longrightarrow> attempt_done (sub_Resource subject) ?body p1 out" by auto
  show ?thesis
  proof (cases err)
    case (Some e)
    with run s L ok show ?thesis by (auto simp: acquire_def)
  next
    case None
    from fin [OF None] obtain t rv xs ls tx where out: "out = Some (ls, tx_snapshot tx)"
      and page: "page_ok T (sub_Resource subject) xs" and B: "?body t rv xs = Inr (ls, tx)"
      and held: "mset (content p1 (sub_Resource subject)) = mset (tx_leases tx)" and snap: "snap_ok T (tx_snapshot tx)"
      unfolding attempt_done_def using tx_good_snapshot by blast
    have res: "p' = p1" "ev = [tx_snapshot tx]" "r = Inr (ls, tx_snapshot tx)"
      using run s L None out by (auto simp: acquire_def go_bind_eq_Inr)
    from acquire_body_page [OF srt page assms(3) B] ok held mset_eq_set [OF held] res snap
    show ?thesis by (auto simp: tx_snapshot_def)
  qed
qed

lemma release_ok:
  assumes "ok p" and "\<forall>n. calm (env n)"
    and s: "sc_LeaseProvider s = prov" "sc_sort s = srt"
    and run: "release s env clock subject pols p = Inr (p', ev, r)"
  shows "ok p'" and "list_all (snap_ok T) ev"
proof -
  from run s obtain p1 err out where
    L: "attempt_loop prov env clock (sub_Resource subject) (release_body srt subject) 5 p None None = Inr (p1, err, out)"
    by (auto simp: release_def go_bind_eq_Inr)
  note A = attempt_loop_ok [OF assms(1,2) release_body_good L, simplified]
  from run s L have "p' = p1" by (auto simp: release_def go_bind_eq_Inr split: option.splits)
  with A show "ok p'" by simp
  have "snap_ok T snap" if "err = None" "out = Some (a, snap)" for a snap
    using A that unfolding attempt_done_def by (auto dest: tx_good_snapshot)
  then show "list_all (snap_ok T) ev" using run s L by (auto simp: release_def go_bind_eq_Inr split: option.splits)
qed

lemma Purge_loop_ok:
  assumes "ok p" and "\<forall>res n. calm (env res n)"
    and s: "sc_LeaseProvider s = prov" "sc_sort s = srt"
    and "Purge_loop s env clock names p = Inr (p', r)"
  shows "ok p'"
  using assms(1,5)
proof (induction names arbitrary: p)
  case (Cons res names)
  from Cons.prems(2) s obtain p1 err out where
    L: "attempt_loop prov (env res) (clock res) res (refresh_tx srt res) 5 p None None = Inr (p1, err, out)"
    by (auto simp: go_bind_eq_Inr)
  have "ok p1" using attempt_loop_ok [OF Cons.prems(1) _ refresh_tx_good L] assms(2) by simp
  with Cons s L show ?case by (auto split: option.splits)
qed simp

lemma Purge_ok:
  assumes "ok p" and "\<forall>res n. calm (env res n)"
    and s: "sc_LeaseProvider s = prov" "sc_sort s = srt"
    and run: "Purge s env clock p = Inr (p', r)"
  shows "ok p'"
proof -
  obtain p1 rs where L: "pv_LeaseResources prov p = (p1, rs)" by fastforce
  from resources_ok [OF assms(1) L] L run s Purge_loop_ok [OF _ assms(2) s, of p1 clock _ p' r]
  show ?thesis by (auto simp: Purge_def split: sum.splits)
qed

lemma Purge_loop_total:
  assumes "ok p" and "\<forall>res n. calm (env res n)" and s: "sc_LeaseProvider s = prov" "sc_sort s = srt"
  shows "\<exists>p' r. Purge_loop s env clock names p = Inr (p', r)"
  using assms(1)
proof (induction names arbitrary: p)
  case (Cons res names)
  have "refresh_tx srt res t rv xs \<noteq> Inl pn" if "page_ok T res xs" for t rv xs pn
    using refresh_tx_page [OF srt that, of t rv] by auto
  from attempt_loop_total [OF Cons.prems _ refresh_tx_good this, of "env res"] assms(2) obtain p1 err out where
    L: "attempt_loop prov (env res) (clock res) res (refresh_tx srt res) 5 p None None = Inr (p1, err, out)" by blast
  have "ok p1" using attempt_loop_ok [OF Cons.prems _ refresh_tx_good L] assms(2) by simp
  from Cons.IH [OF this] L s show ?case by (cases err) auto
qed simp

lemma Purge_total:
  assumes "ok p" and "\<forall>res n. calm (env res n)" and s: "sc_LeaseProvider s = prov" "sc_sort s = srt"
  shows "\<exists>p' r. Purge s env clock p = Inr (p', r)"
proof -
  obtain p1 rs where L: "pv_LeaseResources prov p = (p1, rs)" by fastforce
  from resources_ok [OF assms(1) L] L s Purge_loop_total [OF _ assms(2) s, of p1 clock]
  show ?thesis by (cases rs) (auto simp: Purge_def)
qed

text \<open>A view, a refresh and one attempt to commit, whose error is ignored.\<close>

lemma refresh_once_ok:
  assumes "ok p" and "calm e" and "pv_LeaseView prov p res = (p1, Inr (rv, xs))"
  obtains tx where "refresh_tx srt res now rv xs = Inr ((), tx)" "page_ok T res (tx_leases tx)"
    "ok p1" "ok (fst (pv_LeaseCommit prov (e p1) tx))"
proof -
  note V = view_ok [OF assms(1,3)]
  from V(4) [of rv xs] have rv: "rv = revision p1 res" "xs = content p1 res" "page_ok T res xs" by auto
  from refresh_tx_page [OF srt rv(3)] obtain tx where R: "refresh_tx srt res now rv xs = Inr ((), tx)"
    and good: "tx_good T res rv xs tx" by blast
  from commit_good(1) [OF V(1) assms(2) good [unfolded rv(1,2)] surjective_pairing] R good V(1)
  show ?thesis by (intro that) (auto simp: tx_good_def)
qed

lemma collectSnapshot_ok:
  assumes "ok p" and "calm e" and s: "sc_LeaseProvider s = prov" "sc_sort s = srt"
  shows "\<exists>p' r. collectSnapshot s e now res p = Inr (p', r) \<and> ok p' \<and>
    (\<forall>snap. r = Inr snap \<longrightarrow> snap_ok T snap \<and> sn_Resource snap = res)"
proof -
  obtain p1 r where v: "pv_LeaseView prov p res = (p1, r)" by fastforce
  show ?thesis
  proof (cases r)
    case (Inl e)
    with v s view_ok(1) [OF assms(1) v] show ?thesis by (simp add: collectSnapshot_def)
  next
    case (Inr rx)
    obtain rv xs where rx: "rx = (rv, xs)" by fastforce
    obtain tx where "refresh_tx srt res now rv xs = Inr ((), tx)" "page_ok T res (tx_leases tx)"
      "ok p1" "ok (fst (pv_LeaseCommit prov (e p1) tx))"
      using refresh_once_ok [OF assms(1,2) v [unfolded Inr rx]] by blast
    then show ?thesis using v Inr rx s by (simp add: collectSnapshot_def Let_def snap_ok_def)
  qed
qed

lemma collectSnapshots_loop_ok:
  assumes "ok p" and "\<forall>res. calm (env res)" and s: "sc_LeaseProvider s = prov" "sc_sort s = srt"
  shows "\<exists>p' r. collectSnapshots_loop s env clock names p out = Inr (p', r) \<and> ok p' \<and>
    (\<forall>snaps. r = Inr snaps \<longrightarrow> (\<exists>new. snaps = out @ new \<and> list_all (snap_ok T) new \<and> map sn_Resource new = names))"
  using assms(1)
proof (induction names arbitrary: p out)
  case (Cons res names)
  from collectSnapshot_ok [OF Cons.prems spec [OF assms(2)] s] obtain p1 r where
    c: "collectSnapshot s (env res) (clock res) res p = Inr (p1, r)" "ok p1"
      "\<And>snap. r = Inr snap \<Longrightarrow> snap_ok T snap \<and> sn_Resource snap = res" by blast
  show ?case
  proof (cases r)
    case (Inr snap)
    from Cons.IH [OF c(2), of "out @ [snap]"] c(1) c(3) [OF Inr] Inr show ?thesis by fastforce
  qed (use c in simp)
qed simp

lemma collectSnapshots_ok:
  assumes "ok p" and "\<forall>res. calm (env res)" and s: "sc_LeaseProvider s = prov" "sc_sort s = srt"
  shows "\<exists>p' r. collectSnapshots s env clock names p = Inr (p', r) \<and> ok p' \<and>
    (\<forall>snaps. r = Inr snaps \<longrightarrow> list_all (snap_ok T) snaps)"
proof (cases names)
  case Nil
  obtain p1 r where c: "collectResources s p = (p1, r)" by fastforce
  have "ok p1" by (rule collectResources_ok [OF assms(1) s(1) c])
  show ?thesis
  proof (cases r)
    case (Inr ns)
    with collectSnapshots_loop_ok [OF \<open>ok p1\<close> assms(2) s, of clock ns "[]"] Nil c show ?thesis
      by (auto simp: collectSnapshots_def)
  qed (use \<open>ok p1\<close> c Nil in \<open>simp add: collectSnapshots_def\<close>)
next
  case (Cons n ns)
  with collectSnapshots_loop_ok [OF assms(1,2) s, of clock names "[]"] show ?thesis
    by (auto simp: collectSnapshots_def simp del: collectSnapshots_loop.simps)
qed

lemma refreshLeases_loop_ok:
  assumes "ok p" and "\<forall>res. calm (env res)" and s: "sc_LeaseProvider s = prov" "sc_sort s = srt"
  shows "\<exists>p' ev'. refreshLeases_loop s env clock names p ev = Inr (p', ev') \<and> ok p' \<and>
    (list_all (snap_ok T) ev \<longrightarrow> list_all (snap_ok T) ev')"
  using assms(1)
proof (induction names arbitrary: p ev)
  case (Cons res names)
  obtain p1 r where v: "pv_LeaseView prov p res = (p1, r)" by fastforce
  show ?case
  proof (cases r)
    case (Inl e)
    with v s Cons.IH [OF view_ok(1) [OF Cons.prems v]] show ?thesis by simp
  next
    case (Inr rx)
    obtain rv xs where rx: "rx = (rv, xs)" by fastforce
    obtain tx where tx: "refresh_tx srt res (clock res) rv xs = Inr ((), tx)" "page_ok T res (tx_leases tx)" "ok p1"
      "ok (fst (pv_LeaseCommit prov (env res p1) tx))"
      using refresh_once_ok [OF Cons.prems spec [OF assms(2)] v [unfolded Inr rx]] by blast
    let ?snap = "\<lparr>sn_Resource = res, sn_Revision = rv, sn_Leases = tx_leases tx, sn_Stats = Set_Stats (tx_leases tx)\<rparr>"
    have "snap_ok T ?snap" using tx(2) by (simp add: snap_ok_def)
    with Cons.IH [OF tx(3), of ev] Cons.IH [OF tx(4), of "ev @ [?snap]"] tx v Inr rx s show ?thesis by (simp add: Let_def)
  qed
qed simp

lemma refreshLeases_ok:
  assumes "ok p" and "\<forall>res. calm (env res)" and s: "sc_LeaseProvider s = prov" "sc_sort s = srt"
  shows "\<exists>p' ev. refreshLeases s env clock p = Inr (p', ev) \<and> ok p' \<and> list_all (snap_ok T) ev"
proof -
  obtain p1 r where c: "collectResources s p = (p1, r)" by fastforce
  have "ok p1" by (rule collectResources_ok [OF assms(1) s(1) c])
  show ?thesis
  proof (cases r)
    case (Inr ns)
    with refreshLeases_loop_ok [OF \<open>ok p1\<close> assms(2) s, of clock ns "[]"] c show ?thesis
      by (auto simp: refreshLeases_def)
  qed (use \<open>ok p1\<close> c in \<open>simp add: refreshLeases_def\<close>)
qed

end

section \<open>Handlers and reachable stores\<close>

text \<open>
  A request is admissible when the policies it matches give its resource the strategy and at
  most the limit of the terms.
\<close>

abbreviation assigned :: "request \<Rightarrow> policies \<Rightarrow> subject_t" where
  "assigned req pols \<equiv> (rq_Subject req)\<lparr>sub_Resource := PolicySet_Resource pols\<rparr>"

definition request_ok :: "terms \<Rightarrow> 'p server \<Rightarrow> goerror + form \<Rightarrow> bool" where
  "request_ok T s r = (case initRequest s r of Inl e \<Rightarrow> True
     | Inr (req, pols) \<Rightarrow> PolicySet_Resource pols = '''' \<or> pols_terms T (assigned req pols) pols)"

text \<open>
  One step of the server: a request or a timer runs one operation to its end, with calm
  interference of the others between its views and commits.
\<close>

definition calls_ok :: "terms \<Rightarrow> streamcall list \<Rightarrow> bool" where
  "calls_ok T calls \<longleftrightarrow> (\<forall>snap. (\<exists>c. ClientSend c (LeasesEvent snap) \<in> set calls) \<or>
     StreamBroadcast (Some (LeasesEvent snap)) \<in> set calls \<longrightarrow> snap_ok T snap)"

inductive serves ::
  "'p server \<Rightarrow> (('p \<Rightarrow> 'p) \<Rightarrow> bool) \<Rightarrow> (goerror + form \<Rightarrow> bool) \<Rightarrow> 'p \<Rightarrow> 'p \<Rightarrow> bool"
  for s :: "'p server" and calm :: "('p \<Rightarrow> 'p) \<Rightarrow> bool" and admit :: "goerror + form \<Rightarrow> bool" where
  acquires: "admit r \<Longrightarrow> \<forall>n. calm (renv n) \<Longrightarrow> \<forall>n. calm (env n) \<Longrightarrow>
    acquireHandler s renv rclock env clock r p = Inr (p', ev, resp) \<Longrightarrow> serves s calm admit p p'"
| releases: "admit r \<Longrightarrow> \<forall>n. calm (env n) \<Longrightarrow>
    releaseHandler s env clock r p = Inr (p', ev, resp) \<Longrightarrow> serves s calm admit p p'"
| surveys: "\<forall>res. calm (senv res) \<Longrightarrow>
    leasesHandler s senv sclock r p = Inr (p', resp) \<Longrightarrow> serves s calm admit p p'"
| purges: "\<forall>res n. calm (penv res n) \<Longrightarrow>
    Purge s penv pclock p = Inr (p', err) \<Longrightarrow> serves s calm admit p p'"
| refreshes: "\<forall>res. calm (senv res) \<Longrightarrow>
    refreshLeases s senv sclock p = Inr (p', ev) \<Longrightarrow> serves s calm admit p p'"
| streams: "\<forall>res. calm (senv res) \<Longrightarrow>
    streamHandler enc s senv sclock accept client p = Inr (p', calls) \<Longrightarrow> serves s calm admit p p'"

inductive_cases serves_cases: "serves s calm admit p p'"

context guardian
begin

lemma acquire_switch_ok:
  assumes "ok p" and "\<forall>n. calm (env n)" and s: "sc_LeaseProvider s = prov" "sc_sort s = srt"
    and "acquire_switch s env clock req pols p = Inr (p', ev, r)"
  shows "ok p'"
  using assms release_ok [OF assms(1,2) s] by (auto simp: acquire_switch_def split: if_splits)

text \<open>
  Whatever an acquire request does, the store stays within its invariant; when it is granted,
  the lease in the response is held by the store for the requesting instance.
\<close>

lemma acquireHandler_ok:
  assumes "ok p" and "\<forall>n. calm (renv n)" and "\<forall>n. calm (env n)" and admit: "request_ok T s r"
    and s: "sc_LeaseProvider s = prov" "sc_sort s = srt"
    and run: "acquireHandler s renv rclock env clock r p = Inr (p', ev, resp)"
  shows "ok p' \<and> (\<forall>b. rs_Body resp = AcquireBody b \<longrightarrow> rs_Code resp = StatusOK \<and>
    ls_Subject (ar_Lease b) = rq_Subject (ar_Request b) \<and>
    ar_Lease b \<in> set (content p' (sub_Resource (rq_Subject (ar_Request b)))) \<and>
    mset (ar_Leases b) = mset (content p' (sub_Resource (rq_Subject (ar_Request b)))))"
proof (cases "initRequest s r")
  case (Inl e)
  with run assms(1) show ?thesis by (auto simp: acquireHandler_def http_Error_def)
next
  case (Inr rp)
  obtain req pols where rp: "rp = (req, pols)" by fastforce
  from run Inr rp obtain p1 ev1 err1 where sw: "acquire_switch s renv rclock req pols p = Inr (p1, ev1, err1)"
    by (auto simp: acquireHandler_def go_bind_eq_Inr)
  have p1: "ok p1" by (rule acquire_switch_ok [OF assms(1,2) s sw])
  show ?thesis
  proof (cases "err1 = None \<and> PolicySet_Resource pols \<noteq> ''''")
    case False
    with run Inr rp sw p1 show ?thesis
      by (auto simp: acquireHandler_def http_Error_def Let_def split: option.splits)
  next
    case True
    let ?props = "MergeProperties [rq_Properties req, PolicySet_Properties pols]"
    from run Inr rp sw True obtain p2 ev2 res where
      acq: "acquire s env clock (assigned req pols) ?props pols p1 = Inr (p2, ev2, res)"
      by (auto simp: acquireHandler_def go_bind_eq_Inr Let_def)
    have "pols_terms T (assigned req pols) pols" using admit Inr rp True by (simp add: request_ok_def)
    note A = acquire_ok [OF p1 assms(3) this s acq]
    let ?resp = "\<lambda>ls snap. AcquireBody \<lparr>ar_Request = req\<lparr>rq_Subject := assigned req pols\<rparr>, ar_Lease = ls,
        ar_Leases = sn_Leases snap\<rparr>"
    have body: "p' = p2 \<and> (rs_Body resp = AcquireBody b \<longrightarrow> rs_Code resp = StatusOK \<and>
        (\<exists>ls snap. res = Inr (ls, snap) \<and> AcquireBody b = ?resp ls snap))" for b
      using run Inr rp sw True acq
      by (cases res) (auto simp: acquireHandler_def http_Error_def Let_def split: if_split_asm)
    show ?thesis using A body by fastforce
  qed
qed

lemma releaseHandler_ok:
  assumes "ok p" and "\<forall>n. calm (env n)" and s: "sc_LeaseProvider s = prov" "sc_sort s = srt"
    and run: "releaseHandler s env clock r p = Inr (p', ev, resp)"
  shows "ok p'"
  using assms release_ok [OF assms(1,2) s]
  by (auto simp: releaseHandler_def go_bind_eq_Inr Let_def split: sum.splits option.splits if_splits)

lemma leasesHandler_ok:
  assumes "ok p" and "\<forall>res. calm (env res)" and s: "sc_LeaseProvider s = prov" "sc_sort s = srt"
  shows "\<exists>p' resp. leasesHandler s env clock r p = Inr (p', resp) \<and> ok p'"
proof (cases "parseRequest r")
  case (Inl e)
  with assms(1) show ?thesis by (simp add: leasesHandler_def)
next
  case (Inr req)
  obtain p1 names where c: "(if sub_Resource (rq_Subject req) = '''' then collectResources s p
      else (p, Inr [sub_Resource (rq_Subject req)])) = (p1, names)" by fastforce
  have p1: "ok p1" using c assms(1) collectResources_ok [OF assms(1) s(1)] by (auto split: if_splits)
  show ?thesis
  proof (cases names)
    case (Inl e)
    with Inr c p1 show ?thesis by (simp add: leasesHandler_def Let_def)
  next
    case (Inr ns)
    from collectSnapshots_ok [OF p1 assms(2) s] obtain p2 out
      where "collectSnapshots s env clock ns p1 = Inr (p2, out)" "ok p2" by blast
    with \<open>parseRequest r = Inr req\<close> c Inr show ?thesis
      by (cases out) (simp_all add: leasesHandler_def Let_def)
  qed
qed

lemma streamHandler_ok:
  assumes "ok p" and "\<forall>res. calm (env res)" and s: "sc_LeaseProvider s = prov" "sc_sort s = srt"
  shows "\<exists>p' r. streamHandler enc s env clock accept client p = Inr (p', r) \<and> ok p' \<and>
    (\<forall>calls. r = Inr calls \<longrightarrow> calls_ok T calls)"
proof -
  from collectSnapshots_ok [OF assms(1,2) s, of clock "[]"] obtain p1 out
    where c: "collectSnapshots s env clock [] p = Inr (p1, out)" "ok p1" "\<And>snaps. out = Inr snaps \<Longrightarrow> list_all (snap_ok T) snaps" by blast
  then show ?thesis using assms(1)
    by (cases out) (auto simp: streamHandler_def calls_ok_def send_event_def list_all_iff split: sum.splits option.splits)
qed

lemma serves_ok:
  assumes "serves s calm (request_ok T s) p p'" and "ok p"
    and s: "sc_LeaseProvider s = prov" "sc_sort s = srt"
  shows "ok p'"
  using assms(1)
proof cases
  case (acquires r renv env rclock clock ev resp)
  with acquireHandler_ok [OF assms(2) _ _ _ s] show ?thesis by blast
next
  case (releases r env clock ev resp)
  with releaseHandler_ok [OF assms(2) _ s] show ?thesis by blast
next
  case (surveys senv sclock r resp)
  with leasesHandler_ok [OF assms(2) surveys(1) s, of sclock r] show ?thesis by auto
next
  case (purges penv pclock err)
  with Purge_ok [OF assms(2) _ s] show ?thesis by blast
next
  case (refreshes senv sclock ev)
  with refreshLeases_ok [OF assms(2) refreshes(1) s, of sclock] show ?thesis by auto
next
  case (streams senv enc sclock accept client calls)
  with streamHandler_ok [OF assms(2) streams(1) s, of enc sclock accept client] show ?thesis by auto
qed

lemma reachable_ok:
  assumes "(serves s calm (request_ok T s))\<^sup>*\<^sup>* p p'" and "ok p"
    and s: "sc_LeaseProvider s = prov" "sc_sort s = srt"
  shows "ok p'"
  using assms(1)
proof (induction rule: rtranclp_induct)
  case (step p1 p2)
  then show ?case using serves_ok [OF step(2) _ s] by blast
qed (rule assms(2))

end

section \<open>Interference by commits of other requests\<close>

text \<open>
  What really happens between a view and its commit: other requests view the store and commit
  transactions of their own, each of which keeps the invariant and was built on the leases of
  the revision it names. \<open>commits k p q\<close> counts the commits. A revision is a 64 bit counter,
  so fewer than \<open>2 ^ 64\<close> commits cannot bring it back to the value a request has seen: such
  interference is calm.
\<close>

inductive commits ::
  "'p provider \<Rightarrow> ('p \<Rightarrow> string \<Rightarrow> leases) \<Rightarrow> ('p \<Rightarrow> string \<Rightarrow> 64 word) \<Rightarrow> terms \<Rightarrow> nat \<Rightarrow> 'p \<Rightarrow> 'p \<Rightarrow> bool"
  for prov :: "'p provider" and content :: "'p \<Rightarrow> string \<Rightarrow> leases" and revision :: "'p \<Rightarrow> string \<Rightarrow> 64 word"
    and T :: terms where
  none: "commits prov content revision T 0 p p"
| view: "commits prov content revision T k p q \<Longrightarrow> pv_LeaseView prov q res = (q', r) \<Longrightarrow>
    commits prov content revision T k p q'"
| commit: "commits prov content revision T k p q \<Longrightarrow> tx_good T (tx_resource tx) (tx_revision tx) base tx \<Longrightarrow>
    (tx_revision tx = revision q (tx_resource tx) \<Longrightarrow> base = content q (tx_resource tx)) \<Longrightarrow>
    pv_LeaseCommit prov q tx = (q', r) \<Longrightarrow> commits prov content revision T (Suc k) p q'"

context guardian
begin

lemma commit_step:
  assumes q: "ok q" and good: "tx_good T (tx_resource tx) (tx_revision tx) base tx"
    and base: "tx_revision tx = revision q (tx_resource tx) \<Longrightarrow> base = content q (tx_resource tx)"
    and c: "pv_LeaseCommit prov q tx = (q', r)"
  shows "ok q'" and "revision q' res = revision q res \<and> content q' res = content q res \<or>
    revision q' res = revision q res + 1"
proof -
  have inv: "invar q" using q by (simp add: store_ok_def)
  have tx: "in_order (tx_leases tx)" "page_ok T (tx_resource tx) (tx_leases tx)"
    "replays base (tx_ops tx) (tx_leases tx)"
    using good by (auto simp: tx_good_def page_ok_def)
  have "invar q' \<and> (\<forall>res. page_ok T res (content q' res))"
    by (rule commit_transfer [OF inv c]) (use q tx base page_ok_mset in \<open>auto simp: store_ok_def\<close>)
  then show "ok q'" by (simp add: store_ok_def)
  show "revision q' res = revision q res \<and> content q' res = content q res \<or> revision q' res = revision q res + 1"
  proof (cases "r = None \<and> tx_ops tx \<noteq> []")
    case True
    then have c': "pv_LeaseCommit prov q tx = (q', None)" and ops: "tx_ops tx \<noteq> []" using c by auto
    have "base = content q (tx_resource tx)" by (rule base [OF commit_current [OF inv c' ops]])
    with commit_ok [OF inv c' ops] tx show ?thesis by (cases "res = tx_resource tx") auto
  next
    case False
    then show ?thesis using c commit_empty [OF inv, of tx] commit_error [OF inv] by (cases r) auto
  qed
qed

lemma commits_count:
  assumes "commits prov content revision T k p q" and "ok p"
  shows "ok q \<and> (\<forall>res. \<exists>j \<le> k. revision q res = revision p res + of_nat j \<and>
    (j = 0 \<longrightarrow> content q res = content p res))"
  using assms
proof (induction rule: commits.induct)
  case (none p)
  then show ?case by auto
next
  case (view k p q res q' r)
  then show ?case using view_ok [of q res q' r] by simp
next
  case (commit k p q tx base q' r)
  then have q: "ok q" by blast
  note S = commit_step [OF q commit(2,3,4)]
  have "\<exists>j \<le> Suc k. revision q' res = revision p res + of_nat j \<and> (j = 0 \<longrightarrow> content q' res = content p res)" for res
  proof -
    from commit.IH commit.prems obtain j where j: "j \<le> k" "revision q res = revision p res + of_nat j"
      "j = 0 \<longrightarrow> content q res = content p res" by blast
    from S(2) [of res] show ?thesis
    proof
      assume "revision q' res = revision q res \<and> content q' res = content q res"
      with j show ?thesis by (intro exI [of _ j]) simp
    next
      assume "revision q' res = revision q res + 1"
      with j show ?thesis by (intro exI [of _ "Suc j"]) simp
    qed
  qed
  with S(1) show ?case by blast
qed

lemma commits_calm:
  assumes "\<And>p. \<exists>k < 2 ^ 64. commits prov content revision T k p (e p)"
  shows "calm e"
  unfolding env_ok_def
proof (intro allI impI conjI)
  fix p assume p: "ok p"
  from assms obtain k where k: "k < 2 ^ 64" and "commits prov content revision T k p (e p)" by blast
  note C = commits_count [OF this(2) p]
  from C show "ok (e p)" by blast
  fix res assume same: "revision (e p) res = revision p res"
  from C obtain j where j: "j \<le> k" "revision (e p) res = revision p res + of_nat j"
    "j = 0 \<longrightarrow> content (e p) res = content p res" by blast
  from j(2) same have "(of_nat j :: 64 word) = 0" by simp
  then have "2 ^ 64 dvd j" by (simp add: word_of_nat_eq_0_iff)
  with j(1) k have "j = 0" by (auto dest: dvd_imp_le)
  with j(3) show "content (e p) res = content p res" by simp
qed

end

section \<open>What a release and a renewal achieve\<close>

definition gone :: "subject_t \<Rightarrow> leases \<Rightarrow> bool" where
  "gone s xs \<longleftrightarrow> (\<forall>l \<in> set xs. ls_Subject l = s \<longrightarrow> ls_Status l = Released)"

lemma gone_Refresh:
  assumes "lease_sorter srt" and "Refresh srt tx at = Inr (acc, tx')" and "gone s (tx_leases tx)"
  shows "gone s (tx_leases tx')"
  using Refresh_all [OF assms(1,2), of "\<lambda>l. ls_Subject l = s \<longrightarrow> ls_Status l = Released"] assms(3)
  by (auto simp: gone_def)

lemma gone_Release:
  assumes "lease_sorter srt" and "Tx_Release srt inst at tx = Inr tx'"
  shows "gone \<lparr>sub_Resource = tx_resource tx, sub_Instance = inst\<rparr> (tx_leases tx')"
  using assms lease_sorter.set_srt [OF assms(1)]
  by (auto simp: Tx_Release_eq gone_def MatchInstance_Subject split: if_splits)

lemma release_body_gone:
  assumes srt: "lease_sorter srt" and B: "release_body srt subject now rv xs = Inr (l, tx)"
  shows "gone subject (tx_leases tx)"
proof -
  obtain acc tx1 where R1: "Refresh srt (NewTx (sub_Resource subject) rv xs) now = Inr (acc, tx1)"
    and same: "tx_resource tx1 = sub_Resource subject"
    using Refresh_total [OF srt, of "NewTx (sub_Resource subject) rv xs" now] by (auto simp: NewTx_def)
  from B R1 obtain tx2 acc3 where R2: "Tx_Release srt (sub_Instance subject) now tx1 = Inr tx2"
    and R3: "Refresh srt tx2 now = Inr (acc3, tx)"
    by (auto simp: release_body_def Let_def go_bind_eq_Inr)
  from gone_Refresh [OF srt R3] gone_Release [OF srt R2] same show ?thesis by simp
qed

lemma gone_mset: "gone s xs \<Longrightarrow> mset ys = mset xs \<Longrightarrow> gone s ys"
  using mset_eq_set [of ys xs] by (simp add: gone_def)

lemma acquire_body_renews:
  assumes srt: "lease_sorter srt"
    and R: "Refresh srt (NewTx (sub_Resource subject) rv xs) now = Inr (acc, tx1)"
    and found: "Tx_Instance tx1 (sub_Instance subject) = Some e" "ls_Status e \<noteq> Released"
    and B: "acquire_body srt subject props pols now rv xs = Inr (ls, tx)"
  shows "ls_Status ls = ls_Status e \<and> ls_Started ls = ls_Started e \<and> ls_Renewed ls = now"
  using B found acquire_body_cases(1) [where props = props and pols = pols, OF R found(1)]
  by (auto simp: renewed_def go_bind_eq_Inr)

text \<open>
  First come, first served. A consumer that holds nothing is activated at once only when no
  lease with the same or a larger limit is waiting.
\<close>

lemma acquire_body_fair:
  assumes srt: "lease_sorter srt" and page: "page_ok T (sub_Resource subject) xs"
    and T: "pols_terms T subject pols"
    and B: "acquire_body srt subject props pols now rv xs = Inr (ls, tx)"
    and none: "\<forall>l \<in> set xs. ls_HostUser l \<noteq> Subject_HostUser subject"
    and active: "ls_Status ls = Active"
  shows "\<forall>l \<in> set (tx_leases tx). ls_Status l = Queued \<longrightarrow> ls_Limit l < PolicySet_Limit pols"
proof -
  let ?strat = "PolicySet_Strategy pols" and ?hu = "Subject_HostUser subject"
  obtain acc tx1 where R: "Refresh srt (NewTx (sub_Resource subject) rv xs) now = Inr (acc, tx1)"
    using Refresh_total [OF srt] by blast
  from tx_good_Refresh [OF srt tx_good_NewTx [OF page] R]
  have good: "tx_good T (sub_Resource subject) rv xs tx1" and acc: "acc_ok acc (tx_leases tx1)" by auto
  have none1: "\<forall>l \<in> set (tx_leases tx1). ls_HostUser l \<noteq> ?hu"
    by (rule Refresh_all [OF srt R]) (use none in \<open>simp_all add: NewTx_def\<close>)
  have new: "Tx_Instance tx1 (sub_Instance subject) = None"
  proof (cases "Tx_Instance tx1 (sub_Instance subject)")
    case (Some e)
    from Tx_Instance_Some [OF Some] good have "e \<in> set (tx_leases tx1)" "ls_Subject e = subject"
      by (simp_all add: tx_good_def)
    with none1 show ?thesis by auto
  qed
  have zero: "n_status st ?hu (tx_leases tx1) = 0" for st
    using none1 by (simp add: n_status_def filter_empty_conv)
  then have idle: "Accumulator_Released acc ?hu = 0" "Accumulator_Active acc ?hu = 0"
    using acc by (simp_all add: acc_ok_def Accumulator_Released_def Accumulator_Active_def)
  define st where "st = (if CanActivate ?strat (Accumulator_Active acc ?hu) (Accumulator_Total acc ?strat)
      (PolicySet_Limit pols) then Active else Queued)"
  from acquire_body_cases(3) [where props = props and pols = pols, OF R new] B idle(1)
  have out: "ls = (new_lease subject props pols now)\<lparr>ls_Status := st\<rparr>" "tx = Tx_Create srt ls tx1"
    by (auto simp: Let_def st_def)
  have "consumption ?strat (tx_leases tx1) < PolicySet_Limit pols"
    using active idle(2) by (auto simp: out(1) st_def CanActivate_def acc_ok_Total [OF acc] split: if_splits)
  moreover have "ls_Strategy l = ?strat" if "l \<in> set (tx_leases tx1)" for l
    using good that T by (auto simp: tx_good_def page_ok_def page_inv_def lease_ok_def pols_terms_def)
  ultimately have "ls_Limit l < PolicySet_Limit pols" if "l \<in> set (tx_leases tx1)" "ls_Status l = Queued" for l
    using Refresh_saturated [OF srt R] that by fastforce
  then show ?thesis using active lease_sorter.set_srt [OF srt] by (auto simp: out(2) Tx_Create_def)
qed

section \<open>No panics, and what the responses promise\<close>

context guardian
begin

lemma release_gone:
  assumes "ok p" and "\<forall>n. calm (env n)"
    and s: "sc_LeaseProvider s = prov" "sc_sort s = srt"
    and run: "release s env clock subject pols p = Inr (p', ev, None)"
  shows "gone subject (content p' (sub_Resource subject))"
proof -
  from run s obtain p1 err out where
    L: "attempt_loop prov env clock (sub_Resource subject) (release_body srt subject) 5 p None None = Inr (p1, err, out)"
    by (auto simp: release_def go_bind_eq_Inr)
  from attempt_loop_ok [OF assms(1,2) release_body_good L]
  have fin: "err = None \<Longrightarrow> attempt_done (sub_Resource subject) (release_body srt subject) p1 out" by simp
  from run s L have p1: "p' = p1" "err = None"
    by (auto simp: release_def go_bind_eq_Inr split: option.splits)
  from fin [OF p1(2)] obtain t rv xs l tx where "release_body srt subject t rv xs = Inr (l, tx)"
    and held: "mset (content p1 (sub_Resource subject)) = mset (tx_leases tx)"
    unfolding attempt_done_def by blast
  from gone_mset [OF release_body_gone [OF srt this(1)] held] show ?thesis by (simp add: p1(1))
qed

lemma releaseHandler_gone:
  assumes "ok p" and "\<forall>n. calm (env n)" and s: "sc_LeaseProvider s = prov" "sc_sort s = srt"
    and run: "releaseHandler s env clock r p = Inr (p', ev, resp)" and "rs_Body resp = ReleaseBody b"
  shows "gone (rq_Subject (rr_Request b)) (content p' (sub_Resource (rq_Subject (rr_Request b))))"
proof -
  from run assms(6) obtain req pols where i: "initRequest s r = Inr (req, pols)"
    by (cases "initRequest s r") (auto simp: releaseHandler_def http_Error_def)
  with run obtain p1 ev1 err1 where rel: "release s env clock (rq_Subject req) pols p = Inr (p1, ev1, err1)"
    by (auto simp: releaseHandler_def go_bind_eq_Inr)
  with run i assms(6) have "err1 = None" "p' = p1" "rr_Request b = req"
    by (auto simp: releaseHandler_def http_Error_def Let_def split: option.splits if_split_asm)
  with release_gone [OF assms(1,2) s] rel show ?thesis by blast
qed

lemma acquire_total:
  assumes "ok p" and "\<forall>n. calm (env n)" and terms: "pols_terms T subject pols"
    and s: "sc_LeaseProvider s = prov" "sc_sort s = srt"
    and hosts: "\<And>h. tm_Host T h \<Longrightarrow> no_space h"
    and valid: "\<forall>pol \<in> set pols. strategy_Valid (pol_Strategy pol)"
  shows "\<exists>p' ev r. acquire s env clock subject props pols p = Inr (p', ev, r)"
proof -
  let ?body = "acquire_body srt subject props pols"
  have host: "tm_Host T (inst_Host (sub_Instance subject))" using terms by (simp add: pols_terms_def)
  have "?body t rv xs \<noteq> Inl pn" if "page_ok T (sub_Resource subject) xs" for t xs rv pn
    by (rule acquire_body_total [OF srt that hosts host])
  from attempt_loop_total [where clock = clock and n = 5 and err = None and out = None,
      OF assms(1,2) acquire_body_good [OF terms] this]
  obtain p1 err out where L: "attempt_loop prov env clock (sub_Resource subject) ?body 5 p None None = Inr (p1, err, out)"
    by blast
  with s show ?thesis
    by (cases err; cases out) (auto simp: acquire_def statsSummary_skip [OF PolicySet_Strategy_valid [OF valid]])
qed

lemma release_total:
  assumes "ok p" and "\<forall>n. calm (env n)" and s: "sc_LeaseProvider s = prov" "sc_sort s = srt"
    and valid: "\<forall>pol \<in> set pols. strategy_Valid (pol_Strategy pol)"
  shows "\<exists>p' ev r. release s env clock subject pols p = Inr (p', ev, r)"
proof -
  have "release_body srt subject t rv xs \<noteq> Inl pn" if "page_ok T (sub_Resource subject) xs" for t rv xs pn
    using release_body_page [OF srt that, of t rv] by auto
  from attempt_loop_total [where clock = clock and n = 5 and err = None and out = None,
      OF assms(1,2) release_body_good this]
  obtain p1 err out where
    L: "attempt_loop prov env clock (sub_Resource subject) (release_body srt subject) 5 p None None = Inr (p1, err, out)"
    by blast
  with s show ?thesis
    by (cases err; cases out) (auto simp: release_def statsSummary_skip [OF PolicySet_Strategy_valid [OF valid]])
qed

end

lemma initRequest_pols:
  assumes "initRequest s r = Inr (req, pols)" and "\<forall>all. sc_Policies s = Inr all \<longrightarrow> (\<forall>pol \<in> set all. P pol)"
  shows "\<forall>pol \<in> set pols. P pol"
  using assms by (auto simp: initRequest_def PolicySet_Match_def split: sum.splits if_splits)

context guardian
begin

lemma acquireHandler_total:
  assumes "ok p" and "\<forall>n. calm (renv n)" and "\<forall>n. calm (env n)" and admit: "request_ok T s r"
    and s: "sc_LeaseProvider s = prov" "sc_sort s = srt"
    and hosts: "\<And>h. tm_Host T h \<Longrightarrow> no_space h"
    and valid: "\<forall>all. sc_Policies s = Inr all \<longrightarrow> (\<forall>pol \<in> set all. strategy_Valid (pol_Strategy pol))"
  shows "\<exists>p' ev resp. acquireHandler s renv rclock env clock r p = Inr (p', ev, resp)"
proof (cases "initRequest s r")
  case (Inl e)
  then show ?thesis by (simp add: acquireHandler_def)
next
  case (Inr rp)
  obtain req pols where rp: "rp = (req, pols)" by fastforce
  note v = initRequest_pols [OF Inr [unfolded rp] valid]
  from release_total [OF assms(1,2) s v, of rclock "rq_Subject req"]
  obtain p1 ev1 err1 where sw: "acquire_switch s renv rclock req pols p = Inr (p1, ev1, err1)"
    unfolding acquire_switch_def by (metis (no_types))
  have p1: "ok p1" by (rule acquire_switch_ok [OF assms(1,2) s sw])
  show ?thesis
  proof (cases "err1 = None \<and> PolicySet_Resource pols \<noteq> ''''")
    case False
    with Inr rp sw show ?thesis by (cases err1) (auto simp: acquireHandler_def Let_def)
  next
    case True
    have t: "pols_terms T (assigned req pols) pols" using admit Inr rp True by (simp add: request_ok_def)
    from acquire_total [OF p1 assms(3) t s hosts v] obtain p2 ev2 res where
      "acquire s env clock (assigned req pols) (MergeProperties [rq_Properties req, PolicySet_Properties pols]) pols p1 =
        Inr (p2, ev2, res)" by blast
    with Inr rp sw True show ?thesis by (cases res) (auto simp: acquireHandler_def Let_def)
  qed
qed

lemma releaseHandler_total:
  assumes "ok p" and "\<forall>n. calm (env n)" and s: "sc_LeaseProvider s = prov" "sc_sort s = srt"
    and valid: "\<forall>all. sc_Policies s = Inr all \<longrightarrow> (\<forall>pol \<in> set all. strategy_Valid (pol_Strategy pol))"
  shows "\<exists>p' ev resp. releaseHandler s env clock r p = Inr (p', ev, resp)"
proof (cases "initRequest s r")
  case (Inl e)
  then show ?thesis by (simp add: releaseHandler_def)
next
  case (Inr rp)
  obtain req pols where rp: "rp = (req, pols)" by fastforce
  from release_total [OF assms(1,2) s initRequest_pols [OF Inr [unfolded rp] valid]]
  obtain p1 ev1 err1 where "release s env clock (rq_Subject req) pols p = Inr (p1, ev1, err1)" by blast
  with Inr rp show ?thesis by (cases err1) (auto simp: releaseHandler_def Let_def)
qed

end

interpretation memGuardian: guardian "MemProv insertionSort" "\<lambda>_. True" mem_content mem_revision insertionSort T
  for T :: terms
  by unfold_locales

end
