(* ===== verification/EndToEnd.thy ===== *)
theory EndToEnd
  imports Maintainer ServerOps
begin

text \<open>
  The client side and the server side together. The world of the client's network is the
  store of a guardian server: \<open>connected\<close> says that a response to a POST of the client is what
  the server's handler answers to that form, whatever order the form arrives in, and that an
  exchange of any kind leaves the store in order. Then what a lease maintainer believes is
  true: a lease it reports as acquired while online is held by the store for its instance.
\<close>

lemma acquireHandler_request:
  assumes "acquireHandler s renv rclock env clock r p = Inr (p', ev, resp)" and "rs_Body resp = AcquireBody b"
  shows "\<exists>req pols. initRequest s r = Inr (req, pols) \<and> ar_Request b = req\<lparr>rq_Subject := assigned req pols\<rparr>"
proof -
  from assms obtain req pols where i: "initRequest s r = Inr (req, pols)"
    by (cases "initRequest s r") (auto simp: acquireHandler_def http_Error_def)
  from assms(1) i obtain p1 ev1 err1 where sw: "acquire_switch s renv rclock req pols p = Inr (p1, ev1, err1)"
    by (auto simp: acquireHandler_def go_bind_eq_Inr)
  have ok: "err1 = None \<and> PolicySet_Resource pols \<noteq> ''''"
    using assms i sw by (auto simp: acquireHandler_def http_Error_def Let_def split: option.splits)
  with assms(1) i sw obtain p2 ev2 res where
    acq: "acquire s env clock (assigned req pols) (MergeProperties [rq_Properties req, PolicySet_Properties pols]) pols p1 =
      Inr (p2, ev2, res)" by (auto simp: acquireHandler_def go_bind_eq_Inr Let_def)
  have "ar_Request b = req\<lparr>rq_Subject := assigned req pols\<rparr>"
    using assms i sw ok acq
    by (cases res) (auto simp: acquireHandler_def http_Error_def Let_def split: if_split_asm)
  with i show ?thesis by blast
qed

lemma initRequest_parsed: "initRequest s r = Inr (req, pols) \<Longrightarrow> parseRequest r = Inr req"
  by (auto simp: initRequest_def split: sum.splits if_splits)

definition connected ::
  "terms \<Rightarrow> ('p \<Rightarrow> bool) \<Rightarrow> ('p \<Rightarrow> string \<Rightarrow> leases) \<Rightarrow> ('p \<Rightarrow> string \<Rightarrow> 64 word) \<Rightarrow> 'p server \<Rightarrow> 'p network \<Rightarrow> bool" where
  "connected T invar content revision s net \<longleftrightarrow>
     (\<forall>w url x w' r. store_ok T invar content w \<longrightarrow> nw_Do net w url x = (w', r) \<longrightarrow> store_ok T invar content w') \<and>
     (\<forall>w e f w' resp. store_ok T invar content w \<longrightarrow> nw_Do net w (Endpoint_prefix e @ ''acquire'') (POST f) = (w', Inr resp) \<longrightarrow>
        (\<exists>f' renv rclock env clock ev. mset f' = mset f \<and> request_ok T s (Inr f') \<and>
          (\<forall>n. env_ok T invar content revision (renv n)) \<and> (\<forall>n. env_ok T invar content revision (env n)) \<and>
          acquireHandler s renv rclock env clock (Inr f') w = Inr (w', ev, resp)))"

definition holds :: "('p \<Rightarrow> string \<Rightarrow> leases) \<Rightarrow> 'p \<Rightarrow> instance_t \<Rightarrow> lease \<Rightarrow> bool" where
  "holds content w inst l \<longleftrightarrow> ls_Instance l = inst \<and> l \<in> set (content w (ls_Resource l))"

definition lease_own :: "maintainer \<Rightarrow> bool" where
  "lease_own lm \<longleftrightarrow> (lt_Acquired (lm_state lm) \<longrightarrow> ls_Instance (lt_Lease (lm_state lm)) = lm_instance lm) \<and>
     distinct (map fst (lm_props lm)) \<and> (\<forall>k. reserved k \<longrightarrow> map_of (lm_props lm) k = None)"

locale deployment = guardian prov invar content revision srt T
  for prov :: "'p provider" and invar :: "'p \<Rightarrow> bool" and content :: "'p \<Rightarrow> string \<Rightarrow> leases"
    and revision :: "'p \<Rightarrow> string \<Rightarrow> 64 word" and srt :: sorter and T :: terms +
  fixes s :: "'p server" and net :: "'p network" and resolve :: "'p resolver"
  assumes server: "sc_LeaseProvider s = prov" "sc_sort s = srt"
    and connected: "connected T invar content revision s net"
    and resolve_ok: "ok w \<Longrightarrow> resolve w = (w', r) \<Longrightarrow> ok w'"
begin

lemma exchange_ok: "ok w \<Longrightarrow> nw_Do net w url x = (w', r) \<Longrightarrow> ok w'"
  using connected unfolding connected_def by blast

lemma get_ok: "ok w \<Longrightarrow> Endpoint_get net decode e path w = (w', r) \<Longrightarrow> ok w'"
  using exchange_ok by (auto simp: Endpoint_get_def split: if_splits option.splits prod.splits sum.splits)

lemma post_ok: "ok w \<Longrightarrow> Endpoint_post net decode e path subject order w = (w', r) \<Longrightarrow> ok w'"
  using exchange_ok by (auto simp: Endpoint_post_def split: if_splits option.splits prod.splits sum.splits)

lemma Select_loop_ok: "ok w \<Longrightarrow> Select_loop net failed es w = (w', r) \<Longrightarrow> ok w'"
proof (induction es arbitrary: failed w)
  case (Cons e es)
  obtain w1 r1 where h: "Endpoint_Health net e w = (w1, r1)" by fastforce
  have "ok w1" using get_ok [OF Cons.prems(1)] h by (auto simp: Endpoint_Health_def)
  with Cons.IH Cons.prems(2) h show ?case by (cases r1) (auto split: if_splits)
qed simp

lemma Select_ok:
  assumes "ok w" and "EndpointSet_Select net es w = (w', r)"
  shows "ok w'"
proof (cases "nw_ctx net w")
  case (Some e)
  with assms show ?thesis by (simp add: EndpointSet_Select_def)
next
  case None
  obtain w1 r1 where L1: "Select_loop net [] es w = (w1, r1)" by fastforce
  have w1: "ok w1" by (rule Select_loop_ok [OF assms(1) L1])
  show ?thesis
  proof (cases r1)
    case (Inr e)
    with assms(2) None L1 w1 show ?thesis by (simp add: EndpointSet_Select_def)
  next
    case (Inl failed)
    obtain w2 r2 where L2: "Select_loop net failed es w1 = (w2, r2)" by fastforce
    have "ok w2" by (rule Select_loop_ok [OF w1 L2])
    with assms(2) None L1 Inl L2 show ?thesis by (cases r2) (simp_all add: EndpointSet_Select_def)
  qed
qed

lemma resolve_select_ok:
  assumes "ok w" and "resolve w = (w1, Inr es)" and "EndpointSet_Select net es w1 = (w2, r)"
  shows "ok w2"
  by (rule Select_ok [OF resolve_ok [OF assms(1,2)] assms(3)])

lemma failover_ok:
  assumes "ok w" and run: "Client_failover net resolve essential c w = (w', c', r)"
  shows "ok w'"
proof -
  obtain w1 r1 where S: "EndpointSet_Select net (cl_endpoints c) w = (w1, r1)" by fastforce
  have w1: "ok w1" by (rule Select_ok [OF assms(1) S])
  obtain w2 r2 where R: "resolve w1 = (w2, r2)" by fastforce
  have w2: "ok w2" by (rule resolve_ok [OF w1 R])
  have last: "ok w3" if "r2 = Inr es" "EndpointSet_Select net es w2 = (w3, r3)" for es w3 r3
    by (rule Select_ok [OF w2 that(2)])
  show ?thesis using run assms(1) S w1 R w2 last
    by (cases r1; cases r2) (auto simp: Client_failover_def Let_def split: option.splits if_splits prod.splits sum.splits)
qed

text \<open>A granted acquisition is held by the store, for the instance that asked.\<close>

lemma Endpoint_Acquire_holds:
  assumes "ok w" and "Endpoint_Acquire net e subject order w = (w', Inr b)"
    and "distinct (map fst order)" and free: "\<And>k. reserved k \<Longrightarrow> map_of order k = None"
  shows "holds content w' (sub_Instance subject) (ar_Lease b)"
proof -
  from assms(2) obtain resp where D: "nw_Do net w (Endpoint_prefix e @ ''acquire'') (POST (urlValues subject order)) = (w', Inr resp)"
    and body: "rs_Body resp = AcquireBody b"
    by (auto simp: Endpoint_Acquire_def Endpoint_post_def decode_acquire_def
        split: if_splits option.splits prod.splits sum.splits body.splits)
  from connected assms(1) D obtain f' renv rclock env clock ev where
    wire: "mset f' = mset (urlValues subject order)" and admit: "request_ok T s (Inr f')"
    and env: "\<forall>n. calm (renv n)" "\<forall>n. calm (env n)"
    and H: "acquireHandler s renv rclock env clock (Inr f') w = Inr (w', ev, resp)"
    unfolding connected_def by blast
  from acquireHandler_request [OF H body] obtain req pols where i: "initRequest s (Inr f') = Inr (req, pols)"
    and r: "ar_Request b = req\<lparr>rq_Subject := assigned req pols\<rparr>" by blast
  have "parseRequest (Inr f') = Inr \<lparr>rq_Subject = subject, rq_Properties = map_of order\<rparr>"
    by (rule urlValues_roundtrip [OF _ free wire]) (simp add: map_order_def assms(3))
  with initRequest_parsed [OF i] have "rq_Subject req = subject" by auto
  with acquireHandler_ok [OF assms(1) env admit server H] body r show ?thesis
    by (auto simp: holds_def)
qed

lemma Client_Acquire_holds:
  assumes "ok w" and run: "Client_Acquire net resolve subject order c w = (w', c', Inr b)"
    and "distinct (map fst order)" and free: "\<And>k. reserved k \<Longrightarrow> map_of order k = None"
  shows "holds content w' (sub_Instance subject) (ar_Lease b)"
proof -
  obtain w1 r1 where A: "Endpoint_Acquire net (cl_endpoint c) subject order w = (w1, r1)" by fastforce
  have w1: "ok w1" using post_ok [OF assms(1)] A by (auto simp: Endpoint_Acquire_def)
  show ?thesis
  proof (cases r1)
    case (Inr b1)
    with run A have "w' = w1" "b = b1" by (auto simp: Client_Acquire_def with_failover_def)
    with Endpoint_Acquire_holds [OF assms(1) A [unfolded Inr] assms(3) free] show ?thesis by simp
  next
    case (Inl err)
    obtain w2 c2 r2 where F: "Client_failover net resolve False c w1 = (w2, c2, r2)" by (metis prod_cases3)
    from failover_ok [OF w1 F] have w2: "ok w2" .
    from run A Inl F obtain e where "r2 = Inr e" "Endpoint_Acquire net e subject order w2 = (w', Inr b)"
      by (auto simp: Client_Acquire_def with_failover_def Let_def split: if_splits sum.splits prod.splits)
    with Endpoint_Acquire_holds [OF w2 _ assms(3) free] show ?thesis by blast
  qed
qed

lemma Client_Acquire_ok:
  assumes "ok w" and run: "Client_Acquire net resolve subject order c w = (w', c', r)"
  shows "ok w'"
proof -
  obtain w1 r1 where A: "Endpoint_Acquire net (cl_endpoint c) subject order w = (w1, r1)" by fastforce
  have w1: "ok w1" using post_ok [OF assms(1)] A by (auto simp: Endpoint_Acquire_def)
  obtain w2 c2 r2 where F: "Client_failover net resolve False c w1 = (w2, c2, r2)" by (metis prod_cases3)
  have w2: "ok w2" by (rule failover_ok [OF w1 F])
  have last: "ok w3" if "Endpoint_Acquire net e subject order w2 = (w3, r3)" for e w3 r3
    by (rule post_ok [OF w2 that [unfolded Endpoint_Acquire_def]])
  show ?thesis using run A w1 F w2 last
    by (cases r1; cases r2) (auto simp: Client_Acquire_def with_failover_def Let_def split: if_splits prod.splits)
qed

text \<open>
  One turn of the maintainer's loop: if it ends online with a lease, the store holds that
  lease for the maintainer's instance.
\<close>

lemma tick_holds:
  assumes "ok w" and own: "lease_own lm" and run: "tick net resolve lm w = (w', lm', d)"
  shows "ok w' \<and> lease_own lm' \<and> (lt_Online (lm_state lm') \<and> lt_Acquired (lm_state lm') \<longrightarrow>
    holds content w' (lm_instance lm') (lt_Lease (lm_state lm')))"
proof -
  obtain w1 c r where C: "Client_Acquire net resolve (acquire_subject lm) (lm_props lm) (lm_client lm) w = (w1, c, r)"
    by (metis prod_cases3)
  have out: "w' = w1" "lm' = lm\<lparr>lm_client := c, lm_state := acquired_state (lm_state lm) r,
      lm_listeners := broadcast (acquired_state (lm_state lm) r) (lm_listeners lm)\<rparr>"
    using run C by (auto simp: tick_def Maintainer_acquire_def Let_def)
  have inst: "sub_Instance (acquire_subject lm) = lm_instance lm"
    using own by (simp add: acquire_subject_def lease_own_def)
  have w1: "ok w1" by (rule Client_Acquire_ok [OF assms(1) C])
  show ?thesis
  proof (cases r)
    case (Inl e)
    with own w1 show ?thesis by (auto simp: out acquired_state_def lease_own_def)
  next
    case (Inr b)
    from own have "holds content w1 (sub_Instance (acquire_subject lm)) (ar_Lease b)"
      by (intro Client_Acquire_holds [OF assms(1) C [unfolded Inr]]) (auto simp: lease_own_def)
    with own w1 inst Inr show ?thesis by (auto simp: out acquired_state_def lease_own_def holds_def)
  qed
qed

end

section \<open>A network with one guardian\<close>

text \<open>
  The multiplexer that \<^verbatim>\<open>Run\<close> sets up, for one exchange at a time; a panic of a handler ends
  the connection without a response.
\<close>

definition route :: "'p server \<Rightarrow> (nat \<Rightarrow> time) \<Rightarrow> 'p \<Rightarrow> string \<Rightarrow> exchange \<Rightarrow> ('p \<times> response) go" where
  "route s clock p url x =
     (let f = (case x of GET \<Rightarrow> [] | POST f \<Rightarrow> f) in
      if strings_HasSuffix url ''/health'' then Inr (p, healthHandler s)
      else if strings_HasSuffix url ''/policies'' then Inr (p, policiesHandler s ''application/json'')
      else if strings_HasSuffix url ''/leases'' then leasesHandler s (\<lambda>_ p. p) (\<lambda>_. clock 0) (Inr f) p
      else if strings_HasSuffix url ''/acquire''
      then go_bind (acquireHandler s (\<lambda>_ p. p) clock (\<lambda>_ p. p) clock (Inr f) p) (\<lambda>(p, ev, resp). Inr (p, resp))
      else if strings_HasSuffix url ''/release''
      then go_bind (releaseHandler s (\<lambda>_ p. p) clock (Inr f) p) (\<lambda>(p, ev, resp). Inr (p, resp))
      else Inr (p, http_Error ''404 page not found'' 404))"

definition loopback :: "'p server \<Rightarrow> (nat \<Rightarrow> time) \<Rightarrow> 'p network" where
  "loopback s clock = \<lparr>nw_Do = (\<lambda>p url x. case route s clock p url x of
       Inl pn \<Rightarrow> (p, Inl ''EOF'') | Inr (p, resp) \<Rightarrow> (p, Inr resp)),
     nw_ctx = (\<lambda>_. None), nw_now = (\<lambda>_. clock 0)\<rparr>"

lemma prefix_slash: "\<exists>pre. Endpoint_prefix e = pre @ ''/''"
  by (simp add: Endpoint_prefix_def Let_def HasSuffix_iff)

lemma route_acquire:
  assumes "route s clock p (Endpoint_prefix e @ ''acquire'') (POST f) = Inr (p', resp)"
  shows "\<exists>ev. acquireHandler s (\<lambda>_ p. p) clock (\<lambda>_ p. p) clock (Inr f) p = Inr (p', ev, resp)"
proof -
  obtain pre where "Endpoint_prefix e = pre @ ''/''" using prefix_slash by blast
  with assms show ?thesis
    by (auto simp: route_def HasSuffix_iff go_bind_eq_Inr)
qed

lemma calm_idle: "env_ok T invar content revision (\<lambda>p. p)"
  by (simp add: env_ok_def)

context guardian
begin

lemma route_ok:
  assumes "ok p" and s: "sc_LeaseProvider s = prov" "sc_sort s = srt" and admit: "\<And>f. request_ok T s (Inr f)"
    and run: "route s clock p url x = Inr (p', resp)"
  shows "ok p'"
proof -
  let ?f = "case x of GET \<Rightarrow> [] | POST f \<Rightarrow> f"
  have idle: "\<forall>n. calm ((\<lambda>_ p. p) n)" using calm_idle by simp
  obtain p1 r1 where L: "leasesHandler s (\<lambda>_ p. p) (\<lambda>_. clock 0) (Inr ?f) p = Inr (p1, r1)" "ok p1"
    using leasesHandler_ok [where env = "\<lambda>_ p. p", OF assms(1) _ s] calm_idle by metis
  have A: "ok p2" if "acquireHandler s (\<lambda>_ p. p) clock (\<lambda>_ p. p) clock (Inr ?f) p = Inr (p2, ev, r2)" for p2 ev r2
    using acquireHandler_ok [OF assms(1) idle idle admit s that] by simp
  have R: "ok p2" if "releaseHandler s (\<lambda>_ p. p) clock (Inr ?f) p = Inr (p2, ev, r2)" for p2 ev r2
    by (rule releaseHandler_ok [OF assms(1) idle s that])
  show ?thesis
    using run assms(1) L A R by (auto simp: route_def Let_def go_bind_eq_Inr split: if_splits)
qed

lemma loopback_connected:
  assumes s: "sc_LeaseProvider s = prov" "sc_sort s = srt" and admit: "\<And>f. request_ok T s (Inr f)"
  shows "connected T invar content revision s (loopback s clock)"
  unfolding connected_def
proof (intro conjI allI impI)
  fix w url x w' r
  assume "ok w" and "nw_Do (loopback s clock) w url x = (w', r)"
  then show "ok w'" using route_ok [OF _ s admit]
    by (auto simp: loopback_def split: sum.splits prod.splits)
next
  fix w e f w' resp
  assume "ok w" and "nw_Do (loopback s clock) w (Endpoint_prefix e @ ''acquire'') (POST f) = (w', Inr resp)"
  then obtain ev where "acquireHandler s (\<lambda>_ p. p) clock (\<lambda>_ p. p) clock (Inr f) w = Inr (w', ev, resp)"
    using route_acquire by (fastforce simp: loopback_def split: sum.splits prod.splits)
  then show "\<exists>f' renv rclock env clock ev. mset f' = mset f \<and> request_ok T s (Inr f') \<and>
      (\<forall>n. calm (renv n)) \<and> (\<forall>n. calm (env n)) \<and> acquireHandler s renv rclock env clock (Inr f') w = Inr (w', ev, resp)"
    using admit calm_idle
    by (intro exI [of _ f] exI [of _ "\<lambda>_ p. p"] exI [of _ clock] exI [of _ ev]) simp
qed

lemma loopback_deployment:
  assumes s: "sc_LeaseProvider s = prov" "sc_sort s = srt" and admit: "\<And>f. request_ok T s (Inr f)"
  shows "deployment prov invar content revision srt T s (loopback s clock) (\<lambda>w. (w, Inr es))"
  by unfold_locales (use s loopback_connected [OF s admit] in auto)

end

end
