(* ===== verification/BoltProv.thy ===== *)
theory BoltProv
  imports Provider
begin

text \<open>
  The provider on a bolt database, \<^verbatim>\<open>src/provider/boltprov/provider.go\<close>. The bolt library is not
  part of the repository: the record \<open>boltlib\<close> holds the operations the provider calls, on a
  database \<open>'d\<close> with nested buckets and values \<open>'v\<close>, and the locale \<open>boltdb\<close> what bolt
  documents of them: \<^verbatim>\<open>db.Update\<close> commits when its function returns nil and rolls back when it
  returns an error, buckets map keys to values and carry a sequence number. The encoding of
  a lease set (\<^verbatim>\<open>encoding/json\<close>) is a parameter with a round trip. On these laws the provider
  is a \<open>lease_store\<close>; all resources share one revision, the sequence of the lease bucket.
\<close>

type_synonym path = "string list"

record ('d, 'v) boltlib =
  bl_beginView :: "'d \<Rightarrow> goerror option"
  bl_beginUpdate :: "'d \<Rightarrow> goerror option"
  bl_Bucket :: "'d \<Rightarrow> path \<Rightarrow> bool"
  bl_Sequence :: "'d \<Rightarrow> path \<Rightarrow> 64 word"
  bl_Cursor :: "'d \<Rightarrow> path \<Rightarrow> (string \<times> 'v option) list"
  bl_Get :: "'d \<Rightarrow> path \<Rightarrow> string \<Rightarrow> 'v option"
  bl_CreateBucketIfNotExists :: "'d \<Rightarrow> path \<Rightarrow> goerror + 'd"
  bl_NextSequence :: "'d \<Rightarrow> path \<Rightarrow> goerror + 'd"
  bl_Delete :: "'d \<Rightarrow> path \<Rightarrow> string \<Rightarrow> goerror + 'd"
  bl_Put :: "'d \<Rightarrow> path \<Rightarrow> string \<Rightarrow> 'v \<Rightarrow> goerror + 'd"
  bl_commit :: "'d \<Rightarrow> 'd \<Rightarrow> goerror + 'd"

record 'v codec =
  cd_Marshal :: "leases \<Rightarrow> goerror + 'v"
  cd_Unmarshal :: "'v \<Rightarrow> goerror + leases"

definition ResourcefulBucket :: string where "ResourcefulBucket = ''resourceful''"
definition LeaseBucket :: string where "LeaseBucket = ''lease''"

abbreviation root_path :: path where "root_path \<equiv> [ResourcefulBucket]"
abbreviation lease_path :: path where "lease_path \<equiv> [ResourcefulBucket, LeaseBucket]"

definition db_View :: "('d, 'v) boltlib \<Rightarrow> ('d \<Rightarrow> goerror + 'r) \<Rightarrow> 'd \<Rightarrow> goerror + 'r" where
  "db_View lib fn d = (case bl_beginView lib d of Some e \<Rightarrow> Inl e | None \<Rightarrow> fn d)"

definition db_Update :: "('d, 'v) boltlib \<Rightarrow> ('d \<Rightarrow> goerror + 'd) \<Rightarrow> 'd \<Rightarrow> 'd \<times> goerror option" where
  "db_Update lib fn d =
     (case bl_beginUpdate lib d of
        Some e \<Rightarrow> (d, Some e)
      | None \<Rightarrow> (case fn d of
          Inl e \<Rightarrow> (d, Some e)
        | Inr w \<Rightarrow> (case bl_commit lib d w of Inl e \<Rightarrow> (d, Some e) | Inr d' \<Rightarrow> (d', None))))"

definition BoltProv_LeaseResources :: "('d, 'v) boltlib \<Rightarrow> 'd \<Rightarrow> 'd \<times> (goerror + string list)" where
  "BoltProv_LeaseResources lib d =
     (d, db_View lib (\<lambda>d.
        if \<not> bl_Bucket lib d root_path then Inr []
        else if \<not> bl_Bucket lib d lease_path then Inr []
        else Inr (map fst (filter (\<lambda>(k, v). v \<noteq> None) (bl_Cursor lib d lease_path)))) d)"

definition BoltProv_LeaseView ::
  "('d, 'v) boltlib \<Rightarrow> 'v codec \<Rightarrow> 'd \<Rightarrow> string \<Rightarrow> 'd \<times> (goerror + (64 word \<times> leases))" where
  "BoltProv_LeaseView lib cd d res =
     (d, db_View lib (\<lambda>d.
        if \<not> bl_Bucket lib d root_path then Inr (0, [])
        else if \<not> bl_Bucket lib d lease_path then Inr (0, [])
        else
          let revision = bl_Sequence lib d lease_path in
          case bl_Get lib d lease_path res of
            None \<Rightarrow> Inr (revision, [])
          | Some data \<Rightarrow> (case cd_Unmarshal cd data of Inl e \<Rightarrow> Inl e | Inr xs \<Rightarrow> Inr (revision, xs))) d)"

text \<open>The function that \<^verbatim>\<open>LeaseCommit\<close> runs inside \<^verbatim>\<open>db.Update\<close>.\<close>

definition BoltProv_update :: "('d, 'v) boltlib \<Rightarrow> 'v codec \<Rightarrow> tx \<Rightarrow> 'd \<Rightarrow> goerror + 'd" where
  "BoltProv_update lib cd tx d =
     (case bl_CreateBucketIfNotExists lib d root_path of Inl e \<Rightarrow> Inl e | Inr d \<Rightarrow>
      case bl_CreateBucketIfNotExists lib d lease_path of Inl e \<Rightarrow> Inl e | Inr d \<Rightarrow>
        if bl_Sequence lib d lease_path \<noteq> tx_revision tx then Inl conflict_error
        else (case bl_NextSequence lib d lease_path of Inl e \<Rightarrow> Inl e | Inr d \<Rightarrow>
          if length (tx_leases tx) = 0 then bl_Delete lib d lease_path (tx_resource tx)
          else (case cd_Marshal cd (tx_leases tx) of Inl e \<Rightarrow> Inl e
            | Inr data \<Rightarrow> bl_Put lib d lease_path (tx_resource tx) data)))"

definition BoltProv_LeaseCommit ::
  "('d, 'v) boltlib \<Rightarrow> 'v codec \<Rightarrow> 'd \<Rightarrow> tx \<Rightarrow> 'd \<times> goerror option" where
  "BoltProv_LeaseCommit lib cd d tx =
     (if length (tx_ops tx) = 0 then (d, None) else db_Update lib (BoltProv_update lib cd tx) d)"

definition BoltProv :: "('d, 'v) boltlib \<Rightarrow> 'v codec \<Rightarrow> 'd provider" where
  "BoltProv lib cd = \<lparr>pv_LeaseResources = BoltProv_LeaseResources lib,
     pv_LeaseView = BoltProv_LeaseView lib cd, pv_LeaseCommit = BoltProv_LeaseCommit lib cd\<rparr>"

section \<open>What the database holds\<close>

definition bolt_revision :: "('d, 'v) boltlib \<Rightarrow> 'd \<Rightarrow> string \<Rightarrow> 64 word" where
  "bolt_revision lib d res =
     (if bl_Bucket lib d root_path \<and> bl_Bucket lib d lease_path then bl_Sequence lib d lease_path else 0)"

definition bolt_data :: "('d, 'v) boltlib \<Rightarrow> 'd \<Rightarrow> string \<Rightarrow> 'v option" where
  "bolt_data lib d res =
     (if bl_Bucket lib d root_path \<and> bl_Bucket lib d lease_path then bl_Get lib d lease_path res else None)"

definition bolt_content :: "('d, 'v) boltlib \<Rightarrow> 'v codec \<Rightarrow> 'd \<Rightarrow> string \<Rightarrow> leases" where
  "bolt_content lib cd d res =
     (case bolt_data lib d res of None \<Rightarrow> [] | Some v \<Rightarrow>
        (case cd_Unmarshal cd v of Inl e \<Rightarrow> [] | Inr xs \<Rightarrow> xs))"

text \<open>A nested bucket lives inside its parent, and only through its creation.\<close>

definition bolt_invar :: "('d, 'v) boltlib \<Rightarrow> 'd \<Rightarrow> bool" where
  "bolt_invar lib d \<longleftrightarrow> (bl_Bucket lib d lease_path \<longrightarrow> bl_Bucket lib d root_path)"

lemma path_neq [simp]: "root_path \<noteq> lease_path" by simp

locale boltdb =
  fixes lib :: "('d, 'v) boltlib" and cd :: "'v codec"
  assumes create: "bl_CreateBucketIfNotExists lib d p = Inr d' \<Longrightarrow>
      (\<forall>q. bl_Bucket lib d' q \<longleftrightarrow> q = p \<or> bl_Bucket lib d q) \<and>
      (\<forall>q. bl_Bucket lib d q \<longrightarrow> bl_Get lib d' q = bl_Get lib d q \<and> bl_Sequence lib d' q = bl_Sequence lib d q) \<and>
      (\<not> bl_Bucket lib d p \<longrightarrow> bl_Get lib d' p = (\<lambda>_. None) \<and> bl_Sequence lib d' p = 0)"
    and next_sequence: "bl_NextSequence lib d p = Inr d' \<Longrightarrow> bl_Bucket lib d p \<Longrightarrow>
      bl_Bucket lib d' = bl_Bucket lib d \<and> bl_Get lib d' = bl_Get lib d \<and>
      bl_Sequence lib d' = (bl_Sequence lib d)(p := bl_Sequence lib d p + 1)"
    and delete: "bl_Delete lib d p k = Inr d' \<Longrightarrow> bl_Bucket lib d p \<Longrightarrow>
      bl_Bucket lib d' = bl_Bucket lib d \<and> bl_Sequence lib d' = bl_Sequence lib d \<and>
      bl_Get lib d' = (bl_Get lib d)(p := (bl_Get lib d p)(k := None))"
    and put: "bl_Put lib d p k v = Inr d' \<Longrightarrow> bl_Bucket lib d p \<Longrightarrow>
      bl_Bucket lib d' = bl_Bucket lib d \<and> bl_Sequence lib d' = bl_Sequence lib d \<and>
      bl_Get lib d' = (bl_Get lib d)(p := (bl_Get lib d p)(k \<mapsto> v))"
    and commit: "bl_commit lib d w = Inr d' \<Longrightarrow> d' = w"
    and codec: "cd_Marshal cd xs = Inr v \<Longrightarrow> cd_Unmarshal cd v = Inr xs"
begin

lemma prepared:
  assumes "bl_CreateBucketIfNotExists lib d root_path = Inr d1"
    and "bl_CreateBucketIfNotExists lib d1 lease_path = Inr d2" and "bolt_invar lib d"
  shows "bl_Bucket lib d2 root_path" "bl_Bucket lib d2 lease_path"
    "bl_Sequence lib d2 lease_path = bolt_revision lib d res"
    "bl_Get lib d2 lease_path = bolt_data lib d"
  using create [OF assms(1)] create [OF assms(2)] assms(3)
  by (auto simp: bolt_revision_def bolt_data_def bolt_invar_def fun_eq_iff)

lemma update_result:
  assumes run: "BoltProv_update lib cd tx d = Inr w" and inv: "bolt_invar lib d"
  shows "tx_revision tx = bolt_revision lib d res" and "bolt_invar lib w"
    and "bolt_revision lib w res = bolt_revision lib d res + 1"
    and "bolt_content lib cd w (tx_resource tx) = tx_leases tx"
    and "r \<noteq> tx_resource tx \<Longrightarrow> bolt_content lib cd w r = bolt_content lib cd d r"
proof -
  from run obtain d1 d2 d3 where c: "bl_CreateBucketIfNotExists lib d root_path = Inr d1"
      "bl_CreateBucketIfNotExists lib d1 lease_path = Inr d2"
    and n: "bl_NextSequence lib d2 lease_path = Inr d3" and r: "bl_Sequence lib d2 lease_path = tx_revision tx"
    and w: "(if length (tx_leases tx) = 0 then bl_Delete lib d3 lease_path (tx_resource tx)
       else (case cd_Marshal cd (tx_leases tx) of Inl e \<Rightarrow> Inl e
          | Inr data \<Rightarrow> bl_Put lib d3 lease_path (tx_resource tx) data)) = Inr w"
    by (auto simp: BoltProv_update_def split: sum.splits if_splits)
  note P = prepared [OF c inv]
  note N = next_sequence [OF n P(2)]
  have b3: "bl_Bucket lib d3 lease_path" using N P(2) by simp
  obtain v where W: "bl_Bucket lib w = bl_Bucket lib d3" "bl_Sequence lib w = bl_Sequence lib d3"
      "bl_Get lib w = (bl_Get lib d3)(lease_path := (bl_Get lib d3 lease_path)(tx_resource tx := v))"
    and v: "v = None \<and> tx_leases tx = [] \<or> (\<exists>data. v = Some data \<and> cd_Unmarshal cd data = Inr (tx_leases tx))"
    using w delete [OF _ b3] put [OF _ b3] codec by (auto split: if_splits sum.splits)
  have data: "bolt_data lib w = (bolt_data lib d)(tx_resource tx := v)"
    using W N P by (auto simp: bolt_data_def)
  show "tx_revision tx = bolt_revision lib d res" using r P(3) by simp
  show "bolt_invar lib w" using W N P by (simp add: bolt_invar_def)
  show "bolt_revision lib w res = bolt_revision lib d res + 1"
    using W N P(1,2) P(3) [of res] by (simp add: bolt_revision_def [of lib w])
  show "bolt_content lib cd w (tx_resource tx) = tx_leases tx" using data v by (auto simp: bolt_content_def)
  show "r \<noteq> tx_resource tx \<Longrightarrow> bolt_content lib cd w r = bolt_content lib cd d r"
    using data by (simp add: bolt_content_def)
qed

lemma commit_cases:
  assumes "BoltProv_LeaseCommit lib cd d tx = (d', r)"
  shows "tx_ops tx = [] \<and> d' = d \<and> r = None \<or> (\<exists>e. d' = d \<and> r = Some e) \<or>
    r = None \<and> tx_ops tx \<noteq> [] \<and> BoltProv_update lib cd tx d = Inr d'"
  using assms commit
  by (auto simp: BoltProv_LeaseCommit_def db_Update_def split: if_splits option.splits sum.splits)

lemma BoltProv_store: "lease_store (BoltProv lib cd) (bolt_invar lib) (bolt_content lib cd) (bolt_revision lib)"
proof (unfold_locales, goal_cases)
  case (1 p p' names)
  then show ?case by (simp add: BoltProv_def BoltProv_LeaseResources_def)
next
  case (2 p res p' r)
  then show ?case
    by (auto simp: BoltProv_def BoltProv_LeaseView_def db_View_def bolt_revision_def bolt_content_def
        bolt_data_def Let_def split: option.splits sum.splits if_splits)
next
  case (3 p tx)
  then show ?case by (simp add: BoltProv_def BoltProv_LeaseCommit_def)
next
  case (4 p tx)
  then show ?case
    using update_result(1) [of tx p] commit_cases [of p tx]
    by (cases "BoltProv_LeaseCommit lib cd p tx") (auto simp: BoltProv_def)
next
  case (5 p tx p' e)
  then show ?case using commit_cases [of p tx p' "Some e"] by (auto simp: BoltProv_def)
next
  case (6 p tx p')
  then have "BoltProv_update lib cd tx p = Inr p'"
    using commit_cases [of p tx p' None] by (auto simp: BoltProv_def)
  with 6 update_result [of tx p p'] show ?case by auto
qed

end

sublocale boltdb \<subseteq> bolt: lease_store "BoltProv lib cd" "bolt_invar lib" "bolt_content lib cd" "bolt_revision lib"
  by (rule BoltProv_store)

section \<open>A database in memory\<close>

text \<open>
  A model of bolt without I/O errors: buckets by their path, each with its sequence and the
  pairs it holds. It meets the laws, and makes the provider executable.
\<close>

type_synonym 'v memdb = "(path, 64 word \<times> (string, 'v) gomap) gomap"

definition mdb_bucket :: "'v memdb \<Rightarrow> path \<Rightarrow> 64 word \<times> (string, 'v) gomap" where
  "mdb_bucket d p = (case map_of d p of None \<Rightarrow> (0, []) | Some b \<Rightarrow> b)"

definition memory_bolt :: "('v memdb, 'v) boltlib" where
  "memory_bolt = \<lparr>bl_beginView = (\<lambda>d. None), bl_beginUpdate = (\<lambda>d. None),
     bl_Bucket = (\<lambda>d p. map_of d p \<noteq> None), bl_Sequence = (\<lambda>d p. fst (mdb_bucket d p)),
     bl_Cursor = (\<lambda>d p. map (\<lambda>(k, v). (k, Some v)) (snd (mdb_bucket d p))),
     bl_Get = (\<lambda>d p. map_of (snd (mdb_bucket d p))),
     bl_CreateBucketIfNotExists = (\<lambda>d p. Inr (if map_of d p = None then gm_put d p (0, []) else d)),
     bl_NextSequence = (\<lambda>d p. Inr (gm_put d p (fst (mdb_bucket d p) + 1, snd (mdb_bucket d p)))),
     bl_Delete = (\<lambda>d p k. Inr (gm_put d p (fst (mdb_bucket d p), gm_delete (snd (mdb_bucket d p)) k))),
     bl_Put = (\<lambda>d p k v. Inr (gm_put d p (fst (mdb_bucket d p), gm_put (snd (mdb_bucket d p)) k v))),
     bl_commit = (\<lambda>d w. Inr w)\<rparr>"

definition plain_codec :: "leases codec" where
  "plain_codec = \<lparr>cd_Marshal = Inr, cd_Unmarshal = Inr\<rparr>"

interpretation boltMem: boltdb "memory_bolt :: (leases memdb, leases) boltlib" plain_codec
  by unfold_locales
    (auto simp: memory_bolt_def plain_codec_def mdb_bucket_def gm_put_def gm_delete_def update_conv' delete_conv'
      fun_eq_iff split: if_splits)

end
