(* ===== verification/GoTime.thy ===== *)
theory GoTime
  imports GoStrings
begin

text \<open>
  Durations as text: the methods \<^verbatim>\<open>Duration.String\<close> and \<^verbatim>\<open>time.ParseDuration\<close> of Go's package \<^verbatim>\<open>time\<close>, which
  policies use in their JSON form and the transaction log in its schedules. Strings are lists
  of bytes, so the micro sign is two of them. The parser computes fractions in floating point: where
  the unit is a multiple of the scale of the fraction the value is exact, elsewhere the rounded
  product is the parameter \<open>fl\<close>.
\<close>

section \<open>Printing\<close>

definition digit_char :: "nat \<Rightarrow> char" where
  "digit_char n = char_of (48 + n)"

fun fmtFrac_loop :: "nat \<Rightarrow> bool \<Rightarrow> nat \<Rightarrow> string \<Rightarrow> string \<times> bool \<times> nat" where
  "fmtFrac_loop 0 print v buf = (buf, print, v)"
| "fmtFrac_loop (Suc i) print v buf =
     (let d = v mod 10; print = (print \<or> d \<noteq> 0); buf = (if print then digit_char d # buf else buf)
      in fmtFrac_loop i print (v div 10) buf)"

definition fmtFrac :: "nat \<Rightarrow> nat \<Rightarrow> string \<Rightarrow> string \<times> nat" where
  "fmtFrac v prec buf =
     (let (buf, print, v) = fmtFrac_loop prec False v buf
      in (if print then CHR ''.'' # buf else buf, v))"

definition micro :: string where "micro = [CHR 0xC2, CHR 0xB5]"

text \<open>A magnitude, without its sign.\<close>

definition magnitude :: "nat \<Rightarrow> string" where
  "magnitude u =
     (if u < 10 ^ 9 then
        (if u = 0 then ''0s''
         else
           let (prec, unit) = (if u < 10 ^ 3 then (0, ''ns'') else if u < 10 ^ 6 then (3, micro @ ''s'') else (6, ''ms''));
               (buf, u) = fmtFrac u prec unit
           in itoa u @ buf)
      else
        let (buf, u) = fmtFrac u 9 ''s'';
            buf = itoa (u mod 60) @ buf; u = u div 60
        in if u > 0 then
             let buf = itoa (u mod 60) @ ''m'' @ buf; u = u div 60
             in if u > 0 then itoa u @ ''h'' @ buf else buf
           else buf)"

definition Duration_String :: "duration \<Rightarrow> string" where
  "Duration_String d = (if d < 0 then CHR ''-'' # magnitude (nat \<bar>d\<bar>) else magnitude (nat \<bar>d\<bar>))"

section \<open>Parsing\<close>

definition is_digit :: "char \<Rightarrow> bool" where
  "is_digit c \<longleftrightarrow> 48 \<le> (of_char c :: nat) \<and> (of_char c :: nat) \<le> 57"

definition digit_value :: "char \<Rightarrow> nat" where
  "digit_value c = of_char c - 48"

fun leadingInt :: "nat \<Rightarrow> string \<Rightarrow> (nat \<times> string) option" where
  "leadingInt x [] = Some (x, [])"
| "leadingInt x (c # s) =
     (if \<not> is_digit c then Some (x, c # s)
      else if x > 2 ^ 63 div 10 then None
      else let x = x * 10 + digit_value c in
        if x > 2 ^ 63 then None else leadingInt x s)"

fun leadingFraction :: "bool \<Rightarrow> nat \<Rightarrow> nat \<Rightarrow> string \<Rightarrow> nat \<times> nat \<times> string" where
  "leadingFraction overflow x scale [] = (x, scale, [])"
| "leadingFraction overflow x scale (c # s) =
     (if \<not> is_digit c then (x, scale, c # s)
      else if overflow then leadingFraction overflow x scale s
      else if x > (2 ^ 63 - 1) div 10 then leadingFraction True x scale s
      else let y = x * 10 + digit_value c in
        if y > 2 ^ 63 then leadingFraction True x scale s
        else leadingFraction False y (scale * 10) s)"

definition unitMap :: "string \<Rightarrow> nat option" where
  "unitMap u =
     (if u = ''ns'' then Some 1
      else if u = ''us'' \<or> u = micro @ ''s'' \<or> u = [CHR 0xCE, CHR 0xBC] @ ''s'' then Some (10 ^ 3)
      else if u = ''ms'' then Some (10 ^ 6)
      else if u = ''s'' then Some (10 ^ 9)
      else if u = ''m'' then Some (60 * 10 ^ 9)
      else if u = ''h'' then Some (3600 * 10 ^ 9)
      else None)"

definition fraction_value :: "(nat \<Rightarrow> nat \<Rightarrow> nat \<Rightarrow> nat) \<Rightarrow> nat \<Rightarrow> nat \<Rightarrow> nat \<Rightarrow> nat" where
  "fraction_value fl f unit scale =
     (if scale dvd unit \<and> f * (unit div scale) < 2 ^ 53 then f * (unit div scale) else fl f unit scale)"

definition unit_char :: "char \<Rightarrow> bool" where
  "unit_char c \<longleftrightarrow> \<not> (c = CHR ''.'' \<or> is_digit c)"

text \<open>One turn of the loop: a number, a fraction, a unit; the value is \<open>None\<close> on an error.\<close>

definition parse_number :: "string \<Rightarrow> (nat \<times> nat \<times> nat \<times> string) option" where
  "parse_number s =
     (case leadingInt 0 s of
        None \<Rightarrow> None
      | Some (v, t) \<Rightarrow>
          let pre = (length s \<noteq> length t) in
          (case t of
             c # t' \<Rightarrow>
               if c = CHR ''.'' then
                 (let (f, scale, t'') = leadingFraction False 0 1 t'; post = (length t' \<noteq> length t'')
                  in if \<not> pre \<and> \<not> post then None else Some (v, f, scale, t''))
               else if \<not> pre then None else Some (v, 0, 1, t)
           | [] \<Rightarrow> if \<not> pre then None else Some (v, 0, 1, t)))"

definition parse_unit :: "(nat \<Rightarrow> nat \<Rightarrow> nat \<Rightarrow> nat) \<Rightarrow> string \<Rightarrow> (nat \<times> string) option" where
  "parse_unit fl s =
     (case s of
        [] \<Rightarrow> None
      | c # _ \<Rightarrow>
          if \<not> (c = CHR ''.'' \<or> is_digit c) then None
          else case parse_number s of
            None \<Rightarrow> None
          | Some (v, f, scale, t) \<Rightarrow>
              let u = takeWhile unit_char t; t = dropWhile unit_char t in
              if u = [] then None
              else (case unitMap u of
                None \<Rightarrow> None
              | Some unit \<Rightarrow>
                  if v > 2 ^ 63 div unit then None
                  else let v = v * unit in
                    if f > 0 then
                      (let v = v + fraction_value fl f unit scale in if v > 2 ^ 63 then None else Some (v, t))
                    else Some (v, t)))"

lemma leadingInt_shorter: "leadingInt x s = Some (v, t) \<Longrightarrow> length t \<le> length s"
  by (induction x s rule: leadingInt.induct) (auto simp: Let_def split: if_splits)

lemma leadingFraction_shorter: "leadingFraction ov x scale s = (f, scale', t) \<Longrightarrow> length t \<le> length s"
proof (induction ov x scale s rule: leadingFraction.induct)
  case (2 ov x scale c s)
  then show ?case by (auto simp: Let_def split: if_splits)
qed simp

lemma parse_number_shorter: "parse_number s = Some (v, f, scale, t) \<Longrightarrow> length t \<le> length s"
  by (auto simp: parse_number_def Let_def dest!: leadingInt_shorter leadingFraction_shorter
      split: option.splits list.splits if_splits prod.splits)

lemma parse_unit_shorter:
  assumes "parse_unit fl s = Some (v, t)"
  shows "length t < length s"
proof -
  from assms obtain n f scale r where r: "parse_number s = Some (n, f, scale, r)" "takeWhile unit_char r \<noteq> []" "t = dropWhile unit_char r"
    by (auto simp: parse_unit_def Let_def split: option.splits list.splits if_splits)
  then have "length t < length r"
    by (metis add_cancel_left_left le_neq_implies_less length_0_conv length_append length_dropWhile_le takeWhile_dropWhile_id)
  with parse_number_shorter [OF r(1)] show ?thesis by simp
qed

function ParseDuration_loop :: "(nat \<Rightarrow> nat \<Rightarrow> nat \<Rightarrow> nat) \<Rightarrow> nat \<Rightarrow> string \<Rightarrow> nat option" where
  "ParseDuration_loop fl d s =
     (if s = [] then Some d
      else case parse_unit fl s of
        None \<Rightarrow> None
      | Some (v, t) \<Rightarrow> let d = (d + v) mod 2 ^ 64 in if d > 2 ^ 63 then None else ParseDuration_loop fl d t)"
  by pat_completeness auto
termination
  by (relation "measure (\<lambda>(fl, d, s). length s)") (auto dest: parse_unit_shorter)

declare ParseDuration_loop.simps [simp del]

definition ParseDuration :: "(nat \<Rightarrow> nat \<Rightarrow> nat \<Rightarrow> nat) \<Rightarrow> string \<Rightarrow> duration option" where
  "ParseDuration fl s =
     (let (neg, s) = (case s of c # t \<Rightarrow> if c = CHR ''-'' \<or> c = CHR ''+'' then (c = CHR ''-'', t) else (False, s) | [] \<Rightarrow> (False, s)) in
      if s = ''0'' then Some 0
      else if s = [] then None
      else case ParseDuration_loop fl 0 s of
        None \<Rightarrow> None
      | Some d \<Rightarrow> if neg then Some (- int d) else if d > 2 ^ 63 - 1 then None else Some (int d))"

section \<open>Digits\<close>

lemma digit_char_simps [simp]: "n < 10 \<Longrightarrow> is_digit (digit_char n)" "n < 10 \<Longrightarrow> digit_value (digit_char n) = n"
  by (auto simp: is_digit_def digit_value_def digit_char_def)

lemma digit_not_unit [simp]: "n < 10 \<Longrightarrow> \<not> unit_char (digit_char n)"
  by (simp add: unit_char_def)

lemma itoa_simps: "itoa n = (if n < 10 then [digit_char n] else itoa (n div 10) @ [digit_char (n mod 10)])"
  by (simp add: itoa.simps [of n] digit_char_def)

lemma leadingInt_itoa: "n \<le> 2 ^ 63 \<Longrightarrow> leadingInt 0 (itoa n @ rest) = leadingInt n rest"
proof (induction n arbitrary: rest rule: itoa.induct)
  case (1 n)
  show ?case
  proof (cases "n < 10")
    case True
    then show ?thesis by (simp add: itoa_simps [of n])
  next
    case False
    have "n div 10 \<le> 2 ^ 63 div 10" using 1 by (intro div_le_mono) simp
    moreover have "n div 10 * 10 + n mod 10 = n" by simp
    ultimately show ?thesis using 1 False by (simp add: itoa_simps [of n] Let_def)
  qed
qed

lemma leadingInt_stop: "rest = [] \<or> \<not> is_digit (hd rest) \<Longrightarrow> leadingInt n rest = Some (n, rest)"
  by (cases rest) auto

lemma itoa_nonempty [simp]: "itoa n \<noteq> []"
  by (simp add: itoa.simps [of n])

lemma itoa_hd: "is_digit (hd (itoa n))"
proof (induction n rule: itoa.induct)
  case (1 n)
  then show ?case by (cases "n < 10") (simp_all add: itoa_simps [of n])
qed

text \<open>The digits of a fraction, with leading zeros.\<close>

fun pad :: "nat \<Rightarrow> nat \<Rightarrow> string" where
  "pad 0 v = []"
| "pad (Suc k) v = pad k (v div 10) @ [digit_char (v mod 10)]"

lemma fmtFrac_loop_True: "fmtFrac_loop i True v buf = (pad i v @ buf, True, v div 10 ^ i)"
  by (induction i arbitrary: v buf) (simp_all add: Let_def div_mult2_eq)

lemma fmtFrac_loop_False:
  "(v mod 10 ^ i = 0 \<longrightarrow> fmtFrac_loop i False v buf = (buf, False, v div 10 ^ i)) \<and>
   (v mod 10 ^ i \<noteq> 0 \<longrightarrow> (\<exists>z k. i = z + Suc k \<and> v mod 10 ^ z = 0 \<and>
      fmtFrac_loop i False v buf = (pad (Suc k) (v div 10 ^ z) @ buf, True, v div 10 ^ i)))"
proof (induction i arbitrary: v)
  case (Suc i)
  have split: "v mod 10 ^ Suc i = 10 * (v div 10 mod 10 ^ i) + v mod 10" by (simp add: mod_mult2_eq)
  show ?case
  proof (cases "v mod 10 = 0")
    case True
    have dec: "v div 10 * 10 = v" using True by (metis add.right_neutral div_mult_mod_eq)
    from True Suc.IH [of "v div 10"] show ?thesis
    proof (cases "v div 10 mod 10 ^ i = 0")
      case False
      from Suc.IH [of "v div 10", THEN conjunct2, rule_format, OF this] obtain z k where z: "i = z + Suc k" "v div 10 mod 10 ^ z = 0"
        "fmtFrac_loop i False (v div 10) buf = (pad (Suc k) (v div 10 div 10 ^ z) @ buf, True, v div 10 div 10 ^ i)" by (elim exE conjE) (rule that)
      have zero: "v mod 10 ^ Suc z = 0" using z(2) True by (simp add: mod_mult2_eq)
      have step: "fmtFrac_loop (Suc i) False v buf = (pad (Suc k) (v div 10 ^ Suc z) @ buf, True, v div 10 ^ Suc i)"
        using z(3) True by (simp add: Let_def div_mult2_eq)
      have "\<exists>z k. Suc i = z + Suc k \<and> v mod 10 ^ z = 0 \<and>
          fmtFrac_loop (Suc i) False v buf = (pad (Suc k) (v div 10 ^ z) @ buf, True, v div 10 ^ Suc i)"
        by (intro exI [of _ "Suc z"] exI [of _ k] conjI) (use z(1) in simp, fact zero, fact step)
      with False split show ?thesis by simp
    qed (simp add: Let_def div_mult2_eq mod_mult2_eq)
  next
    case False
    then have "fmtFrac_loop (Suc i) False v buf = (pad (Suc i) v @ buf, True, v div 10 ^ Suc i)"
      by (simp add: Let_def fmtFrac_loop_True div_mult2_eq)
    with False split show ?thesis by (intro conjI impI) (simp, intro exI [of _ 0] exI [of _ i], simp)
  qed
qed simp

lemma leadingFraction_pad:
  assumes "x * 10 ^ k + v mod 10 ^ k < 2 ^ 63 div 10"
  shows "leadingFraction False x scale (pad k v @ rest) = leadingFraction False (x * 10 ^ k + v mod 10 ^ k) (scale * 10 ^ k) rest"
  using assms
proof (induction k arbitrary: v rest)
  case (Suc k)
  let ?y = "x * 10 ^ k + v div 10 mod 10 ^ k"
  have eq: "x * 10 ^ Suc k + v mod 10 ^ Suc k = ?y * 10 + v mod 10" by (simp add: mod_mult2_eq)
  with Suc.prems have small: "?y * 10 + v mod 10 < 2 ^ 63 div 10" by simp
  then have "?y < 2 ^ 63 div 10" by simp
  from Suc.IH [OF this] have "leadingFraction False x scale (pad (Suc k) v @ rest) =
      leadingFraction False ?y (scale * 10 ^ k) (digit_char (v mod 10) # rest)" by simp
  also have "\<dots> = leadingFraction False (?y * 10 + v mod 10) (scale * 10 ^ k * 10) rest"
    using small by (simp add: Let_def)
  finally show ?case unfolding eq by (simp add: mult_ac)
qed simp

section \<open>What is printed can be parsed\<close>

lemma fmtFrac_cases:
  obtains (whole) "v mod 10 ^ prec = 0" "fmtFrac v prec buf = (buf, v div 10 ^ prec)"
  | (fraction) z k where "prec = z + Suc k" "v mod 10 ^ z = 0"
      "fmtFrac v prec buf = (CHR ''.'' # pad (Suc k) (v div 10 ^ z) @ buf, v div 10 ^ prec)"
proof (cases "v mod 10 ^ prec = 0")
  case True
  with fmtFrac_loop_False [of v prec buf] whole show ?thesis by (simp add: fmtFrac_def)
next
  case False
  from fmtFrac_loop_False [of v prec buf, THEN conjunct2, rule_format, OF this] fraction show ?thesis
    by (elim exE conjE) (simp add: fmtFrac_def)
qed

lemma parse_number_fmt:
  assumes fmt: "fmtFrac v prec (c # U) = (buf, v')" and "prec \<le> 9" and n: "n \<le> 2 ^ 63"
    and c: "\<not> is_digit c" "c \<noteq> CHR ''.''"
  shows "v' = v div 10 ^ prec \<and> (\<exists>f scale. parse_number (itoa n @ buf @ rest) = Some (n, f, scale, c # U @ rest) \<and>
    scale dvd 10 ^ prec \<and> f * (10 ^ prec div scale) = v mod 10 ^ prec)"
proof (cases rule: fmtFrac_cases [of v prec "c # U"])
  case whole
  then have "parse_number (itoa n @ buf @ rest) = Some (n, 0, 1, c # U @ rest)"
    using fmt c by (simp add: parse_number_def leadingInt_itoa [OF n] leadingInt_stop)
  with whole fmt show ?thesis by (auto intro!: exI [of _ "0::nat"] exI [of _ "1::nat"])
next
  case (fraction z k)
  let ?f = "v div 10 ^ z mod 10 ^ Suc k"
  have buf: "buf = CHR ''.'' # pad (Suc k) (v div 10 ^ z) @ c # U" "v' = v div 10 ^ prec" using fraction fmt by simp_all
  have "?f < 10 ^ Suc k" by (rule mod_less_divisor) simp
  also have "(10::nat) ^ Suc k \<le> 10 ^ 9" using assms(2) fraction(1) by (intro power_increasing) simp_all
  also have "(10::nat) ^ 9 < 2 ^ 63 div 10" by simp
  finally have small: "?f < 2 ^ 63 div 10" .
  have "leadingFraction False 0 1 (pad (Suc k) (v div 10 ^ z) @ c # U @ rest) = (?f, 10 ^ Suc k, c # U @ rest)"
    using leadingFraction_pad [of 0 "Suc k" "v div 10 ^ z" 1 "c # U @ rest"] small c(1) by (simp del: pad.simps power_Suc)
  moreover have "leadingInt 0 (itoa n @ buf @ rest) = Some (n, buf @ rest)"
    unfolding leadingInt_itoa [OF n] by (rule leadingInt_stop) (simp add: buf is_digit_def)
  ultimately have "parse_number (itoa n @ buf @ rest) = Some (n, ?f, 10 ^ Suc k, c # U @ rest)"
    by (simp add: parse_number_def buf Let_def del: pad.simps)
  moreover have "(10::nat) ^ Suc k dvd 10 ^ prec" unfolding fraction(1) by (rule le_imp_power_dvd) simp
  moreover have "?f * (10 ^ prec div 10 ^ Suc k) = v mod 10 ^ prec"
  proof -
    have "v mod 10 ^ prec = 10 ^ z * ?f + v mod 10 ^ z" unfolding fraction(1) power_add by (rule mod_mult2_eq)
    moreover have "(10::nat) ^ prec div 10 ^ Suc k = 10 ^ z"
      unfolding fraction(1) power_add by (rule nonzero_mult_div_cancel_right) simp
    ultimately show ?thesis using fraction(2) by simp
  qed
  ultimately show ?thesis using buf(2) by blast
qed

lemma parse_unit_number:
  assumes "parse_number (itoa n @ s) = Some (n, f, scale, U @ rest)" and U: "list_all unit_char U" "U \<noteq> []"
    and "rest = [] \<or> \<not> unit_char (hd rest)" and "unitMap U = Some unit" and "0 < unit"
    and "scale dvd unit" and "f * (unit div scale) < 2 ^ 53" and total: "n * unit + f * (unit div scale) \<le> 2 ^ 63"
  shows "parse_unit fl (itoa n @ s) = Some (n * unit + f * (unit div scale), rest)"
proof -
  obtain c cs where c: "itoa n = c # cs" "is_digit c" using itoa_hd [of n] by (cases "itoa n") auto
  have tw: "takeWhile unit_char (U @ rest) = U" "dropWhile unit_char (U @ rest) = rest"
    using U(1) assms(4) by (cases rest; simp add: list_all_iff takeWhile_append dropWhile_append)+
  have "n * unit \<le> 2 ^ 63" using total by simp
  then have "n \<le> 2 ^ 63 div unit" using assms(6) by (simp add: less_eq_div_iff_mult_less_eq)
  with assms(1) c tw U(2) assms(5-9) show ?thesis by (simp add: parse_unit_def fraction_value_def Let_def)
qed

lemma unit_chars [simp]:
  "unit_char CHR ''n''" "unit_char CHR ''s''" "unit_char CHR ''m''" "unit_char CHR ''h''"
  "unit_char CHR 0xC2" "unit_char CHR 0xB5"
  "\<not> is_digit CHR ''m''" "\<not> is_digit CHR ''h''"
  by (simp_all add: unit_char_def is_digit_def)

lemma unitMap_simps [simp]:
  "unitMap ''ns'' = Some 1" "unitMap (micro @ ''s'') = Some (10 ^ 3)" "unitMap ''ms'' = Some (10 ^ 6)"
  "unitMap ''s'' = Some (10 ^ 9)" "unitMap ''m'' = Some (60 * 10 ^ 9)" "unitMap ''h'' = Some (3600 * 10 ^ 9)"
  by (simp_all add: unitMap_def micro_def)

lemma parse_unit_fmt:
  assumes "fmtFrac v prec U = (buf, v')" and "prec \<le> 9" and "unitMap U = Some (10 ^ prec)" and U: "list_all unit_char U" "U \<noteq> []"
    and "rest = [] \<or> \<not> unit_char (hd rest)" and total: "n * 10 ^ prec + v mod 10 ^ prec \<le> 2 ^ 63"
  shows "parse_unit fl (itoa n @ buf @ rest) = Some (n * 10 ^ prec + v mod 10 ^ prec, rest) \<and> v' = v div 10 ^ prec"
proof -
  obtain c U' where c: "U = c # U'" "\<not> is_digit c" "c \<noteq> CHR ''.''" using U by (cases U) (auto simp: unit_char_def)
  have "n * 1 \<le> n * 10 ^ prec" by (intro mult_le_mono) simp_all
  then have "n \<le> 2 ^ 63" using total by linarith
  from parse_number_fmt [OF assms(1) [unfolded c(1)] assms(2) this c(2,3), of rest] obtain f scale where
    p: "parse_number (itoa n @ buf @ rest) = Some (n, f, scale, U @ rest)" "scale dvd 10 ^ prec"
      "f * (10 ^ prec div scale) = v mod 10 ^ prec" and v': "v' = v div 10 ^ prec" by (auto simp: c(1))
  have "v mod 10 ^ prec < 10 ^ prec" by simp
  also have "(10::nat) ^ prec \<le> 10 ^ 9" using assms(2) by (intro power_increasing) simp_all
  finally have "f * (10 ^ prec div scale) < 2 ^ 53" unfolding p(3) by simp
  from parse_unit_number [OF p(1) U assms(6,3) _ p(2) this] total v' show ?thesis by (simp add: p(3))
qed

lemma parse_unit_plain:
  assumes "U = ''m'' \<and> unit = 60 * 10 ^ 9 \<or> U = ''h'' \<and> unit = 3600 * 10 ^ 9" and "n * unit \<le> 2 ^ 63"
    and "rest \<noteq> []" and "is_digit (hd rest)"
  shows "parse_unit fl (itoa n @ U @ rest) = Some (n * unit, rest)"
proof -
  have n: "n \<le> 2 ^ 63" using assms(1,2) by auto
  have "parse_number (itoa n @ U @ rest) = Some (n, 0, 1, U @ rest)"
    using assms(1) by (auto simp: parse_number_def leadingInt_itoa [OF n] leadingInt_stop is_digit_def)
  from parse_unit_number [OF this, of unit fl] assms show ?thesis
    by (auto simp: unit_char_def)
qed

lemma ParseDuration_loop_step:
  assumes "parse_unit fl (itoa n @ s) = Some (v, t)" and "d + v \<le> 2 ^ 63"
  shows "ParseDuration_loop fl d (itoa n @ s) = ParseDuration_loop fl (d + v) t"
proof -
  have "(d + v) mod 2 ^ 64 = d + v" using assms(2) by simp
  with assms show ?thesis by (simp add: ParseDuration_loop.simps [of fl d "itoa n @ s"] Let_def)
qed

lemma ParseDuration_loop_end: "ParseDuration_loop fl d [] = Some d"
  by (simp add: ParseDuration_loop.simps)

lemma magnitude_small:
  assumes "0 < u" and "unitMap U = Some (10 ^ prec)" and "list_all unit_char U" "U \<noteq> []" and "prec \<le> 9" and "u < 10 ^ 9"
    and "fmtFrac u prec U = (buf, v)"
  shows "ParseDuration_loop fl 0 (itoa v @ buf) = Some u"
proof -
  have v: "v = u div 10 ^ prec" using fmtFrac_cases [of u prec U] assms(7) by (metis prod.inject)
  have total: "v * 10 ^ prec + u mod 10 ^ prec = u" unfolding v by (rule div_mult_mod_eq)
  from parse_unit_fmt [OF assms(7,5,2,3,4), of "[]" v fl, THEN conjunct1] total assms(6)
  have "parse_unit fl (itoa v @ buf) = Some (u, [])" by simp
  from ParseDuration_loop_step [OF this, of 0] assms(6) show ?thesis by (simp add: ParseDuration_loop_end)
qed

lemma magnitude_large:
  assumes "u \<le> 2 ^ 63" and fmt: "fmtFrac u 9 ''s'' = (buf, secs)" and lower: "10 ^ 9 \<le> u"
  shows "ParseDuration_loop fl 0
    (if secs div 60 > 0
     then if secs div 60 div 60 > 0
       then itoa (secs div 60 div 60) @ ''h'' @ itoa (secs div 60 mod 60) @ ''m'' @ itoa (secs mod 60) @ buf
       else itoa (secs div 60 mod 60) @ ''m'' @ itoa (secs mod 60) @ buf
     else itoa (secs mod 60) @ buf) = Some u"
proof -
  let ?h = "secs div 60 div 60" and ?m = "secs div 60 mod 60" and ?s = "secs mod 60"
  let ?sv = "?s * 10 ^ 9 + u mod 10 ^ 9"
  have secs: "secs = u div 10 ^ 9" using fmtFrac_cases [of u 9 "''s''"] fmt by (metis prod.inject)
  have sum: "?h * (3600 * 10 ^ 9) + ?m * (60 * 10 ^ 9) + ?sv = u"
  proof -
    have "?h * 60 + ?m = secs div 60" "secs div 60 * 60 + ?s = secs" by (rule div_mult_mod_eq)+
    then have "?h * 3600 + ?m * 60 + ?s = secs" by linarith
    moreover have "secs * 10 ^ 9 + u mod 10 ^ 9 = u" unfolding secs by (rule div_mult_mod_eq)
    ultimately show ?thesis by (simp add: algebra_simps)
  qed
  have sv: "?sv \<le> 2 ^ 63" using sum assms(1) by linarith
  have S: "parse_unit fl (itoa ?s @ buf) = Some (?sv, [])"
    using parse_unit_fmt [OF fmt, of "[]" ?s fl, THEN conjunct1] sv by simp
  have Send: "ParseDuration_loop fl d (itoa ?s @ buf) = Some (d + ?sv)" if "d + ?sv \<le> 2 ^ 63" for d
    using ParseDuration_loop_step [OF S that] by (simp add: ParseDuration_loop_end)
  have hd: "itoa n @ r \<noteq> []" "is_digit (hd (itoa n @ r))" for n r using itoa_hd [of n] by simp_all
  have M: "ParseDuration_loop fl d (itoa ?m @ ''m'' @ itoa ?s @ buf) = Some (d + ?m * (60 * 10 ^ 9) + ?sv)"
    if "d + ?m * (60 * 10 ^ 9) + ?sv \<le> 2 ^ 63" for d
  proof -
    have "parse_unit fl (itoa ?m @ ''m'' @ itoa ?s @ buf) = Some (?m * (60 * 10 ^ 9), itoa ?s @ buf)"
      by (rule parse_unit_plain) (use that hd in simp_all)
    from ParseDuration_loop_step [OF this, of d] Send [of "d + ?m * (60 * 10 ^ 9)"] that show ?thesis by simp
  qed
  have H: "ParseDuration_loop fl 0 (itoa ?h @ ''h'' @ itoa ?m @ ''m'' @ itoa ?s @ buf) = Some u"
  proof -
    have "parse_unit fl (itoa ?h @ ''h'' @ itoa ?m @ ''m'' @ itoa ?s @ buf) =
        Some (?h * (3600 * 10 ^ 9), itoa ?m @ ''m'' @ itoa ?s @ buf)"
      by (rule parse_unit_plain) (use sum assms(1) hd in simp_all)
    from ParseDuration_loop_step [OF this, of 0] M [of "?h * (3600 * 10 ^ 9)"] sum assms(1) show ?thesis by simp
  qed
  show ?thesis using H M [of 0] Send [of 0] sum assms(1) by auto
qed

lemma magnitude_parses:
  assumes "u \<le> 2 ^ 63"
  shows "ParseDuration_loop fl 0 (magnitude u) = Some u"
proof (cases "u < 10 ^ 9")
  case False
  obtain buf secs where fmt: "fmtFrac u 9 ''s'' = (buf, secs)" by fastforce
  have "magnitude u = (if secs div 60 > 0
     then if secs div 60 div 60 > 0
       then itoa (secs div 60 div 60) @ ''h'' @ itoa (secs div 60 mod 60) @ ''m'' @ itoa (secs mod 60) @ buf
       else itoa (secs div 60 mod 60) @ ''m'' @ itoa (secs mod 60) @ buf
     else itoa (secs mod 60) @ buf)"
    by (simp only: magnitude_def Let_def fmt prod.case False if_False)
  with magnitude_large [OF assms fmt] False show ?thesis by (simp only: not_less)
next
  case True
  show ?thesis
  proof (cases "u = 0")
    case zero: True
    have f: "fmtFrac 0 9 ''s'' = (''s'', 0)"
      using fmtFrac_loop_False [of 0 9 "''s''", THEN conjunct1] by (simp add: fmtFrac_def)
    have "parse_unit fl (itoa 0 @ ''s'' @ []) = Some (0 * 10 ^ 9 + 0 mod 10 ^ 9, [])"
      by (rule parse_unit_fmt [OF f, THEN conjunct1]) simp_all
    then have "parse_unit fl (itoa 0 @ ''s'') = Some (0, [])" by simp
    moreover have "itoa 0 = ''0''" by code_simp
    ultimately show ?thesis using ParseDuration_loop_step [of fl 0 "''s''" 0 "[]" 0] zero
      by (simp add: magnitude_def ParseDuration_loop_end)
  next
    case False
    have units: "list_all unit_char (micro @ ''s'')" "micro @ ''s'' \<noteq> []" by (simp_all add: micro_def)
    consider (ns) "u < 10 ^ 3" | (us) "\<not> u < 10 ^ 3" "u < 10 ^ 6" | (ms) "\<not> u < 10 ^ 3" "\<not> u < 10 ^ 6" by blast
    then show ?thesis
    proof cases
      case ns
      obtain buf v where f: "fmtFrac u 0 ''ns'' = (buf, v)" by fastforce
      have "magnitude u = itoa v @ buf" by (simp only: magnitude_def Let_def prod.case True False ns f if_True if_False)
      then show ?thesis using magnitude_small [OF _ _ _ _ _ True f, of fl] False by simp
    next
      case us
      obtain buf v where f: "fmtFrac u 3 (micro @ ''s'') = (buf, v)" by fastforce
      have "magnitude u = itoa v @ buf" by (simp only: magnitude_def Let_def prod.case True False us f if_True if_False)
      then show ?thesis using magnitude_small [OF _ _ units _ True f, of fl] False by simp
    next
      case ms
      obtain buf v where f: "fmtFrac u 6 ''ms'' = (buf, v)" by fastforce
      have "magnitude u = itoa v @ buf" by (simp only: magnitude_def Let_def prod.case True False ms f if_True if_False)
      then show ?thesis using magnitude_small [OF _ _ _ _ _ True f, of fl] False by simp
    qed
  qed
qed

lemma magnitude_hd: "magnitude u \<noteq> [] \<and> hd (magnitude u) \<noteq> CHR ''-'' \<and> hd (magnitude u) \<noteq> CHR ''+'' \<and> magnitude u \<noteq> ''0''"
proof -
  have d: "hd (itoa n) \<noteq> CHR ''-''" "hd (itoa n) \<noteq> CHR ''+''" for n using itoa_hd [of n] by (auto simp: is_digit_def)
  have frac: "buf \<noteq> [] \<and> itoa n @ buf \<noteq> ''0''" if "fmtFrac v prec U = (buf, w)" "U \<noteq> []" for v prec U buf w n
  proof -
    have "buf \<noteq> []" by (rule fmtFrac_cases [of v prec U]) (use that in auto)
    then show ?thesis by (cases "itoa n") auto
  qed
  have two: "itoa n @ x # r \<noteq> ''0''" for n x r by (cases "itoa n") auto
  show ?thesis unfolding magnitude_def
    by (auto simp: d Let_def frac two split: prod.splits)
qed

text \<open>The bytes of a printed duration, and the range of a parsed one.\<close>

definition duration_char :: "char \<Rightarrow> bool" where
  "duration_char c \<longleftrightarrow> is_digit c \<or> c \<in> set (''.-nsmh'' @ micro)"

lemma itoa_digits: "c \<in> set (itoa n) \<Longrightarrow> is_digit c"
proof (induction n rule: itoa.induct)
  case (1 n)
  then show ?case by (cases "n < 10") (auto simp: itoa_simps [of n])
qed

lemma pad_digits: "c \<in> set (pad k v) \<Longrightarrow> is_digit c"
  by (induction k arbitrary: v) auto

lemma fmtFrac_chars: "list_all duration_char U \<Longrightarrow> list_all duration_char (fst (fmtFrac v prec U))"
  by (cases rule: fmtFrac_cases [of v prec U]) (auto simp: list_all_iff duration_char_def dest!: pad_digits)

lemma Duration_chars: "list_all duration_char (Duration_String d)"
proof -
  have i: "list_all duration_char (itoa n)" for n by (auto simp: list_all_iff duration_char_def dest: itoa_digits)
  have c: "duration_char CHR ''0''" "duration_char CHR ''n''" "duration_char CHR ''s''" "duration_char CHR ''m''"
    "duration_char CHR ''h''" "duration_char CHR ''-''" "list_all duration_char micro"
    by (simp_all add: list_all_iff duration_char_def is_digit_def)
  have "list_all duration_char (magnitude n)" for n
    by (simp only: magnitude_def Let_def case_prod_beta list_all_append list.pred_inject fmtFrac_chars i c fst_conv snd_conv simp_thms append.simps split: if_split)
  with c show ?thesis by (simp add: Duration_String_def)
qed

lemma ParseDuration_bound:
  assumes "ParseDuration fl s = Some d"
  shows "d < 2 ^ 63"
proof -
  define neg t where "neg = fst (case s of c # t \<Rightarrow> if c = CHR ''-'' \<or> c = CHR ''+'' then (c = CHR ''-'', t) else (False, s) | [] \<Rightarrow> (False, s))"
    and "t = snd (case s of c # t \<Rightarrow> if c = CHR ''-'' \<or> c = CHR ''+'' then (c = CHR ''-'', t) else (False, s) | [] \<Rightarrow> (False, s))"
  have "ParseDuration fl s =
     (if t = ''0'' then Some 0 else if t = [] then None
      else case ParseDuration_loop fl 0 t of
        None \<Rightarrow> None
      | Some d \<Rightarrow> if neg then Some (- int d) else if d > 2 ^ 63 - 1 then None else Some (int d))"
    unfolding ParseDuration_def neg_def t_def by (simp only: Let_def case_prod_beta)
  with assms consider "d = 0" | n where "d = - int n" | n where "d = int n" "n \<le> 2 ^ 63 - 1"
    by (auto simp only: not_less option.inject option.case_eq_if option.distinct split: if_splits)
  then show ?thesis by cases simp_all
qed

lemma Duration_String_nonempty [simp]: "Duration_String d \<noteq> []"
  using magnitude_hd by (simp add: Duration_String_def)

lemma Duration_roundtrip:
  assumes "- (2 ^ 63) \<le> d" and "d < 2 ^ 63"
  shows "ParseDuration fl (Duration_String d) = Some d"
proof -
  have "\<bar>d\<bar> \<le> 2 ^ 63" using assms by (simp add: abs_le_iff)
  then have "nat \<bar>d\<bar> \<le> 2 ^ 63" by (simp add: nat_le_iff)
  note loop = magnitude_parses [OF this, of fl]
  obtain c t where m: "magnitude (nat \<bar>d\<bar>) = c # t" "c \<noteq> CHR ''-''" "c \<noteq> CHR ''+''" "c # t \<noteq> ''0''"
    using magnitude_hd [of "nat \<bar>d\<bar>"] by (cases "magnitude (nat \<bar>d\<bar>)") auto
  show ?thesis
  proof (cases "d < 0")
    case True
    with m loop show ?thesis by (simp add: ParseDuration_def Duration_String_def)
  next
    case False
    then have "nat d \<le> 2 ^ 63 - 1" using assms(2) by (simp add: nat_le_iff)
    with False m loop show ?thesis by (auto simp: ParseDuration_def Duration_String_def)
  qed
qed

end
