(* ===== verification/Schedule.thy ===== *)
theory Schedule
  imports GoTime
begin

text \<open>
  The checkpoint schedules of the transaction log (\<^verbatim>\<open>src/provider/logprov/schedule.go\<close> and
  \<^verbatim>\<open>parse.go\<close>): their parser, the smallest interval of each kind, the time of the next checkpoint.
\<close>

section \<open>Schedules\<close>

datatype scheduleType = opsSchedule_t | durationSchedule_t

record schedule =
  sd_t :: scheduleType
  sd_ops :: "64 word"
  sd_duration :: duration

definition MinimumDuration :: duration where "MinimumDuration = Second"

definition OpsSchedule :: "64 word \<Rightarrow> schedule" where
  "OpsSchedule ops = \<lparr>sd_t = opsSchedule_t, sd_ops = ops, sd_duration = 0\<rparr>"

definition DurationSchedule :: "duration \<Rightarrow> schedule" where
  "DurationSchedule d = \<lparr>sd_t = durationSchedule_t, sd_ops = 0, sd_duration = d\<rparr>"

fun opsSchedule_loop :: "64 word option \<Rightarrow> schedule list \<Rightarrow> 64 word option" where
  "opsSchedule_loop acc [] = acc"
| "opsSchedule_loop acc (s # rest) =
     (if sd_t s \<noteq> opsSchedule_t then opsSchedule_loop acc rest
      else if sd_ops s = 0 then opsSchedule_loop acc rest
      else opsSchedule_loop
        (case acc of None \<Rightarrow> Some (sd_ops s) | Some ops \<Rightarrow> Some (if sd_ops s < ops then sd_ops s else ops)) rest)"

definition opsSchedule :: "schedule list \<Rightarrow> 64 word option" where
  "opsSchedule sched = opsSchedule_loop None sched"

fun durationSchedule_loop :: "duration option \<Rightarrow> schedule list \<Rightarrow> duration option" where
  "durationSchedule_loop acc [] = acc"
| "durationSchedule_loop acc (s # rest) =
     (if sd_t s \<noteq> durationSchedule_t then durationSchedule_loop acc rest
      else if sd_duration s < MinimumDuration then durationSchedule_loop acc rest
      else durationSchedule_loop
        (case acc of None \<Rightarrow> Some (sd_duration s)
         | Some d \<Rightarrow> Some (if sd_duration s < d then sd_duration s else d)) rest)"

definition durationSchedule :: "schedule list \<Rightarrow> duration option" where
  "durationSchedule sched = durationSchedule_loop None sched"

definition nextCheckpoint :: "time \<Rightarrow> time \<Rightarrow> duration \<Rightarrow> duration" where
  "nextCheckpoint now lastTime interval =
     (if lastTime = 0 then 0
      else if now < lastTime then 0
      else let elapsed = Time_Sub now lastTime in
        if elapsed \<ge> interval then 0 else interval - elapsed)"

section \<open>Parsing a schedule\<close>

definition digit :: "char \<Rightarrow> nat option" where
  "digit c = (let n = (of_char c :: nat) in if 48 \<le> n \<and> n \<le> 57 then Some (n - 48) else None)"

fun parse_digits :: "nat \<Rightarrow> string \<Rightarrow> nat option" where
  "parse_digits acc [] = Some acc"
| "parse_digits acc (c # cs) = (case digit c of None \<Rightarrow> None | Some d \<Rightarrow> parse_digits (acc * 10 + d) cs)"

text \<open>\<^verbatim>\<open>strconv.ParseUint(value, 10, 64)\<close>: \<open>None\<close> is a syntax or range error.\<close>

definition ParseUint :: "string \<Rightarrow> nat option" where
  "ParseUint s =
     (if s = [] then None
      else case parse_digits 0 s of None \<Rightarrow> None | Some n \<Rightarrow> if n < 2 ^ 64 then Some n else None)"

definition OpsSuffix :: string where "OpsSuffix = ''ops''"

fun ParseSchedule_loop ::
  "(nat \<Rightarrow> nat \<Rightarrow> nat \<Rightarrow> nat) \<Rightarrow> schedule list \<Rightarrow> string list \<Rightarrow> goerror + schedule list" where
  "ParseSchedule_loop fl out [] = Inr out"
| "ParseSchedule_loop fl out (item # items) =
     (if strings_HasSuffix item OpsSuffix then
        (let v = strings_TrimSuffix item OpsSuffix in
         case ParseUint v of
           None \<Rightarrow> Inl (''invalid checkpoint interval '' @ quoted item @ '': unable to parse '' @ quoted v @ '' as an integer'')
         | Some ops \<Rightarrow>
             if ops = 0 then Inl (''invalid checkpoint interval '' @ quoted item @ '': ops must be greater than zero'')
             else ParseSchedule_loop fl (out @ [OpsSchedule (of_nat ops)]) items)
      else
        (case ParseDuration fl item of
           None \<Rightarrow> Inl (''invalid checkpoint interval '' @ quoted item @ '': unable to parse value as a duration of time'')
         | Some d \<Rightarrow>
             if d < MinimumDuration
             then Inl (''invalid checkpoint interval '' @ quoted item @ '': duration must not be less than '' @ Duration_String MinimumDuration)
             else ParseSchedule_loop fl (out @ [DurationSchedule d]) items))"

definition ParseSchedule ::
  "(nat \<Rightarrow> nat \<Rightarrow> nat \<Rightarrow> nat) \<Rightarrow> string \<Rightarrow> goerror + schedule list" where
  "ParseSchedule fl s =
     (if s = '''' then Inr [] else ParseSchedule_loop fl [] (strings_Split (CHR '','') s))"

section \<open>The intervals of a schedule\<close>

definition min_opt :: "'a::linorder option \<Rightarrow> 'a \<Rightarrow> 'a option" where
  "min_opt a v = (case a of None \<Rightarrow> Some v | Some m \<Rightarrow> Some (if v < m then v else m))"

lemma foldl_min_opt_Some: "foldl min_opt (Some m) vs = Some (Min (insert m (set vs)))"
proof (induction vs arbitrary: m)
  case (Cons v vs)
  have "(if v < m then v else m) = min m v" by (auto simp: min_def)
  moreover have "Min (insert (min m v) (set vs)) = Min (insert m (insert v (set vs)))"
    by (cases "vs = []") (simp_all add: min.assoc)
  ultimately show ?case using Cons [of "min m v"] by (simp add: min_opt_def del: Min_insert)
qed (simp add: min_opt_def)

lemma foldl_min_opt: "foldl min_opt None vs = (if vs = [] then None else Some (Min (set vs)))"
  by (cases vs) (simp_all add: min_opt_def [of None] foldl_min_opt_Some)

lemma opsSchedule_loop_foldl:
  "opsSchedule_loop acc sched =
   foldl min_opt acc (map sd_ops (filter (\<lambda>s. sd_t s = opsSchedule_t \<and> sd_ops s \<noteq> 0) sched))"
  by (induction acc sched rule: opsSchedule_loop.induct) (auto simp: min_opt_def split: option.splits)

lemma durationSchedule_loop_foldl:
  "durationSchedule_loop acc sched =
   foldl min_opt acc (map sd_duration (filter (\<lambda>s. sd_t s = durationSchedule_t \<and> MinimumDuration \<le> sd_duration s) sched))"
  by (induction acc sched rule: durationSchedule_loop.induct) (auto simp: min_opt_def split: option.splits)

lemma opsSchedule_Min:
  fixes sched :: "schedule list"
  defines "vs \<equiv> sd_ops ` {s \<in> set sched. sd_t s = opsSchedule_t \<and> sd_ops s \<noteq> 0}"
  shows "opsSchedule sched = (if vs = {} then None else Some (Min vs))"
  unfolding opsSchedule_def opsSchedule_loop_foldl foldl_min_opt vs_def by (auto simp: filter_empty_conv)

lemma durationSchedule_Min:
  fixes sched :: "schedule list"
  defines "vs \<equiv> sd_duration ` {s \<in> set sched. sd_t s = durationSchedule_t \<and> MinimumDuration \<le> sd_duration s}"
  shows "durationSchedule sched = (if vs = {} then None else Some (Min vs))"
  unfolding durationSchedule_def durationSchedule_loop_foldl foldl_min_opt vs_def by (auto simp: filter_empty_conv)

lemma nextCheckpoint_bounds:
  assumes "0 \<le> interval"
  shows "0 \<le> nextCheckpoint now lastTime interval \<and> nextCheckpoint now lastTime interval \<le> interval"
  using assms Time_Sub_nonneg [of lastTime now] by (auto simp: nextCheckpoint_def Let_def)

lemma nextCheckpoint_due:
  assumes "0 < lastTime" and "lastTime \<le> now" and "now - lastTime < interval" and "interval \<le> maxDuration"
  shows "now + nextCheckpoint now lastTime interval = lastTime + interval"
  using assms Time_Sub_exact [of now lastTime] by (simp add: nextCheckpoint_def Let_def minDuration_def)

section \<open>Which schedules can be written\<close>

definition Schedule_valid :: "schedule \<Rightarrow> bool" where
  "Schedule_valid s \<longleftrightarrow>
     (case sd_t s of
        opsSchedule_t \<Rightarrow> sd_ops s \<noteq> 0 \<and> sd_duration s = 0
      | durationSchedule_t \<Rightarrow> sd_ops s = 0 \<and> MinimumDuration \<le> sd_duration s \<and> sd_duration s < 2 ^ 63)"

lemma ParseUint_nonzero:
  assumes "ParseUint v = Some n" and "n \<noteq> 0"
  shows "(of_nat n :: 64 word) \<noteq> 0"
proof
  have "n < 2 ^ 64" using assms(1) by (auto simp: ParseUint_def split: if_splits option.splits)
  moreover assume "(of_nat n :: 64 word) = 0"
  then have "2 ^ 64 dvd n" by (simp add: word_of_nat_eq_0_iff)
  ultimately show False using assms(2) by (auto dest: dvd_imp_le)
qed

lemma ParseSchedule_loop_valid:
  assumes "ParseSchedule_loop fl out items = Inr sched" and "list_all Schedule_valid out"
  shows "list_all Schedule_valid sched"
  using assms
proof (induction items arbitrary: out)
  case (Cons item items)
  show ?case
  proof (cases "strings_HasSuffix item OpsSuffix")
    case True
    with Cons.prems(1) obtain n where n: "ParseUint (strings_TrimSuffix item OpsSuffix) = Some n" "n \<noteq> 0"
      "ParseSchedule_loop fl (out @ [OpsSchedule (of_nat n)]) items = Inr sched"
      by (auto simp: Let_def split: option.splits if_splits)
    show ?thesis
      by (rule Cons.IH [OF n(3)]) (use Cons.prems(2) ParseUint_nonzero [OF n(1,2)] in \<open>simp add: OpsSchedule_def Schedule_valid_def\<close>)
  next
    case False
    with Cons.prems(1) obtain d where d: "ParseDuration fl item = Some d" "\<not> d < MinimumDuration"
      "ParseSchedule_loop fl (out @ [DurationSchedule d]) items = Inr sched"
      by (auto split: option.splits if_splits)
    show ?thesis
      by (rule Cons.IH [OF d(3)])
        (use Cons.prems(2) d(2) ParseDuration_bound [OF d(1)] in \<open>simp add: DurationSchedule_def Schedule_valid_def\<close>)
  qed
qed simp

lemma ParseSchedule_valid: "ParseSchedule fl text = Inr sched \<Longrightarrow> list_all Schedule_valid sched"
  using ParseSchedule_loop_valid [of fl "[]"] by (auto simp: ParseSchedule_def split: if_splits)

text \<open>A text for every schedule.\<close>

definition Schedule_text :: "schedule \<Rightarrow> string" where
  "Schedule_text s =
     (case sd_t s of
        opsSchedule_t \<Rightarrow> itoa (unat (sd_ops s)) @ OpsSuffix
      | durationSchedule_t \<Rightarrow> Duration_String (sd_duration s))"

lemma parse_digits_itoa: "parse_digits 0 (itoa n @ rest) = parse_digits n rest"
proof (induction n arbitrary: rest rule: itoa.induct)
  case (1 n)
  have digit: "digit (char_of (48 + m)) = Some m" if "m < 10" for m using that by (simp add: digit_def Let_def)
  from 1 show ?case by (cases "n < 10") (simp_all add: itoa.simps [of n] digit)
qed

lemma ParseUint_itoa: "n < 2 ^ 64 \<Longrightarrow> ParseUint (itoa n) = Some n"
  using parse_digits_itoa [of n "[]"] by (simp add: ParseUint_def)

lemma Schedule_text_parses:
  assumes "Schedule_valid s"
  shows "ParseSchedule_loop fl out (Schedule_text s # items) = ParseSchedule_loop fl (out @ [s]) items"
proof (cases "sd_t s")
  case opsSchedule_t
  then have "s = OpsSchedule (sd_ops s)" "unat (sd_ops s) \<noteq> 0" using assms by (simp_all add: Schedule_valid_def OpsSchedule_def unat_eq_0)
  moreover have "ParseUint (itoa (unat (sd_ops s))) = Some (unat (sd_ops s))" using unsigned_less [of "sd_ops s"] by (intro ParseUint_itoa) simp
  ultimately show ?thesis using opsSchedule_t by (simp add: Schedule_text_def HasSuffix_iff Let_def)
next
  case durationSchedule_t
  then have s: "s = DurationSchedule (sd_duration s)" "MinimumDuration \<le> sd_duration s" "sd_duration s < 2 ^ 63"
    using assms by (simp_all add: Schedule_valid_def DurationSchedule_def)
  then have parse: "ParseDuration fl (Duration_String (sd_duration s)) = Some (sd_duration s)"
    by (intro Duration_roundtrip) (simp_all add: MinimumDuration_def Second_def)
  have "\<not> strings_HasSuffix (Duration_String (sd_duration s)) OpsSuffix"
    using Duration_chars [of "sd_duration s"] by (auto simp: HasSuffix_iff OpsSuffix_def duration_char_def is_digit_def micro_def)
  with durationSchedule_t parse s(1,2) show ?thesis by (simp add: Schedule_text_def)
qed

lemma ParseSchedule_loop_texts:
  "list_all Schedule_valid sched \<Longrightarrow> ParseSchedule_loop fl out (map Schedule_text sched) = Inr (out @ sched)"
  by (induction sched arbitrary: out) (simp_all add: Schedule_text_parses del: ParseSchedule_loop.simps(2))

lemma Schedule_text_no_comma: "CHR '','' \<notin> set (Schedule_text s)"
proof -
  have "CHR '','' \<notin> set (itoa n)" for n by (auto simp: is_digit_def dest: itoa_digits)
  moreover have "CHR '','' \<notin> set (Duration_String d)" for d
    using Duration_chars [of d] by (auto simp: list_all_iff duration_char_def is_digit_def micro_def)
  ultimately show ?thesis by (auto simp: Schedule_text_def OpsSuffix_def split: scheduleType.splits)
qed

lemma Schedule_text_nonempty: "Schedule_text s \<noteq> []"
  by (simp add: Schedule_text_def OpsSuffix_def split: scheduleType.splits)

lemma ParseSchedule_text:
  assumes "list_all Schedule_valid sched"
  shows "ParseSchedule fl (strings_Join (map Schedule_text sched) '','') = Inr sched"
proof (cases "sched = []")
  case False
  then have "strings_Split (CHR '','') (strings_Join (map Schedule_text sched) '','') = map Schedule_text sched"
    by (intro Split_Join) (auto simp: Schedule_text_no_comma)
  moreover have "strings_Join (map Schedule_text sched) '','' \<noteq> []"
    using False Schedule_text_nonempty by (cases sched rule: remdups_adj.cases) auto
  ultimately show ?thesis using ParseSchedule_loop_texts [OF assms, of fl "[]"] by (simp add: ParseSchedule_def)
qed (simp add: ParseSchedule_def)

end
