(* ===== verification/LogProv.thy ===== *)
theory LogProv
  imports MemProv Schedule
begin

text \<open>
  The provider that logs transactions, \<^verbatim>\<open>src/provider/logprov/\<close>, with \<^verbatim>\<open>src/counter/counter.go\<close>.
  It wraps a source provider and appends to a log: a line per consumptive effect of each
  committed transaction, and checkpoints that list the consumptive leases. The read and write
  lock makes every operation one step on the state \<open>logprov\<close>; a checkpoint that \<^verbatim>\<open>add\<close> starts
  in a goroutine is an entry of \<open>lp_pending\<close> until it runs. \<open>lp_locked\<close> is the write lock
  left held for ever. The counter of operations is a \<open>64 word\<close>: it wraps around, and so does
  the difference the schedule looks at.
\<close>

section \<open>The provider\<close>

datatype logline =
    TX instance_t action status string
  | CP_START int
  | CP_ERR int string "goerror option"
  | CP_LEASE int subject_t status
  | CP_END int

record 'p logprov =
  lp_source :: 'p
  lp_log :: "logline list"
  lp_ops :: "64 word"
  lp_last_ops :: "64 word"
  lp_last_when :: time
  lp_pending :: "64 word list"
  lp_closed :: bool
  lp_locked :: bool

definition LogProv_New :: "'p \<Rightarrow> 'p logprov" where
  "LogProv_New source = \<lparr>lp_source = source, lp_log = [], lp_ops = 0, lp_last_ops = 0, lp_last_when = 0,
     lp_pending = [], lp_closed = False, lp_locked = False\<rparr>"

definition Counter_Add :: "64 word \<Rightarrow> 64 word \<Rightarrow> 64 word" where
  "Counter_Add c delta = c + delta"

definition Effect_line :: "effect \<Rightarrow> logline" where
  "Effect_line e = TX (ls_Instance (ef_Lease e)) (ef_Action e) (ls_Status (ef_Lease e)) (ls_Resource (ef_Lease e))"

definition record_lines :: "op_t list \<Rightarrow> logline list" where
  "record_lines ops = concat (map (\<lambda>op.
     if op_Type op = Update \<and> Op_UpdateType op = Renew then []
     else map Effect_line (filter (\<lambda>e. Lease_Consumptive (ef_Lease e)) (Op_Effects op))) ops)"

definition LogProv_add :: "schedule list \<Rightarrow> 64 word \<Rightarrow> 'p logprov \<Rightarrow> 'p logprov" where
  "LogProv_add sched ops p =
     (if ops = 0 then p
      else let current = Counter_Add (lp_ops p) ops;
               count = current - lp_last_ops p;
               p = p\<lparr>lp_ops := current\<rparr>
        in case opsSchedule sched of
             Some n \<Rightarrow> if count \<ge> n then p\<lparr>lp_pending := lp_pending p @ [n]\<rparr> else p
           | None \<Rightarrow> p)"

definition LogProv_record :: "schedule list \<Rightarrow> tx \<Rightarrow> 'p logprov \<Rightarrow> 'p logprov" where
  "LogProv_record sched tx p =
     (let lines = record_lines (tx_ops tx)
      in LogProv_add sched (of_nat (length lines)) (p\<lparr>lp_log := lp_log p @ lines\<rparr>))"

definition LogProv_LeaseResources :: "'p provider \<Rightarrow> 'p logprov \<Rightarrow> 'p logprov \<times> (goerror + string list)" where
  "LogProv_LeaseResources src p =
     (let (s, r) = pv_LeaseResources src (lp_source p) in (p\<lparr>lp_source := s\<rparr>, r))"

definition LogProv_LeaseView ::
  "'p provider \<Rightarrow> 'p logprov \<Rightarrow> string \<Rightarrow> 'p logprov \<times> (goerror + (64 word \<times> leases))" where
  "LogProv_LeaseView src p res =
     (let (s, r) = pv_LeaseView src (lp_source p) res in (p\<lparr>lp_source := s\<rparr>, r))"

definition LogProv_LeaseCommit ::
  "'p provider \<Rightarrow> schedule list \<Rightarrow> 'p logprov \<Rightarrow> tx \<Rightarrow> 'p logprov \<times> goerror option" where
  "LogProv_LeaseCommit src sched p tx =
     (let (s, err) = pv_LeaseCommit src (lp_source p) tx;
          p = p\<lparr>lp_source := s\<rparr>
      in (if err = None then LogProv_record sched tx p else p, err))"

definition LogProv :: "'p provider \<Rightarrow> schedule list \<Rightarrow> 'p logprov provider" where
  "LogProv src sched = \<lparr>pv_LeaseResources = LogProv_LeaseResources src,
     pv_LeaseView = LogProv_LeaseView src, pv_LeaseCommit = LogProv_LeaseCommit src sched\<rparr>"

definition UnixNano :: "time \<Rightarrow> int" where
  "UnixNano at = at - 62135596800 * Second"

text \<open>The lines of one resource; a failed view is logged with \<^verbatim>\<open>err\<close>, which is nil there.\<close>

fun checkpoint_loop :: "'p provider \<Rightarrow> int \<Rightarrow> string list \<Rightarrow> 'p logprov \<Rightarrow> 'p logprov" where
  "checkpoint_loop src nano [] p = p"
| "checkpoint_loop src nano (res # rest) p =
     (let (s, r) = pv_LeaseView src (lp_source p) res;
          lines = (case r of
              Inl viewErr \<Rightarrow> [CP_ERR nano res None]
            | Inr (_, xs) \<Rightarrow> map (\<lambda>l. CP_LEASE nano (ls_Subject l) (ls_Status l)) (filter Lease_Consumptive xs))
      in checkpoint_loop src nano rest (p\<lparr>lp_source := s, lp_log := lp_log p @ lines\<rparr>))"

definition LogProv_checkpoint :: "'p provider \<Rightarrow> time \<Rightarrow> 'p logprov \<Rightarrow> 'p logprov \<times> goerror option" where
  "LogProv_checkpoint src at p =
     (let nano = UnixNano at in
      case pv_LeaseResources src (lp_source p) of
        (s, Inl e) \<Rightarrow> (p\<lparr>lp_source := s\<rparr>, Some e)
      | (s, Inr resources) \<Rightarrow>
          (let p = p\<lparr>lp_source := s, lp_log := lp_log p @ [CP_START nano]\<rparr>;
               p = checkpoint_loop src nano resources p;
               p = p\<lparr>lp_log := lp_log p @ [CP_END nano]\<rparr>
           in (p\<lparr>lp_last_ops := lp_ops p, lp_last_when := at\<rparr>, None)))"

definition LogProv_opsCheckpoint :: "'p provider \<Rightarrow> time \<Rightarrow> 64 word \<Rightarrow> 'p logprov \<Rightarrow> 'p logprov" where
  "LogProv_opsCheckpoint src at ops p =
     (if lp_ops p - lp_last_ops p < ops then p else fst (LogProv_checkpoint src at p))"

text \<open>
  One round of \<^verbatim>\<open>durationCheckpoint\<close>, with the three times it reads: the wait until the next
  round, or \<open>None\<close> when the goroutine returns, which it does without releasing the lock.
\<close>

definition LogProv_duration_round ::
  "'p provider \<Rightarrow> duration \<Rightarrow> time \<Rightarrow> time \<Rightarrow> time \<Rightarrow> 'p logprov \<Rightarrow> 'p logprov \<times> duration option" where
  "LogProv_duration_round src interval now at later p =
     (if lp_closed p then (p\<lparr>lp_locked := True\<rparr>, None)
      else
        (let nxt = nextCheckpoint now (lp_last_when p) interval;
             (p, nxt) = (if nxt \<le> 0
                then (let p = fst (LogProv_checkpoint src at p)
                      in (p, nextCheckpoint later (lp_last_when p) interval))
                else (p, nxt))
         in (p, Some (if nxt < MinimumDuration then MinimumDuration else nxt))))"

definition LogProv_Close :: "'p logprov \<Rightarrow> 'p logprov" where
  "LogProv_Close p = p\<lparr>lp_closed := True\<rparr>"

section \<open>Logging is transparent\<close>

lemma LogProv_add_source [simp]: "lp_source (LogProv_add sched n p) = lp_source p"
  and LogProv_add_log [simp]: "lp_log (LogProv_add sched n p) = lp_log p"
  and LogProv_add_ops [simp]: "lp_ops (LogProv_add sched n p) = lp_ops p + n"
  and LogProv_add_last [simp]: "lp_last_ops (LogProv_add sched n p) = lp_last_ops p"
  by (simp_all add: LogProv_add_def Counter_Add_def Let_def split: option.splits)

lemma LogProv_record_source [simp]: "lp_source (LogProv_record sched tx p) = lp_source p"
  by (simp add: LogProv_record_def Let_def)

lemma LogProv_commit_source:
  "LogProv_LeaseCommit src sched p tx = (p', r) \<Longrightarrow> pv_LeaseCommit src (lp_source p) tx = (lp_source p', r)"
  by (auto simp: LogProv_LeaseCommit_def Let_def split: prod.splits if_splits)

lemma LogProv_store:
  assumes "lease_store src invar content revision"
  shows "lease_store (LogProv src sched) (\<lambda>p. invar (lp_source p)) (\<lambda>p. content (lp_source p)) (\<lambda>p. revision (lp_source p))"
proof -
  from assms have store: "lease_store src invar content revision" .
  show ?thesis
  proof (unfold_locales, goal_cases)
    case (1 p p' names)
    then show ?case using lease_store.resources [OF store, of "lp_source p"]
      by (auto simp: LogProv_def LogProv_LeaseResources_def split: prod.splits)
  next
    case (2 p res p' r)
    then show ?case using lease_store.view [OF store, of "lp_source p" res]
      by (auto simp: LogProv_def LogProv_LeaseView_def split: prod.splits)
  next
    case (3 p tx)
    then show ?case using lease_store.commit_empty [OF store, of "lp_source p" tx]
      by (simp add: LogProv_def LogProv_LeaseCommit_def LogProv_record_def record_lines_def LogProv_add_def Let_def)
  next
    case (4 p tx)
    then show ?case using lease_store.commit_conflict [OF store, of "lp_source p" tx]
      by (auto simp: LogProv_def LogProv_LeaseCommit_def Let_def split: prod.splits)
  next
    case (5 p tx p' e)
    then show ?case using lease_store.commit_error [OF store, of "lp_source p" tx "lp_source p'" e]
        LogProv_commit_source [of src sched p tx p' "Some e"]
      by (simp add: LogProv_def)
  next
    case (6 p tx p')
    then show ?case using lease_store.commit_ok [OF store, of "lp_source p" tx "lp_source p'"]
        LogProv_commit_source [of src sched p tx p' None]
      by (simp add: LogProv_def)
  qed
qed

interpretation logMem: lease_store "LogProv (MemProv insertionSort) sched"
    "\<lambda>p. True" "\<lambda>p. mem_content (lp_source p)" "\<lambda>p. mem_revision (lp_source p)"
  for sched :: "schedule list"
  using LogProv_store [OF mem.lease_store_axioms, of sched] by simp

section \<open>The log is an audit trail\<close>

text \<open>
  \<open>ledger xs\<close> is the multiset of subjects and statuses of the consumptive leases of \<open>xs\<close>;
  \<open>audit\<close> replays log lines on such a multiset. Replaying the lines a transaction leaves in
  the log leads from the ledger of the leases before it to that of the leases after it.
\<close>

definition ledger :: "leases \<Rightarrow> (subject_t \<times> status) multiset" where
  "ledger xs = mset (map (\<lambda>l. (ls_Subject l, ls_Status l)) (filter Lease_Consumptive xs))"

fun audit_line :: "(subject_t \<times> status) multiset \<Rightarrow> logline \<Rightarrow> (subject_t \<times> status) multiset" where
  "audit_line M (TX inst act st res) =
     (let entry = (\<lparr>sub_Resource = res, sub_Instance = inst\<rparr>, st)
      in if act = Delete then M - {#entry#} else if act = Create then add_mset entry M else M)"
| "audit_line M _ = M"

definition audit :: "(subject_t \<times> status) multiset \<Rightarrow> logline list \<Rightarrow> (subject_t \<times> status) multiset" where
  "audit M lines = foldl audit_line M lines"

lemma ledger_mset [mset_cong]: "mset xs = mset ys \<Longrightarrow> ledger xs = ledger ys"
  by (simp add: ledger_def)

lemma ledger_split: "ledger (pre @ x # suf) =
    (if Lease_Consumptive x then add_mset (ls_Subject x, ls_Status x) (ledger (pre @ suf)) else ledger (pre @ suf))"
  by (simp add: ledger_def)

lemma Effect_line_entry: "audit_line M (Effect_line \<lparr>ef_Action = act, ef_Lease = l\<rparr>) =
    (if act = Delete then M - {#(ls_Subject l, ls_Status l)#}
     else if act = Create then add_mset (ls_Subject l, ls_Status l) M else M)"
  by (cases "ls_Subject l") (simp add: Effect_line_def Let_def)

lemma record_lines_append: "record_lines (ops @ [op]) = record_lines ops @ record_lines [op]"
  by (simp add: record_lines_def)

lemma Renew_same: "Op_UpdateType (update_op x l) = Renew \<Longrightarrow> ls_Subject l = ls_Subject x \<and> ls_Status l = ls_Status x"
  by (cases "ls_Subject l"; cases "ls_Subject x")
    (auto simp: Op_UpdateType_def update_op_def Let_def split: if_splits)

lemma audit_op:
  shows "audit (ledger cur) (record_lines [create_op l]) = ledger (cur @ [l])"
    and "audit (ledger (pre @ x # suf)) (record_lines [update_op x l]) = ledger (pre @ l # suf)"
    and "audit (ledger (pre @ x # suf)) (record_lines [delete_op x]) = ledger (pre @ suf)"
proof -
  have c: "ledger (cur @ [l]) = (if Lease_Consumptive l then add_mset (ls_Subject l, ls_Status l) (ledger cur) else ledger cur)"
    using ledger_split [of cur l "[]"] by simp
  show "audit (ledger cur) (record_lines [create_op l]) = ledger (cur @ [l])"
    by (simp add: c audit_def record_lines_def create_op_def Op_Effects_def Effect_line_entry)
  show "audit (ledger (pre @ x # suf)) (record_lines [delete_op x]) = ledger (pre @ suf)"
    by (simp add: ledger_split audit_def record_lines_def delete_op_def Op_Effects_def Effect_line_entry)
  show "audit (ledger (pre @ x # suf)) (record_lines [update_op x l]) = ledger (pre @ l # suf)"
  proof (cases "Op_UpdateType (update_op x l) = Renew")
    case True
    with Renew_same [OF True] show ?thesis
      by (simp add: ledger_split audit_def record_lines_def update_op_def Lease_Consumptive_def)
  next
    case False
    then show ?thesis
      by (simp add: ledger_split audit_def record_lines_def Op_Effects_def Effect_line_entry update_op_def)
  qed
qed

lemma audit_replays: "replays base ops cur \<Longrightarrow> audit (ledger base) (record_lines ops) = ledger cur"
proof (induction rule: replays.induct)
  case (perm ops cur cur')
  then show ?case using ledger_mset by metis
next
  case (create ops cur l)
  then show ?case using audit_op(1) [of cur l] by (simp add: record_lines_append audit_def)
next
  case (update ops pre x suf l)
  then show ?case using audit_op(2) [of pre x suf l] by (simp add: record_lines_append audit_def)
next
  case (delete ops pre x suf)
  then show ?case using audit_op(3) [of pre x suf] by (simp add: record_lines_append audit_def)
qed (simp add: record_lines_def audit_def)

section \<open>Checkpoints\<close>

definition is_TX :: "logline \<Rightarrow> bool" where
  "is_TX l = (case l of TX _ _ _ _ \<Rightarrow> True | _ \<Rightarrow> False)"

definition is_END :: "logline \<Rightarrow> bool" where
  "is_END l = (case l of CP_END _ \<Rightarrow> True | _ \<Rightarrow> False)"

definition tx_since :: "logline list \<Rightarrow> nat" where
  "tx_since lines = length (filter is_TX (takeWhile (\<lambda>l. \<not> is_END l) (rev lines)))"

lemma tx_since_append:
  "\<forall>l \<in> set new. \<not> is_END l \<Longrightarrow> tx_since (old @ new) = tx_since old + length (filter is_TX new)"
proof -
  assume "\<forall>l \<in> set new. \<not> is_END l"
  then have "takeWhile (\<lambda>l. \<not> is_END l) (rev new @ rev old) = rev new @ takeWhile (\<lambda>l. \<not> is_END l) (rev old)"
    by (intro takeWhile_append2) simp
  then show ?thesis by (simp add: tx_since_def rev_filter [symmetric])
qed

lemma tx_since_END [simp]: "tx_since (old @ [CP_END n]) = 0"
  by (simp add: tx_since_def is_END_def)

lemma record_lines_TX: "\<forall>l \<in> set (record_lines ops). is_TX l \<and> \<not> is_END l"
  by (auto simp: record_lines_def Effect_line_def is_TX_def is_END_def split: if_splits)

lemma checkpoint_loop_state [simp]:
  "lp_ops (checkpoint_loop src nano rs p) = lp_ops p"
  "lp_pending (checkpoint_loop src nano rs p) = lp_pending p"
  by (induction rs arbitrary: p) (simp_all add: Let_def split: prod.splits)

lemma checkpoint_counts:
  assumes "LogProv_checkpoint src at p = (p', None)"
  shows "lp_ops p' = lp_ops p" "lp_last_ops p' = lp_ops p" "lp_last_when p' = at" "tx_since (lp_log p') = 0"
    "lp_pending p' = lp_pending p"
  using assms by (auto simp: LogProv_checkpoint_def Let_def split: prod.splits sum.splits)

lemma checkpoint_fails:
  assumes "LogProv_checkpoint src at p = (p', Some e)"
  shows "\<exists>s. p' = p\<lparr>lp_source := s\<rparr>"
  using assms by (auto simp: LogProv_checkpoint_def Let_def split: prod.splits sum.splits)

text \<open>
  The steps of the provider: commits and views by clients, a pending checkpoint that gets to
  run, a checkpoint on demand, a round of the goroutine that follows the duration schedule.
\<close>

inductive log_step :: "'p provider \<Rightarrow> schedule list \<Rightarrow> 'p logprov \<Rightarrow> 'p logprov \<Rightarrow> bool"
  for src :: "'p provider" and sched :: "schedule list" where
  commits: "LogProv_LeaseCommit src sched p tx = (p', r) \<Longrightarrow> log_step src sched p p'"
| views: "LogProv_LeaseView src p res = (p', r) \<Longrightarrow> log_step src sched p p'"
| pending: "k \<in> set (lp_pending p) \<Longrightarrow>
    p' = LogProv_opsCheckpoint src at k (p\<lparr>lp_pending := remove1 k (lp_pending p)\<rparr>) \<Longrightarrow> log_step src sched p p'"
| demand: "LogProv_checkpoint src at p = (p', r) \<Longrightarrow> log_step src sched p p'"
| round: "durationSchedule sched = Some d \<Longrightarrow>
    LogProv_duration_round src d now at later p = (p', w) \<Longrightarrow> log_step src sched p p'"

definition counted :: "'p logprov \<Rightarrow> bool" where
  "counted p \<longleftrightarrow> lp_ops p - lp_last_ops p = of_nat (tx_since (lp_log p))"

definition due :: "schedule list \<Rightarrow> 'p logprov \<Rightarrow> bool" where
  "due sched p \<longleftrightarrow> (\<forall>k. opsSchedule sched = Some k \<longrightarrow> k \<le> lp_ops p - lp_last_ops p \<longrightarrow> lp_pending p \<noteq> []) \<and>
     (\<forall>k \<in> set (lp_pending p). opsSchedule sched = Some k)"

lemma checkpoint_cases:
  obtains (finished) p' where "LogProv_checkpoint src at p = (p', None)"
  | (fails) s e where "LogProv_checkpoint src at p = (p\<lparr>lp_source := s\<rparr>, Some e)"
  using checkpoint_fails [of src at p] by (cases "LogProv_checkpoint src at p"; cases "snd (LogProv_checkpoint src at p)") auto

lemma checkpoint_counted: "counted p \<Longrightarrow> counted (fst (LogProv_checkpoint src at p))"
  by (cases rule: checkpoint_cases [of src at p]) (auto simp: counted_def checkpoint_counts)

lemma log_step_counted: "log_step src sched p p' \<Longrightarrow> counted p \<Longrightarrow> counted p'"
proof (induction rule: log_step.induct)
  case (commits p tx p' r)
  let ?q = "p\<lparr>lp_source := lp_source p'\<rparr>"
  have "counted (LogProv_record sched tx ?q)"
    using commits(2) record_lines_TX [of "tx_ops tx"]
    by (simp add: counted_def LogProv_record_def tx_since_append Let_def filter_id_conv)
  with commits show ?case by (auto simp: LogProv_LeaseCommit_def counted_def Let_def split: prod.splits if_splits)
next
  case (views p res p' r)
  then show ?case by (auto simp: LogProv_LeaseView_def counted_def split: prod.splits)
next
  case (pending k p p' at)
  then show ?case
    using checkpoint_counted [of "p\<lparr>lp_pending := remove1 k (lp_pending p)\<rparr>" src at]
    by (simp add: LogProv_opsCheckpoint_def counted_def)
next
  case (demand at p p' r)
  then show ?case using checkpoint_counted [of p src at] by simp
next
  case (round d now at later p p' w)
  then show ?case using checkpoint_counted [of p src at]
    by (auto simp: LogProv_duration_round_def counted_def Let_def split: if_splits)
qed

lemma opsSchedule_nonzero: "opsSchedule sched = Some k \<Longrightarrow> k \<noteq> 0"
proof -
  assume k: "opsSchedule sched = Some k"
  let ?vs = "sd_ops ` {s \<in> set sched. sd_t s = opsSchedule_t \<and> sd_ops s \<noteq> 0}"
  from k have "?vs \<noteq> {}" "k = Min ?vs" by (auto simp: opsSchedule_Min split: if_splits)
  then have "k \<in> ?vs" using Min_in [of ?vs] by simp
  then show ?thesis by auto
qed

lemma checkpoint_due:
  assumes "\<And>s. \<exists>s' ns. pv_LeaseResources src s = (s', Inr ns)" and "\<forall>k \<in> set (lp_pending p). opsSchedule sched = Some k"
  shows "due sched (fst (LogProv_checkpoint src at p))"
proof (cases rule: checkpoint_cases [of src at p])
  case (finished p')
  with assms(2) opsSchedule_nonzero [of sched] show ?thesis
    by (auto simp: due_def checkpoint_counts)
next
  case (fails s e)
  with assms(1) [of "lp_source p"] show ?thesis by (auto simp: LogProv_checkpoint_def Let_def)
qed

lemma log_step_due:
  assumes "log_step src sched p p'" and reliable: "\<And>s. \<exists>s' ns. pv_LeaseResources src s = (s', Inr ns)"
  shows "due sched p \<Longrightarrow> due sched p'"
  using assms(1)
proof (induction rule: log_step.induct)
  case (commits p tx p' r)
  let ?n = "of_nat (length (record_lines (tx_ops tx))) :: 64 word"
  have "due sched (LogProv_add sched ?n q)" if "due sched q" for q :: "'a logprov"
    using that by (auto simp: due_def LogProv_add_def Counter_Add_def Let_def split: option.splits if_splits)
  moreover have "due sched (p\<lparr>lp_source := lp_source p', lp_log := l\<rparr>)" for l using commits(2) by (simp add: due_def)
  moreover have "due sched (p\<lparr>lp_source := lp_source p'\<rparr>)" using commits(2) by (simp add: due_def)
  ultimately show ?case using commits(1)
    by (auto simp: LogProv_LeaseCommit_def LogProv_record_def Let_def split: prod.splits if_splits)
next
  case (views p res p' r)
  then show ?case by (auto simp: LogProv_LeaseView_def due_def split: prod.splits)
next
  case (pending k p p' at)
  let ?q = "p\<lparr>lp_pending := remove1 k (lp_pending p)\<rparr>"
  have all: "\<forall>j \<in> set (lp_pending p). opsSchedule sched = Some j" using pending(3) by (simp add: due_def)
  have "set (lp_pending ?q) \<subseteq> set (lp_pending p)" using set_remove1_subset [of k "lp_pending p"] by simp
  with all have q: "\<forall>j \<in> set (lp_pending ?q). opsSchedule sched = Some j" by (meson subsetD)
  have k: "opsSchedule sched = Some k" using all pending(1) by (rule bspec)
  have "due sched ?q" if "lp_ops p - lp_last_ops p < k" using that k q by (simp add: due_def not_le [symmetric])
  then show ?case using pending(2) checkpoint_due [OF reliable q] by (auto simp: LogProv_opsCheckpoint_def)
next
  case (demand at p p' r)
  then show ?case using checkpoint_due [OF reliable, of p sched at] by (simp add: due_def)
next
  case (round d now at later p p' w)
  then show ?case using checkpoint_due [OF reliable, of p sched at]
    by (auto simp: LogProv_duration_round_def due_def Let_def split: if_splits)
qed

text \<open>
  So in every state the provider reaches, the operations counted since the last checkpoint are the transaction lines
  logged after its end, and a count that reaches the scheduled number has a checkpoint pending.
\<close>

lemma checkpoints_counted:
  assumes "(log_step src sched)\<^sup>*\<^sup>* (LogProv_New s) p" and "\<And>s. \<exists>s' ns. pv_LeaseResources src s = (s', Inr ns)"
  shows "lp_ops p - lp_last_ops p = of_nat (tx_since (lp_log p)) \<and>
    (\<forall>k. opsSchedule sched = Some k \<longrightarrow> k \<le> lp_ops p - lp_last_ops p \<longrightarrow> lp_pending p \<noteq> [])"
proof -
  have init: "counted (LogProv_New s) \<and> due sched (LogProv_New s)"
    using opsSchedule_nonzero [of sched]
    by (auto simp: counted_def due_def LogProv_New_def tx_since_def)
  from assms(1) have "counted p \<and> due sched p"
    by (induction rule: rtranclp_induct)
      (use init log_step_counted log_step_due [OF _ assms(2)] in blast)+
  then show ?thesis by (simp add: counted_def due_def)
qed

end
