(* ===== verification/PolicyProv.thy ===== *)
theory PolicyProv
  imports Policy GoStrings "HOL-Library.List_Lexorder" "HOL-Library.Char_ord"
begin

text \<open>
  The policy providers: the filesystem provider \<^verbatim>\<open>src/provider/fsprov/provider.go\<close> and the cache
  \<^verbatim>\<open>src/provider/cacheprov/provider.go\<close>. A policy directory maps names to files or
  directories; which I/O calls fail is the record \<open>iofail\<close>. \<^verbatim>\<open>encoding/json\<close> and the hash of
  a policy are parameters. \<^verbatim>\<open>ioutil.ReadDir\<close> lists names in byte order; a Go map is written
  out in the order of the association list.
\<close>

section \<open>The directory\<close>

datatype 'b node = Dir | File 'b

type_synonym 'b dir = "(string, 'b node) gomap"

record iofail =
  io_ReadDir :: "goerror option"
  io_ReadFile :: "string \<Rightarrow> goerror option"
  io_WriteFile :: "string \<Rightarrow> goerror option"
  io_Remove :: "string \<Rightarrow> goerror option"

record 'b polcodec =
  pc_Marshal :: "policy \<Rightarrow> goerror + 'b"
  pc_Unmarshal :: "'b \<Rightarrow> goerror + policy"

definition PolSuffix :: string where "PolSuffix = ''.pol''"

definition isPolicyFile :: "string \<times> 'b node \<Rightarrow> bool" where
  "isPolicyFile file = (case snd file of Dir \<Rightarrow> False | File _ \<Rightarrow> strings_HasSuffix (fst file) PolSuffix)"

definition ReadDir :: "iofail \<Rightarrow> 'b dir \<Rightarrow> goerror + (string \<times> 'b node) list" where
  "ReadDir io d = (case io_ReadDir io of Some e \<Rightarrow> Inl e | None \<Rightarrow> Inr (sort_key fst d))"

definition ReadFile :: "iofail \<Rightarrow> 'b dir \<Rightarrow> string \<Rightarrow> goerror + 'b" where
  "ReadFile io d name = (case io_ReadFile io name of Some e \<Rightarrow> Inl e | None \<Rightarrow>
     (case map_of d name of Some (File b) \<Rightarrow> Inr b | _ \<Rightarrow> Inl ''cannot read''))"

section \<open>Reading and writing policies\<close>

fun FsProv_Policies_loop ::
  "'b polcodec \<Rightarrow> iofail \<Rightarrow> 'b dir \<Rightarrow> policies \<Rightarrow> (string \<times> 'b node) list \<Rightarrow> policies \<times> goerror option" where
  "FsProv_Policies_loop pc io d out [] = (out, None)"
| "FsProv_Policies_loop pc io d out (file # files) =
     (if \<not> isPolicyFile file then FsProv_Policies_loop pc io d out files
      else case ReadFile io d (fst file) of
        Inl e \<Rightarrow> ([], Some (''unable to read policy file '' @ quoted (fst file) @ '': '' @ e))
      | Inr contents \<Rightarrow>
          (case pc_Unmarshal pc contents of
             Inl e \<Rightarrow> (out, Some (''decoding error while parsing policy file '' @ quoted (fst file) @ '': '' @ e))
           | Inr pol \<Rightarrow>
               if \<not> strategy_Valid (pol_Strategy pol)
               then (out, Some (''invalid policy strategy in '' @ quoted (fst file) @ '': '' @ quoted (pol_Strategy pol)))
               else
                 (let pol = (if pol_Duration pol = 0 then pol\<lparr>pol_Duration := DefaultDuration\<rparr> else pol)
                  in FsProv_Policies_loop pc io d (out @ [pol]) files)))"

definition FsProv_Policies :: "'b polcodec \<Rightarrow> iofail \<Rightarrow> 'b dir \<Rightarrow> policies \<times> goerror option" where
  "FsProv_Policies pc io d =
     (case ReadDir io d of
        Inl e \<Rightarrow> ([], Some (''unable to access policy directory: '' @ e))
      | Inr files \<Rightarrow> FsProv_Policies_loop pc io d [] files)"

fun newFiles_loop ::
  "'b polcodec \<Rightarrow> (policy \<Rightarrow> string) \<Rightarrow> (string, 'b) gomap \<Rightarrow> policies \<Rightarrow> goerror + (string, 'b) gomap" where
  "newFiles_loop pc hash m [] = Inr m"
| "newFiles_loop pc hash m (pol # pols) =
     (case pc_Marshal pc pol of
        Inl e \<Rightarrow> Inl (''failed to marshal json for policy: '' @ e)
      | Inr content \<Rightarrow> newFiles_loop pc hash (gm_put m (hash pol @ PolSuffix) content) pols)"

fun write_loop :: "iofail \<Rightarrow> 'b dir \<Rightarrow> (string \<times> 'b) list \<Rightarrow> 'b dir \<times> goerror option" where
  "write_loop io d [] = (d, None)"
| "write_loop io d ((name, data) # rest) =
     (case io_WriteFile io name of
        Some e \<Rightarrow> (d, Some (''failed to write policy file '' @ quoted name @ '': '' @ e))
      | None \<Rightarrow>
          (if map_of d name = Some Dir
           then (d, Some (''failed to write policy file '' @ quoted name @ '': is a directory''))
           else write_loop io (gm_put d name (File data)) rest))"

fun remove_loop :: "iofail \<Rightarrow> 'b dir \<Rightarrow> (string \<times> bool) list \<Rightarrow> 'b dir \<times> goerror option" where
  "remove_loop io d [] = (d, None)"
| "remove_loop io d ((name, keep) # rest) =
     (if keep then remove_loop io d rest
      else case io_Remove io name of
        Some e \<Rightarrow> (d, Some (''failed to delete policy file '' @ quoted name @ '': '' @ e))
      | None \<Rightarrow> remove_loop io (gm_delete d name) rest)"

definition FsProv_SetPolicies ::
  "'b polcodec \<Rightarrow> (policy \<Rightarrow> string) \<Rightarrow> iofail \<Rightarrow> policies \<Rightarrow> 'b dir \<Rightarrow> 'b dir \<times> goerror option" where
  "FsProv_SetPolicies pc hash io pols d =
     (case newFiles_loop pc hash [] pols of
        Inl e \<Rightarrow> (d, Some e)
      | Inr newFiles \<Rightarrow>
          (case ReadDir io d of
             Inl e \<Rightarrow> (d, Some (''unable to access policy directory: '' @ e))
           | Inr files \<Rightarrow>
               (let existingFiles = map (\<lambda>file. (fst file, map_of newFiles (fst file) \<noteq> None)) (filter isPolicyFile files)
                in case write_loop io d newFiles of
                     (d, Some e) \<Rightarrow> (d, Some e)
                   | (d, None) \<Rightarrow> remove_loop io d existingFiles)))"

section \<open>The cache\<close>

record cacheprov =
  cp_cached :: bool
  cp_policies :: policies

definition CacheProv_New :: cacheprov where
  "CacheProv_New = \<lparr>cp_cached = False, cp_policies = []\<rparr>"

text \<open>\<^verbatim>\<open>pull\<close>, with the source as a function that is called when the cache is empty.\<close>

definition CacheProv_pull ::
  "('s \<Rightarrow> 's \<times> policies \<times> goerror option) \<Rightarrow> cacheprov \<times> 's \<Rightarrow> (cacheprov \<times> 's) \<times> policies \<times> goerror option" where
  "CacheProv_pull source st =
     (let (p, s) = st in
      if \<not> cp_cached p then
        (let (s, pols, err) = source s;
             p = p\<lparr>cp_policies := pols\<rparr>;
             p = (if err = None then p\<lparr>cp_cached := True\<rparr> else p)
         in ((p, s), cp_policies p, err))
      else ((p, s), cp_policies p, None))"

definition CacheProv_Policies ::
  "('s \<Rightarrow> 's \<times> policies \<times> goerror option) \<Rightarrow> cacheprov \<times> 's \<Rightarrow> (cacheprov \<times> 's) \<times> policies \<times> goerror option" where
  "CacheProv_Policies source st = CacheProv_pull source st"

section \<open>What the filesystem provider guarantees\<close>

text \<open>One turn of the loop of \<^verbatim>\<open>Policies\<close>, by its outcome.\<close>

lemma Policies_loop_cases:
  obtains (skip) "\<not> isPolicyFile f" "FsProv_Policies_loop pc io d out (f # fs) = FsProv_Policies_loop pc io d out fs"
  | (error) out' e where "isPolicyFile f" "out' = out \<or> out' = []" "FsProv_Policies_loop pc io d out (f # fs) = (out', Some e)"
  | (take) b pol where "isPolicyFile f" "ReadFile io d (fst f) = Inr b" "pc_Unmarshal pc b = Inr pol"
      "strategy_Valid (pol_Strategy pol)"
      "FsProv_Policies_loop pc io d out (f # fs) = FsProv_Policies_loop pc io d
         (out @ [if pol_Duration pol = 0 then pol\<lparr>pol_Duration := DefaultDuration\<rparr> else pol]) fs"
proof (cases "isPolicyFile f")
  case False
  with skip show ?thesis by simp
next
  case True
  show ?thesis
  proof (cases "ReadFile io d (fst f)")
    case (Inl e)
    with True error [of "[]"] show ?thesis by simp
  next
    case (Inr b)
    show ?thesis
    proof (cases "pc_Unmarshal pc b")
      case (Inl e)
      with True Inr error [of out] show ?thesis by simp
    next
      case u: (Inr pol)
      show ?thesis
      proof (cases "strategy_Valid (pol_Strategy pol)")
        case v: True
        show ?thesis by (rule take [OF True Inr u v]) (simp add: True Inr u v Let_def)
      next
        case v: False
        show ?thesis by (rule error [OF True, of out]) (simp_all add: True Inr u v)
      qed
    qed
  qed
qed

lemma Policies_loop_valid:
  assumes "FsProv_Policies_loop pc io d out files = (pols, err)"
    and "\<forall>p \<in> set out. strategy_Valid (pol_Strategy p) \<and> pol_Duration p \<noteq> 0"
  shows "\<forall>p \<in> set pols. strategy_Valid (pol_Strategy p) \<and> pol_Duration p \<noteq> 0"
  using assms
proof (induction files arbitrary: out)
  case (Cons f fs)
  show ?case
  proof (cases rule: Policies_loop_cases [of f pc io d out fs])
    case skip
    show ?thesis by (rule Cons.IH [OF Cons.prems(1) [unfolded skip(2)] Cons.prems(2)])
  next
    case (error out' e)
    with Cons.prems show ?thesis by auto
  next
    case (take b pol)
    have "DefaultDuration \<noteq> 0" by (simp add: DefaultDuration_def Minute_def Second_def)
    with take(4) Cons.prems(2) show ?thesis
      by (intro Cons.IH [OF Cons.prems(1) [unfolded take(5)]]) auto
  qed
qed simp

lemma FsProv_Policies_valid:
  "FsProv_Policies pc io d = (pols, err) \<Longrightarrow> p \<in> set pols \<Longrightarrow> strategy_Valid (pol_Strategy p) \<and> pol_Duration p \<noteq> 0"
  using Policies_loop_valid [of pc io d "[]" _ pols err]
  by (auto simp: FsProv_Policies_def split: sum.splits)

text \<open>
  Writing a set of policies and reading it back. \<open>io_ok\<close> is a filesystem without failures.
\<close>

definition io_ok :: iofail where
  "io_ok = \<lparr>io_ReadDir = None, io_ReadFile = (\<lambda>_. None), io_WriteFile = (\<lambda>_. None), io_Remove = (\<lambda>_. None)\<rparr>"

definition pol_files :: "'b dir \<Rightarrow> string \<Rightarrow> 'b option" where
  "pol_files d name = (case map_of d name of Some (File b) \<Rightarrow>
     if strings_HasSuffix name PolSuffix then Some b else None | _ \<Rightarrow> None)"

lemma newFiles_outside:
  assumes "newFiles_loop pc hash m pols = Inr m'" and "name \<notin> (\<lambda>p. hash p @ PolSuffix) ` set pols"
  shows "map_of m' name = map_of m name"
  using assms
proof (induction pols arbitrary: m)
  case (Cons p pols)
  from Cons.prems(1) obtain c where "newFiles_loop pc hash (gm_put m (hash p @ PolSuffix) c) pols = Inr m'"
    by (auto split: sum.splits)
  from Cons.IH [OF this] Cons.prems(2) show ?case by (simp add: gm_put_def update_conv')
qed simp

lemma newFiles_inside:
  assumes "newFiles_loop pc hash m pols = Inr m'" and "inj_on hash (set pols)" and "pol \<in> set pols"
  shows "\<exists>c. pc_Marshal pc pol = Inr c \<and> map_of m' (hash pol @ PolSuffix) = Some c"
  using assms
proof (induction pols arbitrary: m)
  case (Cons p pols)
  from Cons.prems(1) obtain c where c: "pc_Marshal pc p = Inr c"
    "newFiles_loop pc hash (gm_put m (hash p @ PolSuffix) c) pols = Inr m'" by (auto split: sum.splits)
  show ?case
  proof (cases "pol \<in> set pols")
    case True
    with Cons.IH [OF c(2)] Cons.prems(2) show ?thesis by simp
  next
    case False
    with Cons.prems(2,3) have "pol = p" "hash pol @ PolSuffix \<notin> (\<lambda>p. hash p @ PolSuffix) ` set pols"
      by (auto simp: inj_on_def)
    with newFiles_outside [OF c(2)] c(1) show ?thesis by (simp add: gm_put_def update_conv')
  qed
qed simp

lemma write_loop_map:
  assumes "write_loop io_ok d files = (d', None)" and "distinct (map fst files)"
  shows "map_of d' name = (case map_of files name of Some b \<Rightarrow> Some (File b) | None \<Rightarrow> map_of d name)"
  using assms
proof (induction files arbitrary: d)
  case (Cons f files)
  obtain a b where f: "f = (a, b)" by fastforce
  from Cons.prems(1) have "write_loop io_ok (gm_put d a (File b)) files = (d', None)"
    by (simp add: f io_ok_def split: if_splits)
  with Cons.IH Cons.prems(2) have IH: "map_of d' name =
      (case map_of files name of Some b \<Rightarrow> Some (File b) | None \<Rightarrow> map_of (gm_put d a (File b)) name)" by (simp add: f)
  have none: "map_of files a = None" using Cons.prems(2) by (simp add: f map_of_eq_None_iff)
  show ?case
  proof (cases "name = a")
    case True
    with IH none show ?thesis by (simp add: f gm_put_def update_conv')
  next
    case False
    with IH show ?thesis by (cases "map_of files name") (simp_all add: f gm_put_def update_conv')
  qed
qed simp

lemma write_loop_wf: "write_loop io d files = (d', r) \<Longrightarrow> gm_wf d \<Longrightarrow> gm_wf d'"
  by (induction io d files rule: write_loop.induct) (auto split: option.splits if_splits)

lemma remove_loop_map:
  "remove_loop io_ok d files = (d', None) \<Longrightarrow>
   map_of d' name = (if (name, False) \<in> set files then None else map_of d name)"
  by (induction io_ok d files arbitrary: rule: remove_loop.induct)
    (auto simp: io_ok_def gm_delete_def delete_conv' split: if_splits)

lemma remove_loop_wf: "remove_loop io d files = (d', r) \<Longrightarrow> gm_wf d \<Longrightarrow> gm_wf d'"
  by (induction io d files rule: remove_loop.induct) (auto split: option.splits if_splits)

lemma newFiles_wf: "newFiles_loop pc hash m pols = Inr m' \<Longrightarrow> gm_wf m \<Longrightarrow> gm_wf m'"
  by (induction pc hash m pols rule: newFiles_loop.induct) (auto split: sum.splits)

text \<open>After a successful update the policy files are exactly those of the new set.\<close>

lemma SetPolicies_files:
  assumes "FsProv_SetPolicies pc hash io_ok pols d = (d', None)" and "gm_wf d"
  obtains m where "newFiles_loop pc hash [] pols = Inr m" and "gm_wf d'" and "\<And>name. pol_files d' name = map_of m name"
proof -
  from assms(1) obtain m d1 where m: "newFiles_loop pc hash [] pols = Inr m"
    and w: "write_loop io_ok d m = (d1, None)"
    and r: "remove_loop io_ok d1 (map (\<lambda>file. (fst file, map_of m (fst file) \<noteq> None)) (filter isPolicyFile (sort_key fst d))) = (d', None)"
    by (auto simp: FsProv_SetPolicies_def ReadDir_def io_ok_def Let_def split: sum.splits prod.splits option.splits)
  have wf: "distinct (map fst m)" using newFiles_wf [OF m] by (simp add: gm_wf_def)
  have suffix: "strings_HasSuffix name PolSuffix" if "map_of m name \<noteq> None" for name
    using newFiles_outside [OF m, of name] that by (auto simp: HasSuffix_iff)
  have "pol_files d' name = map_of m name" for name
  proof (cases "map_of m name")
    case (Some b)
    with write_loop_map [OF w wf, of name] remove_loop_map [OF r, of name] suffix [of name]
    show ?thesis by (auto simp: pol_files_def)
  next
    case None
    have "pol_files d' name = None"
    proof (cases "\<exists>b. map_of d name = Some (File b) \<and> strings_HasSuffix name PolSuffix")
      case True
      then obtain b where b: "(name, File b) \<in> set d" "strings_HasSuffix name PolSuffix" by (auto dest: map_of_SomeD)
      then have "(name, False) \<in> (\<lambda>file. (fst file, map_of m (fst file) \<noteq> None)) ` {x \<in> set d. isPolicyFile x}"
        using None by (intro image_eqI [of _ _ "(name, File b)"]) (auto simp: isPolicyFile_def)
      with remove_loop_map [OF r, of name] show ?thesis by (simp add: pol_files_def)
    next
      case False
      with write_loop_map [OF w wf, of name] remove_loop_map [OF r, of name] None show ?thesis
        by (auto simp: pol_files_def split: option.splits node.splits if_splits)
    qed
    with None show ?thesis by simp
  qed
  with that [OF m] remove_loop_wf [OF r write_loop_wf [OF w assms(2)]] show ?thesis by blast
qed

lemma Policies_loop_reads:
  assumes "\<forall>f \<in> set files. isPolicyFile f \<longrightarrow> (\<exists>b pol. ReadFile io d (fst f) = Inr b \<and>
     pc_Unmarshal pc b = Inr pol \<and> strategy_Valid (pol_Strategy pol) \<and> pol_Duration pol \<noteq> 0)"
  shows "FsProv_Policies_loop pc io d out files =
    (out @ map (\<lambda>f. projr (pc_Unmarshal pc (projr (ReadFile io d (fst f))))) (filter isPolicyFile files), None)"
  using assms
proof (induction files arbitrary: out)
  case (Cons f files)
  show ?case
  proof (cases "isPolicyFile f")
    case True
    with Cons.prems obtain b pol where "ReadFile io d (fst f) = Inr b" "pc_Unmarshal pc b = Inr pol"
      "strategy_Valid (pol_Strategy pol)" "pol_Duration pol \<noteq> 0" by auto
    with True Cons.IH [of "out @ [pol]"] Cons.prems show ?thesis by simp
  next
    case False
    with Cons.IH [of out] Cons.prems show ?thesis by simp
  qed
qed simp

lemma policy_file_node:
  assumes "gm_wf d"
  shows "f \<in> set d \<and> isPolicyFile f \<longleftrightarrow> (\<exists>b. pol_files d (fst f) = Some b \<and> snd f = File b)"
proof -
  have "map_of d (fst f) = Some (snd f) \<longleftrightarrow> f \<in> set d"
    using assms map_of_eq_Some_iff [of d "fst f" "snd f"] by (simp add: gm_wf_def)
  then show ?thesis by (cases "snd f") (auto simp: pol_files_def isPolicyFile_def split: option.splits node.splits if_splits)
qed

lemma SetPolicies_roundtrip:
  assumes set: "FsProv_SetPolicies pc hash io_ok pols d = (d', None)" and "gm_wf d"
    and codec: "\<And>p b. p \<in> set pols \<Longrightarrow> pc_Marshal pc p = Inr b \<Longrightarrow> pc_Unmarshal pc b = Inr p"
    and hash: "inj_on hash (set pols)"
    and valid: "\<forall>p \<in> set pols. strategy_Valid (pol_Strategy p) \<and> pol_Duration p \<noteq> 0"
  shows "\<exists>pols'. FsProv_Policies pc io_ok d' = (pols', None) \<and> set pols' = set pols"
proof -
  obtain m where m: "newFiles_loop pc hash [] pols = Inr m" and wf: "gm_wf d'"
    and files: "\<And>name. pol_files d' name = map_of m name" using SetPolicies_files [OF set assms(2)] by metis
  let ?read = "\<lambda>f. projr (pc_Unmarshal pc (projr (ReadFile io_ok d' (fst f))))"
  have read: "ReadFile io_ok d' name = Inr b" if "pol_files d' name = Some b" for name b
    using that by (auto simp: ReadFile_def io_ok_def pol_files_def split: option.splits node.splits if_splits)
  have fwd: "\<exists>b pol. ReadFile io_ok d' (fst f) = Inr b \<and> pc_Unmarshal pc b = Inr pol \<and> pol \<in> set pols"
    if "f \<in> set d'" "isPolicyFile f" for f
  proof -
    from policy_file_node [OF wf, of f] that obtain b where b: "pol_files d' (fst f) = Some b" by auto
    with newFiles_outside [OF m, of "fst f"] obtain pol where pol: "pol \<in> set pols" "fst f = hash pol @ PolSuffix"
      by (auto simp: files)
    from newFiles_inside [OF m hash pol(1)] b pol(2) codec read [OF b] show ?thesis
      using pol(1) by (auto simp: files)
  qed
  have "\<forall>f \<in> set (sort_key fst d'). isPolicyFile f \<longrightarrow> (\<exists>b pol. ReadFile io_ok d' (fst f) = Inr b \<and>
      pc_Unmarshal pc b = Inr pol \<and> strategy_Valid (pol_Strategy pol) \<and> pol_Duration pol \<noteq> 0)"
    using fwd valid by (simp only: set_sort) blast
  from Policies_loop_reads [OF this, of "[]"]
  have "FsProv_Policies pc io_ok d' = (map ?read (filter isPolicyFile (sort_key fst d')), None)"
    by (simp add: FsProv_Policies_def ReadDir_def) (simp add: io_ok_def)
  moreover have "pol \<in> ?read ` {f \<in> set d'. isPolicyFile f}" if pol: "pol \<in> set pols" for pol
  proof -
    from newFiles_inside [OF m hash pol] obtain c where c: "pc_Marshal pc pol = Inr c"
      "pol_files d' (hash pol @ PolSuffix) = Some c" by (auto simp: files)
    have "(hash pol @ PolSuffix, File c) \<in> set d' \<and> isPolicyFile (hash pol @ PolSuffix, File c)"
      using policy_file_node [OF wf, of "(hash pol @ PolSuffix, File c)"] c(2) by simp
    then show ?thesis using read [OF c(2)] codec [OF pol c(1)] by (intro image_eqI) auto
  qed
  ultimately show ?thesis using fwd by fastforce
qed

section \<open>What the cache guarantees\<close>

lemma CacheProv_hit: "cp_cached p \<Longrightarrow> CacheProv_pull source (p, s) = ((p, s), cp_policies p, None)"
  by (simp add: CacheProv_pull_def)

lemma CacheProv_fill:
  assumes "source s = (s', pols, None)" and "\<not> cp_cached p"
  shows "CacheProv_pull source (p, s) = ((\<lparr>cp_cached = True, cp_policies = pols\<rparr>, s'), pols, None)"
  using assms by (cases p) (simp add: CacheProv_pull_def)

end
