(* ===== verification/PolicyJson.thy ===== *)
theory PolicyJson
  imports PolicyProv GoTime
begin

text \<open>
  The textual forms of policies (\<^verbatim>\<open>src/policy/policy.go\<close>, \<^verbatim>\<open>src/policy/criteria.go\<close>): the
  JSON form, in which durations are strings, and the methods \<^verbatim>\<open>String\<close>. A JSON object is the
  record \<open>poldoc\<close> of the members it has; the text of an object, which \<^verbatim>\<open>encoding/json\<close> writes
  and reads, is the parameter \<open>jsontext\<close>. Strings with bytes outside ASCII are quoted by a parameter.
\<close>

section \<open>The JSON form\<close>

record refreshdoc =
  rd_Active :: "string option"
  rd_Queued :: "string option"

record poldoc =
  pd_Resource :: "string option"
  pd_Criteria :: "criteria option"
  pd_Strategy :: "strategy option"
  pd_Limit :: "uint option"
  pd_Duration :: "string option"
  pd_Decay :: "string option"
  pd_Refresh :: "refreshdoc option"
  pd_Properties :: "properties option"

record 'b jsontext =
  js_Marshal :: "poldoc \<Rightarrow> goerror + 'b"
  js_Unmarshal :: "'b \<Rightarrow> goerror + poldoc"

definition omitempty :: "'a \<Rightarrow> 'a \<Rightarrow> 'a option" where
  "omitempty zero x = (if x = zero then None else Some x)"

definition omitempty_map :: "properties \<Rightarrow> properties option" where
  "omitempty_map m = (if dom m = {} then None else Some m)"

definition Policy_MarshalJSON :: "'b jsontext \<Rightarrow> policy \<Rightarrow> goerror + 'b" where
  "Policy_MarshalJSON js p =
     js_Marshal js
       \<lparr>pd_Resource = omitempty '''' (pol_Resource p),
        pd_Criteria = omitempty [] (pol_Criteria p),
        pd_Strategy = omitempty '''' (pol_Strategy p),
        pd_Limit = omitempty 0 (pol_Limit p),
        pd_Duration = Some (Duration_String (pol_Duration p)),
        pd_Decay = Some (Duration_String (pol_Decay p)),
        pd_Refresh = Some
          \<lparr>rd_Active = omitempty '''' (Duration_String (rf_Active (pol_Refresh p))),
           rd_Queued = omitempty '''' (Duration_String (rf_Queued (pol_Refresh p)))\<rparr>,
        pd_Properties = omitempty_map (pol_Properties p)\<rparr>"

text \<open>
  Decoding into a policy: a member that is present replaces the field, the entries of a map are added
  to it, and the members shadowed by the outer structure do not reach the policy.
\<close>

definition default_to :: "'a \<Rightarrow> 'a option \<Rightarrow> 'a" where
  "default_to x m = (case m of None \<Rightarrow> x | Some y \<Rightarrow> y)"

definition decode_embedded :: "poldoc \<Rightarrow> policy \<Rightarrow> policy" where
  "decode_embedded doc p =
     p\<lparr>pol_Resource := default_to (pol_Resource p) (pd_Resource doc),
       pol_Criteria := default_to (pol_Criteria p) (pd_Criteria doc),
       pol_Strategy := default_to (pol_Strategy p) (pd_Strategy doc),
       pol_Limit := default_to (pol_Limit p) (pd_Limit doc),
       pol_Properties := pol_Properties p ++ default_to Map.empty (pd_Properties doc)\<rparr>"

definition decode_duration ::
  "(nat \<Rightarrow> nat \<Rightarrow> nat \<Rightarrow> nat) \<Rightarrow> string \<Rightarrow> duration \<Rightarrow> goerror + duration" where
  "decode_duration fl s d =
     (if s \<noteq> '''' then
        (case ParseDuration fl s of None \<Rightarrow> Inl (''time: invalid duration '' @ quoted s) | Some d \<Rightarrow> Inr d)
      else Inr d)"

definition Policy_UnmarshalJSON ::
  "(nat \<Rightarrow> nat \<Rightarrow> nat \<Rightarrow> nat) \<Rightarrow> 'b jsontext \<Rightarrow> 'b \<Rightarrow> policy \<Rightarrow> goerror + policy" where
  "Policy_UnmarshalJSON fl js data p =
     (case js_Unmarshal js data of
        Inl err \<Rightarrow> Inl err
      | Inr aux \<Rightarrow>
          let p = decode_embedded aux p;
              refresh = default_to \<lparr>rd_Active = None, rd_Queued = None\<rparr> (pd_Refresh aux)
          in case decode_duration fl (default_to '''' (pd_Duration aux)) (pol_Duration p) of
            Inl err \<Rightarrow> Inl err
          | Inr d \<Rightarrow>
              let p = p\<lparr>pol_Duration := d\<rparr>
              in case decode_duration fl (default_to '''' (pd_Decay aux)) (pol_Decay p) of
                Inl err \<Rightarrow> Inl err
              | Inr d \<Rightarrow>
                  let p = p\<lparr>pol_Decay := d\<rparr>
                  in case decode_duration fl (default_to '''' (rd_Active refresh)) (rf_Active (pol_Refresh p)) of
                    Inl err \<Rightarrow> Inl err
                  | Inr d \<Rightarrow>
                      let p = p\<lparr>pol_Refresh := (pol_Refresh p)\<lparr>rf_Active := d\<rparr>\<rparr>
                      in case decode_duration fl (default_to '''' (rd_Queued refresh)) (rf_Queued (pol_Refresh p)) of
                        Inl err \<Rightarrow> Inl err
                      | Inr d \<Rightarrow> Inr (p\<lparr>pol_Refresh := (pol_Refresh p)\<lparr>rf_Queued := d\<rparr>\<rparr>))"

text \<open>The zero value of a policy, and the codec that the filesystem provider reads and writes files with.\<close>

definition zero_policy :: policy where
  "zero_policy = Policy_New '''' '''' 0 0 []"

definition policy_codec :: "(nat \<Rightarrow> nat \<Rightarrow> nat \<Rightarrow> nat) \<Rightarrow> 'b jsontext \<Rightarrow> 'b polcodec" where
  "policy_codec fl js =
     \<lparr>pc_Marshal = Policy_MarshalJSON js, pc_Unmarshal = \<lambda>data. Policy_UnmarshalJSON fl js data zero_policy\<rparr>"

section \<open>Texts\<close>

definition hex_digit :: "nat \<Rightarrow> char" where
  "hex_digit n = (if n < 10 then char_of (48 + n) else char_of (87 + n))"

definition quote_char :: "char \<Rightarrow> string" where
  "quote_char c =
     (let n = (of_char c :: nat) in
      if n = 34 \<or> n = 92 then [CHR 0x5C, c]
      else if 32 \<le> n \<and> n < 127 then [c]
      else if n = 7 then CHR 0x5C # ''a'' else if n = 8 then CHR 0x5C # ''b''
      else if n = 12 then CHR 0x5C # ''f'' else if n = 10 then CHR 0x5C # ''n''
      else if n = 13 then CHR 0x5C # ''r'' else if n = 9 then CHR 0x5C # ''t''
      else if n = 11 then CHR 0x5C # ''v''
      else CHR 0x5C # ''x'' @ [hex_digit (n div 16), hex_digit (n mod 16)])"

definition strconv_Quote :: "(string \<Rightarrow> string) \<Rightarrow> string \<Rightarrow> string" where
  "strconv_Quote unicodeQuote s =
     (if is_ascii s then quoted (concat (map quote_char s)) else unicodeQuote s)"

definition Criterion_String :: "criterion \<Rightarrow> string" where
  "Criterion_String c =
     cr_Key c @
     (if cr_Comparison c = ComparisonExact then ''=''
      else if cr_Comparison c = ComparisonIgnoreCase then [CHR 0xE2, CHR 0x89, CHR 0x88]
      else if cr_Comparison c = ComparisonRegex then ''~''
      else ''.'' @ cr_Comparison c @ ''.'') @
     cr_Value c"

definition Criteria_String :: "criteria \<Rightarrow> string" where
  "Criteria_String c = strings_Join (map Criterion_String c) [CHR 0xE2, CHR 0x8B, CHR 0x85]"

text \<open>A map is printed in the order of its keys, whatever the order it is visited in.\<close>

definition quoted_map :: "(string \<Rightarrow> string) \<Rightarrow> (string \<times> string) list \<Rightarrow> string" where
  "quoted_map uq order =
     ''map['' @ strings_Join (map (\<lambda>(key, v). strconv_Quote uq key @ '':'' @ strconv_Quote uq v) (sort_key fst order)) '' '' @ '']''"

definition Policy_String :: "(string \<Rightarrow> string) \<Rightarrow> (string \<times> string) list \<Rightarrow> policy \<Rightarrow> string" where
  "Policy_String uq order p =
     (let parts = [];
          parts = (if pol_Resource p \<noteq> '''' then parts @ [''Resource: '' @ strconv_Quote uq (pol_Resource p)] else parts);
          parts = (if length (pol_Criteria p) > 0 then parts @ [''Criteria: '' @ strconv_Quote uq (Criteria_String (pol_Criteria p))] else parts);
          parts = (if pol_Strategy p \<noteq> '''' then parts @ [''Strategy: '' @ pol_Strategy p] else parts);
          parts = (if pol_Limit p \<noteq> 0 then parts @ [''Limit: '' @ itoa (pol_Limit p)] else parts);
          parts = (if pol_Duration p \<noteq> 0 then parts @ [''Duration: '' @ Duration_String (pol_Duration p)] else parts);
          parts = (if pol_Decay p \<noteq> 0 then parts @ [''Decay: '' @ Duration_String (pol_Decay p)] else parts);
          parts = (if rf_Active (pol_Refresh p) \<noteq> 0 then parts @ [''Active Refresh: '' @ Duration_String (rf_Active (pol_Refresh p))] else parts);
          parts = (if rf_Queued (pol_Refresh p) \<noteq> 0 then parts @ [''Queued Refresh: '' @ Duration_String (rf_Queued (pol_Refresh p))] else parts);
          parts = (if length order > 0 then parts @ [''Properties: '' @ quoted_map uq order] else parts)
      in strings_Join parts '' '')"

section \<open>What is written can be read\<close>

text \<open>The durations of a policy are 64-bit numbers.\<close>

definition int64 :: "int \<Rightarrow> bool" where
  "int64 d \<longleftrightarrow> - (2 ^ 63) \<le> d \<and> d < 2 ^ 63"

definition policy_typed :: "policy \<Rightarrow> bool" where
  "policy_typed p \<longleftrightarrow> int64 (pol_Duration p) \<and> int64 (pol_Decay p) \<and>
     int64 (rf_Active (pol_Refresh p)) \<and> int64 (rf_Queued (pol_Refresh p))"

lemma decode_duration_String [simp]: "int64 d \<Longrightarrow> decode_duration fl (Duration_String d) d0 = Inr d"
  by (simp add: decode_duration_def Duration_roundtrip int64_def)

lemma default_to_simps [simp]:
  "default_to z (omitempty z x) = x" "default_to x (Some y) = y" "default_to x None = x"
  by (simp_all add: default_to_def omitempty_def)

lemma default_to_map [simp]: "default_to Map.empty (omitempty_map m) = m"
  by (simp add: default_to_def omitempty_map_def)

lemma Policy_json_roundtrip:
  assumes "Policy_MarshalJSON js p = Inr data"
    and "\<And>doc b. js_Marshal js doc = Inr b \<Longrightarrow> js_Unmarshal js b = Inr doc" and "policy_typed p"
  shows "Policy_UnmarshalJSON fl js data zero_policy = Inr p"
proof -
  note doc = assms(2) [OF assms(1) [unfolded Policy_MarshalJSON_def]]
  have empty: "omitempty [] (Duration_String d) = Some (Duration_String d)" for d by (simp add: omitempty_def)
  show ?thesis using assms(3)
    by (cases p, cases "pol_Refresh p")
      (simp add: Policy_UnmarshalJSON_def doc Let_def empty decode_embedded_def zero_policy_def Policy_New_def zero_refresh_def policy_typed_def)
qed

text \<open>The text of a policy does not depend on the order in which Go visits its properties.\<close>

lemma Policy_String_order:
  assumes "map_order m o1" and "map_order m o2"
  shows "Policy_String uq o1 p = Policy_String uq o2 p"
proof -
  have d: "distinct (map fst o1)" "distinct (map fst o2)" and eq: "map_of o1 = map_of o2"
    using assms by (simp_all add: map_order_def)
  have "set o1 = set o2"
    using d eq by (metis (mono_tags, lifting) map_of_eq_Some_iff old.prod.exhaust subsetI subset_antisym)
  then have mset: "mset o1 = mset o2" using d by (simp add: set_eq_iff_mset_eq_distinct distinct_map)
  have "sort_key fst o1 = sort_key fst o2"
    by (rule sort_key_inj_key_eq) (use mset d in \<open>simp_all add: distinct_map\<close>)
  moreover have "length o1 = length o2" using mset by (rule mset_eq_length)
  ultimately show ?thesis by (simp only: Policy_String_def quoted_map_def)
qed

end
