(* ===== verification/Samples.thy ===== *)
theory Samples
  imports EndToEnd BoltProv LogProv PolicyJson "HOL-Library.Code_Target_Nat"
begin

text \<open>
  A small concrete deployment on which the properties are exercised: one policy that matches
  every request for the program \<^verbatim>\<open>cad.exe\<close>, with two slots counted by instance, served from the
  in-memory provider. The theory also closes the chain of interpretations: the in-memory and
  the bolt provider are stores for the server, and a server with a loopback network is a
  deployment.
\<close>

section \<open>The deployment\<close>

definition sample_lib :: golib where
  "sample_lib = \<lparr>gl_unicodeToLower = id, gl_regexp = (\<lambda>_. None)\<rparr>"

definition sample_policy :: policy where
  "sample_policy = Policy_New ''cad'' strategy_Instance 2 (5 * Minute)
     [\<lparr>cr_Key = ''program'', cr_Comparison = ComparisonExact, cr_Value = ''cad.exe''\<rparr>]"

definition sample_server :: "memprov server" where
  "sample_server = \<lparr>sc_LeaseProvider = MemProv insertionSort, sc_Policies = Inr [sample_policy],
     sc_lib = sample_lib, sc_sort = insertionSort, sc_marshal = (\<lambda>_. True)\<rparr>"

definition sample_terms :: "(string \<Rightarrow> bool) \<Rightarrow> terms" where
  "sample_terms H = \<lparr>tm_Strategy = (\<lambda>_. strategy_Instance), tm_Limit = (\<lambda>_. 2), tm_Host = H\<rparr>"

definition sample_form :: "string \<Rightarrow> string \<Rightarrow> form" where
  "sample_form user inst = [(''program'', [''cad.exe'']), (''host'', [''pc'']), (''user'', [user]), (''instance'', [inst])]"

definition sample_time :: "nat \<Rightarrow> time" where
  "sample_time n = 1000 * Second"

definition quiet :: "'a \<Rightarrow> 'p \<Rightarrow> 'p" where
  "quiet n p = p"

definition sample_acquire :: "string \<Rightarrow> string \<Rightarrow> memprov \<Rightarrow> (memprov \<times> snapshot list \<times> response) go" where
  "sample_acquire user inst p =
     acquireHandler sample_server quiet sample_time quiet sample_time (Inr (sample_form user inst)) p"

definition sample_store :: memprov where
  "sample_store = (case sample_acquire ''ann'' ''1'' MemProv_New of Inr (p, _) \<Rightarrow> p | Inl _ \<Rightarrow> MemProv_New)"

declare go_bind_def [code_unfold]

lemma sample_server_simps [simp]:
  "sc_LeaseProvider sample_server = MemProv insertionSort" "sc_sort sample_server = insertionSort"
  "sc_Policies sample_server = Inr [sample_policy]"
  by (simp_all add: sample_server_def)

lemma sample_pols:
  "PolicySet_Strategy [sample_policy] = strategy_Instance" "PolicySet_Limit [sample_policy] = 2"
  "PolicySet_Resource [sample_policy] = ''cad''" "strategy_Valid (pol_Strategy sample_policy)"
  by (simp_all add: sample_policy_def Policy_New_def PolicySet_Limit_def strategy_Valid_def)

lemma sample_initRequest:
  assumes "sc_Policies s = Inr [sample_policy]" and "initRequest s r = Inr (req, pols)"
  shows "pols = [] \<or> pols = [sample_policy]"
  using assms by (auto simp: initRequest_def PolicySet_Match_def split: sum.splits if_splits)

lemma sample_request_ok:
  assumes s: "sc_Policies s = Inr [sample_policy]"
    and host: "\<And>req. parseRequest r = Inr req \<Longrightarrow> H (inst_Host (sub_Instance (rq_Subject req)))"
  shows "request_ok (sample_terms H) s r"
proof (cases "initRequest s r")
  case (Inr rp)
  obtain req pols where rp: "rp = (req, pols)" by fastforce
  from host [OF initRequest_parsed [OF Inr [unfolded rp]]] sample_initRequest [OF s Inr [unfolded rp]] Inr rp
  show ?thesis
    by (auto simp: request_ok_def pols_terms_def sample_pols sample_terms_def
        simp del: PolicySet_Strategy.simps(2) PolicySet_Resource.simps(2))
qed (simp add: request_ok_def)

lemma sample_form_ok:
  "sc_Policies s = Inr [sample_policy] \<Longrightarrow> request_ok (sample_terms no_space) s (Inr (sample_form user inst))"
  by (rule sample_request_ok)
    (auto simp: parseRequest_def sample_form_def set_field_def empty_request_def zero_subject_def zero_instance_def no_space_def)

lemma quiet_calm: "env_ok T invar content revision (quiet n)"
  by (simp add: env_ok_def quiet_def)

section \<open>Stores for the server\<close>

lemma mem_guardian: "lease_sorter srt \<Longrightarrow> guardian (MemProv srt) (\<lambda>_. True) mem_content mem_revision srt"
  using MemProv_reliable_store [of srt] by (simp add: guardian_def guardian_axioms_def reliable_store_def)

lemma bolt_guardian:
  "boltdb lib cd \<Longrightarrow> lease_sorter srt \<Longrightarrow>
   guardian (BoltProv lib cd) (bolt_invar lib) (bolt_content lib cd) (bolt_revision lib) srt"
  by (simp add: guardian_def guardian_axioms_def boltdb.BoltProv_store)

lemma log_guardian:
  "guardian src invar content revision srt \<Longrightarrow>
   guardian (LogProv src sched) (\<lambda>p. invar (lp_source p)) (\<lambda>p. content (lp_source p)) (\<lambda>p. revision (lp_source p)) srt"
  by (simp add: guardian_def guardian_axioms_def LogProv_store)

lemma mem_New_ok: "store_ok T (\<lambda>_. True) mem_content MemProv_New"
  by (simp add: store_ok_def mem_content_def MemProv_New_def page_ok_Nil)

interpretation sampleNet: deployment "MemProv insertionSort" "\<lambda>_. True" mem_content mem_revision insertionSort
    "sample_terms (\<lambda>_. True)" sample_server "loopback sample_server sample_time" "\<lambda>w. (w, Inr [''guardian''])"
  by (rule guardian.loopback_deployment [OF mem_guardian [OF goSort.lease_sorter_axioms]])
    (simp_all add: sample_request_ok)

lemma sample_acquire_run: "\<exists>ev resp. sample_acquire ''ann'' ''1'' MemProv_New = Inr (sample_store, ev, resp)"
proof -
  have "\<exists>p ev resp. sample_acquire ''ann'' ''1'' MemProv_New = Inr (p, ev, resp)"
    unfolding sample_acquire_def
    by (rule guardian.acquireHandler_total [OF mem_guardian [OF goSort.lease_sorter_axioms] mem_New_ok _ _ sample_form_ok [OF sample_server_simps(3)]])
      (simp_all add: quiet_calm sample_pols, simp add: sample_terms_def)
  then show ?thesis by (auto simp: sample_store_def)
qed

lemma sample_store_leases: "map ls_Status (mem_content sample_store ''cad'') = [Active]"
  by code_simp

lemma sample_calm: "\<forall>n. env_ok T invar content revision (quiet n)"
  by (simp add: quiet_calm)

lemma sample_reach:
  "(serves sample_server (env_ok (sample_terms no_space) (\<lambda>_. True) mem_content mem_revision)
     (request_ok (sample_terms no_space) sample_server))\<^sup>*\<^sup>* MemProv_New sample_store"
proof -
  obtain ev resp where "sample_acquire ''ann'' ''1'' MemProv_New = Inr (sample_store, ev, resp)"
    using sample_acquire_run by blast
  then show ?thesis unfolding sample_acquire_def
    by (intro r_into_rtranclp serves.acquires [where r = "Inr (sample_form ''ann'' ''1'')" and renv = quiet and env = quiet])
      (simp_all add: sample_form_ok sample_calm)
qed

lemma sample_store_ok: "store_ok (sample_terms no_space) (\<lambda>_. True) mem_content sample_store"
  by (rule guardian.reachable_ok [OF mem_guardian [OF goSort.lease_sorter_axioms] sample_reach mem_New_ok sample_server_simps(1,2)])

lemma sample_granted_eval:
  "(case sample_acquire ''ann'' ''1'' MemProv_New of Inr (_, _, resp) \<Rightarrow>
      (case rs_Body resp of AcquireBody b \<Rightarrow> ls_Status (ar_Lease b) = Active | _ \<Rightarrow> False) | Inl _ \<Rightarrow> False)"
  by code_simp

lemma sample_granted:
  "\<exists>ev resp b. sample_acquire ''ann'' ''1'' MemProv_New = Inr (sample_store, ev, resp) \<and>
     rs_Body resp = AcquireBody b \<and> ls_Status (ar_Lease b) = Active"
proof -
  obtain ev resp where run: "sample_acquire ''ann'' ''1'' MemProv_New = Inr (sample_store, ev, resp)"
    using sample_acquire_run by blast
  with sample_granted_eval show ?thesis by (cases "rs_Body resp") auto
qed

section \<open>A release\<close>

definition sample_release_form :: form where
  "sample_release_form = (''resource'', [''cad'']) # sample_form ''ann'' ''1''"

definition sample_released :: memprov where
  "sample_released = (case releaseHandler sample_server quiet sample_time (Inr sample_release_form) sample_store of
     Inr (p, _) \<Rightarrow> p | Inl _ \<Rightarrow> [])"

lemma sample_release_eval:
  "(case releaseHandler sample_server quiet sample_time (Inr sample_release_form) sample_store of
      Inr (p, _, resp) \<Rightarrow> (case rs_Body resp of
          ReleaseBody b \<Rightarrow> sub_Resource (rq_Subject (rr_Request b)) = ''cad'' \<and>
            list_ex (\<lambda>l. ls_Subject l = rq_Subject (rr_Request b)) (mem_content p ''cad'')
        | _ \<Rightarrow> False)
    | Inl _ \<Rightarrow> False)"
  by code_simp

lemma sample_release_run:
  obtains ev resp b l where
    "releaseHandler sample_server quiet sample_time (Inr sample_release_form) sample_store = Inr (sample_released, ev, resp)"
    "rs_Body resp = ReleaseBody b" "l \<in> set (mem_content sample_released (sub_Resource (rq_Subject (rr_Request b))))"
    "ls_Subject l = rq_Subject (rr_Request b)" "sub_Resource (rq_Subject (rr_Request b)) = ''cad''"
proof (cases "releaseHandler sample_server quiet sample_time (Inr sample_release_form) sample_store")
  case (Inl pn)
  with sample_release_eval show ?thesis by simp
next
  case (Inr x)
  with that sample_release_eval show ?thesis
    by (cases x) (auto simp: sample_released_def list_ex_iff split: body.splits)
qed

section \<open>A waiting lease\<close>

definition sample_subject :: subject_t where
  "sample_subject = \<lparr>sub_Resource = ''cad'', sub_Instance = \<lparr>inst_Host = ''pc'', inst_User = ''ann'', inst_ID = ''1''\<rparr>\<rparr>"

definition sample_waiting :: lease where
  "sample_waiting = \<lparr>ls_Subject = \<lparr>sub_Resource = ''cad'', sub_Instance = \<lparr>inst_Host = ''lab'', inst_User = ''bob'', inst_ID = ''9''\<rparr>\<rparr>,
     ls_Properties = Map.empty, ls_Status = Queued, ls_Started = 900, ls_Renewed = 900, ls_Released = 0,
     ls_Strategy = strategy_Instance, ls_Limit = 0, ls_Duration = 5 * Minute, ls_Decay = 0, ls_Refresh = zero_refresh\<rparr>"

lemma sample_waiting_ok:
  "page_ok (sample_terms no_space) (sub_Resource sample_subject) [sample_waiting]"
  "pols_terms (sample_terms no_space) sample_subject [sample_policy]"
  "\<forall>l \<in> set [sample_waiting]. ls_HostUser l \<noteq> Subject_HostUser sample_subject"
  by (simp_all add: page_ok_def page_inv_def lease_ok_def clean_def consumption_def in_order_def sample_terms_def
      sample_waiting_def sample_subject_def no_space_def pols_terms_def sample_pols Subject_HostUser_def
      del: PolicySet_Strategy.simps(2))

lemma sample_body_eval:
  "(case acquire_body insertionSort sample_subject Map.empty [sample_policy] 1000 0 [sample_waiting] of
      Inr (l, tx) \<Rightarrow> ls_Status l = Active \<and> length (tx_leases tx) = 2 | Inl _ \<Rightarrow> False)"
  by code_simp

lemma sample_body_run:
  obtains ls tx where
    "acquire_body insertionSort sample_subject Map.empty [sample_policy] 1000 0 [sample_waiting] = Inr (ls, tx)"
    "ls_Status ls = Active"
  using sample_body_eval
  by (cases "acquire_body insertionSort sample_subject Map.empty [sample_policy] 1000 0 [sample_waiting]") auto

lemma sample_refresh_eval:
  "(case Refresh insertionSort (NewTx (sub_Resource (ls_Subject sample_waiting)) 0 [sample_waiting]) 1000 of
      Inr (_, tx1) \<Rightarrow> (case Tx_Instance tx1 (sub_Instance (ls_Subject sample_waiting)) of
          Some e \<Rightarrow> ls_Status e = Queued \<and> ls_Started e = 900 | None \<Rightarrow> False)
    | Inl _ \<Rightarrow> False)"
  by code_simp

lemma sample_renew_run:
  obtains acc tx1 e ls tx where
    "Refresh insertionSort (NewTx (sub_Resource (ls_Subject sample_waiting)) 0 [sample_waiting]) 1000 = Inr (acc, tx1)"
    "Tx_Instance tx1 (sub_Instance (ls_Subject sample_waiting)) = Some e"
    "ls_Status e = Queued" "ls_Started e = 900"
    "acquire_body insertionSort (ls_Subject sample_waiting) Map.empty [sample_policy] 1000 0 [sample_waiting] = Inr (ls, tx)"
proof -
  obtain acc tx1 e where
    run: "Refresh insertionSort (NewTx (sub_Resource (ls_Subject sample_waiting)) 0 [sample_waiting]) 1000 = Inr (acc, tx1)"
    and e: "Tx_Instance tx1 (sub_Instance (ls_Subject sample_waiting)) = Some e" "ls_Status e = Queued" "ls_Started e = 900"
    using sample_refresh_eval by (auto split: sum.splits option.splits prod.splits)
  from acquire_body_cases(1) [where props = Map.empty and pols = "[sample_policy]", OF run e(1)] that [OF run e] e(2)
  show ?thesis by (auto simp: Tx_Update_eq)
qed

section \<open>A refresh that promotes\<close>

text \<open>An active lease whose time is up, and another user's lease in line for the only slot.\<close>

definition sample_page :: leases where
  "sample_page = [sample_waiting\<lparr>ls_Status := Active, ls_Limit := 1, ls_Started := 100, ls_Renewed := 100, ls_Duration := 500\<rparr>,
     sample_waiting\<lparr>ls_Subject := sample_subject, ls_Limit := 1\<rparr>]"

lemma sample_promote_eval:
  "(case Refresh insertionSort (NewTx ''cad'' 0 sample_page) 1000 of
      Inr (_, tx) \<Rightarrow> map (\<lambda>l. (inst_User (ls_Instance l), ls_Status l)) (tx_leases tx) = [(''ann'', Active)] | Inl _ \<Rightarrow> False)"
  by code_simp

lemma sample_promote_run:
  obtains acc tx where "Refresh insertionSort (NewTx ''cad'' 0 sample_page) 1000 = Inr (acc, tx)"
    "map ls_Status (tx_leases tx) = [Active]"
  using sample_promote_eval
  by (cases "Refresh insertionSort (NewTx ''cad'' 0 sample_page) 1000") (auto simp: map_eq_Cons_conv)

lemma sample_page_simps:
  "in_order sample_page" "\<forall>l \<in> set sample_page. clean l"
  "\<forall>l \<in> set sample_page. ls_Status l = Queued \<longrightarrow> ls_Strategy l = strategy_Instance \<and> ls_Limit l \<le> 1"
  "consumption strategy_Instance sample_page = 1"
  by (simp_all add: sample_page_def sample_waiting_def in_order_def Lease_Less_key less_key_def clean_def consumption_def
      Status_Order_def Lease_Consumptive_def Active_def Queued_def Released_def less_le)

section \<open>A transaction\<close>

definition sample_grant :: lease where
  "sample_grant = sample_waiting\<lparr>ls_Subject := sample_subject, ls_Status := Active\<rparr>"

definition sample_tx :: tx where
  "sample_tx = Tx_Create insertionSort sample_grant (NewTx ''cad'' 0 [])"

lemma sample_tx_simps [simp]:
  "tx_ops sample_tx = [create_op sample_grant]" "tx_leases sample_tx = [sample_grant]"
  "tx_resource sample_tx = ''cad''" "tx_revision sample_tx = 0"
  by (simp_all add: sample_tx_def Tx_Create_def NewTx_def create_op_def insertionSort_def)

lemma sample_tx_replays: "replays [] [create_op sample_grant] [sample_grant]" "in_order [sample_grant]"
  using replays.create [of "[]" "[]" "[]" sample_grant] replays.start [of "[]"] by (simp_all add: in_order_def)

lemma mem_New_simps [simp]: "mem_content MemProv_New res = []" "mem_revision MemProv_New res = 0"
  by (simp_all add: mem_content_def mem_revision_def MemProv_New_def)

lemma sample_log_commit:
  "mem_content (lp_source (fst (LogProv_LeaseCommit (MemProv insertionSort) [] (LogProv_New MemProv_New) sample_tx))) ''cad'' = [sample_grant]"
  by (simp add: LogProv_LeaseCommit_def LogProv_New_def MemProv_def MemProv_LeaseCommit_def MemProv_leasePage_def
      MemProv_New_def new_leasePage_def MemProv_apply_def create_op_def insertionSort_def Let_def)

lemma sample_bolt_commit: "\<exists>d. BoltProv_LeaseCommit memory_bolt plain_codec [] sample_tx = (d, None)"
  by (auto simp: BoltProv_LeaseCommit_def db_Update_def BoltProv_update_def memory_bolt_def mdb_bucket_def plain_codec_def gm_put_def Let_def)

section \<open>A maintainer on the loopback network\<close>

definition sample_lm :: maintainer where
  "sample_lm = NewLeaseMaintainer (NewClient\<lparr>cl_endpoints := [''guardian''], cl_endpoint := ''guardian''\<rparr>)
     (sub_Instance sample_subject) [(''program'', ''cad.exe'')] Second"

definition sample_run :: "memprov \<times> maintainer \<times> duration" where
  "sample_run = tick (loopback sample_server sample_time) (\<lambda>w. (w, Inr [''guardian''])) sample_lm MemProv_New"

definition sample_world' :: memprov where "sample_world' = fst sample_run"

definition sample_lm' :: maintainer where "sample_lm' = fst (snd sample_run)"

lemma sample_tick:
  "tick (loopback sample_server sample_time) (\<lambda>w. (w, Inr [''guardian''])) sample_lm MemProv_New =
     (sample_world', sample_lm', snd (snd sample_run))"
  by (simp add: sample_world'_def sample_lm'_def sample_run_def)

lemma sample_lm_own: "lease_own sample_lm"
  by (simp add: lease_own_def sample_lm_def NewLeaseMaintainer_def zero_lstate_def reserved_def)

lemma sample_lm_request:
  "acquireHandler sample_server (\<lambda>_ p. p) sample_time (\<lambda>_ p. p) sample_time
     (Inr (urlValues (zero_subject\<lparr>sub_Instance := sub_Instance sample_subject\<rparr>) [(''program'', ''cad.exe'')])) p =
   sample_acquire ''ann'' ''1'' p"
proof -
  have idle: "quiet = (\<lambda>_ p. p)" by (simp add: fun_eq_iff quiet_def)
  have "parseRequest (Inr (urlValues (zero_subject\<lparr>sub_Instance := sub_Instance sample_subject\<rparr>) [(''program'', ''cad.exe'')])) =
      parseRequest (Inr (sample_form ''ann'' ''1''))"
    by (simp add: parseRequest_def urlValues_def sample_subject_def sample_form_def zero_subject_def set_field_def
        gm_put_def Let_def)
  then have init: "initRequest sample_server
      (Inr (urlValues (zero_subject\<lparr>sub_Instance := sub_Instance sample_subject\<rparr>) [(''program'', ''cad.exe'')])) =
      initRequest sample_server (Inr (sample_form ''ann'' ''1''))"
    by (simp only: initRequest_def)
  show ?thesis unfolding sample_acquire_def acquireHandler_def init idle ..
qed

text \<open>The addresses the client calls, as the router sees them.\<close>

lemma sample_urls:
  "strings_HasSuffix (Endpoint_prefix ''guardian'' @ ''health'') ''/health''"
  "strings_HasSuffix (Endpoint_prefix ''guardian'' @ ''acquire'') ''/acquire''"
  "\<not> strings_HasSuffix (Endpoint_prefix ''guardian'' @ ''acquire'') ''/health''"
  "\<not> strings_HasSuffix (Endpoint_prefix ''guardian'' @ ''acquire'') ''/policies''"
  "\<not> strings_HasSuffix (Endpoint_prefix ''guardian'' @ ''acquire'') ''/leases''"
  by code_simp+

lemma sample_tick_online: "lt_Online (lm_state sample_lm') \<and> lt_Acquired (lm_state sample_lm')"
proof -
  obtain ev resp b where run: "sample_acquire ''ann'' ''1'' MemProv_New = Inr (sample_store, ev, resp)"
    and body: "rs_Body resp = AcquireBody b" using sample_granted by blast
  have ok: "rs_Code resp = StatusOK"
    using guardian.acquireHandler_ok [OF mem_guardian [OF goSort.lease_sorter_axioms] mem_New_ok sample_calm sample_calm
        sample_form_ok [OF sample_server_simps(3)] sample_server_simps(1,2) run [unfolded sample_acquire_def]] body by blast
  have "route sample_server sample_time MemProv_New (Endpoint_prefix ''guardian'' @ ''acquire'')
      (POST (urlValues (zero_subject\<lparr>sub_Instance := sub_Instance sample_subject\<rparr>) [(''program'', ''cad.exe'')])) = Inr (sample_store, resp)"
    using run by (simp add: route_def sample_lm_request sample_urls go_bind_def)
  with ok body show ?thesis
    by (simp add: sample_lm'_def sample_run_def tick_def Maintainer_acquire_def Client_Acquire_def with_failover_def
        sample_lm_def NewLeaseMaintainer_def zero_lstate_def NewClient_def acquire_subject_def
        Endpoint_Acquire_def Endpoint_post_def loopback_def decode_acquire_def StatusOK_def StatusNoContent_def
        acquired_state_def Let_def)
qed

lemma sample_health:
  "Endpoint_Health (loopback sample_server sample_time) ''guardian'' w = (w, Inr True)"
  by (simp add: Endpoint_Health_def Endpoint_get_def loopback_def route_def sample_urls healthHandler_def
      sample_server_def decode_health_def StatusOK_def)

section \<open>The deployment on bolt\<close>

definition sample_bolt_server :: "leases memdb server" where
  "sample_bolt_server = \<lparr>sc_LeaseProvider = BoltProv memory_bolt plain_codec, sc_Policies = Inr [sample_policy],
     sc_lib = sample_lib, sc_sort = insertionSort, sc_marshal = (\<lambda>_. True)\<rparr>"

definition sample_bolt_acquire :: "string \<Rightarrow> string \<Rightarrow> (leases memdb \<times> snapshot list \<times> response) go" where
  "sample_bolt_acquire user inst =
     acquireHandler sample_bolt_server quiet sample_time quiet sample_time (Inr (sample_form user inst)) []"

definition sample_bolt_rest :: "snapshot list \<times> response" where
  "sample_bolt_rest = snd (projr (sample_bolt_acquire ''ann'' ''1''))"

lemma sample_bolt_ok: "store_ok T (bolt_invar memory_bolt) (bolt_content memory_bolt plain_codec) ([] :: leases memdb)"
  by (simp add: store_ok_def bolt_invar_def bolt_content_def bolt_data_def memory_bolt_def page_ok_Nil)

lemma sample_bolt_run:
  obtains d where "sample_bolt_acquire ''ann'' ''1'' = Inr (d, sample_bolt_rest)"
    "serves sample_bolt_server (env_ok (sample_terms no_space) (bolt_invar memory_bolt)
      (bolt_content memory_bolt plain_codec) (bolt_revision memory_bolt))
      (request_ok (sample_terms no_space) sample_bolt_server) [] d"
proof -
  have s: "sc_LeaseProvider sample_bolt_server = BoltProv memory_bolt plain_codec" "sc_sort sample_bolt_server = insertionSort"
    "sc_Policies sample_bolt_server = Inr [sample_policy]" by (simp_all add: sample_bolt_server_def)
  have admit: "request_ok (sample_terms no_space) sample_bolt_server (Inr (sample_form ''ann'' ''1''))"
    by (rule sample_form_ok [OF s(3)])
  have "\<exists>d ev resp. sample_bolt_acquire ''ann'' ''1'' = Inr (d, ev, resp)"
    unfolding sample_bolt_acquire_def
    by (rule guardian.acquireHandler_total [OF bolt_guardian [OF boltMem.boltdb_axioms goSort.lease_sorter_axioms]
          sample_bolt_ok _ _ admit s(1,2)])
      (simp_all add: quiet_calm sample_pols s, simp add: sample_terms_def)
  then obtain d ev resp where run: "sample_bolt_acquire ''ann'' ''1'' = Inr (d, ev, resp)" by blast
  from that [of d] run show ?thesis
    by (simp add: sample_bolt_rest_def)
      (metis admit sample_bolt_acquire_def sample_calm serves.acquires)
qed

end
