(* ===== verification/LeaseUi.thy ===== *)
theory LeaseUi
  imports Maintainer
begin

text \<open>
  The manager of the lease dialogs, \<^verbatim>\<open>src/lease/leaseui/manager.go\<close>, with the platform files
  \<^verbatim>\<open>manager_windows.go\<close> and \<^verbatim>\<open>manager_linux.go\<close>. The runner asks it for a type of dialog; the
  loop of \<^verbatim>\<open>Run\<close> on the main thread shows one dialog after the other. A directive travels over an
  unbuffered channel: \<open>um_sent\<close> is the directive a caller of \<^verbatim>\<open>Change\<close> is blocked on, with the
  manager's mutex held; \<open>um_next\<close> is the one the goroutine of the current turn has received, after
  which nobody listens until the next turn; \<open>um_begun\<close> tells that \<^verbatim>\<open>run\<close> has got past its first
  \<^verbatim>\<open>select\<close> and set up the dialog; \<open>um_result\<close> is how the dialog ended, while its
  callback is still due; \<open>um_exited\<close> that \<^verbatim>\<open>Run\<close> has returned. The drawing of the dialogs is left to the library \<^verbatim>\<open>walk\<close>: here a dialog
  is something that ends with a result.
\<close>

section \<open>Types and results\<close>

datatype uitype = UI_None | UI_Startup | UI_Queued | UI_Connected | UI_Disconnected

definition Type_String :: "uitype \<Rightarrow> string" where
  "Type_String t = (case t of UI_None \<Rightarrow> ''none'' | UI_Startup \<Rightarrow> ''startup'' | UI_Queued \<Rightarrow> ''queued''
     | UI_Connected \<Rightarrow> ''connected'' | UI_Disconnected \<Rightarrow> ''disconnected'')"

datatype uiresult = Failure | Success | UserClosed | UserCancelled | ContextCancelled

record 'c directive =
  dr_Type :: uitype
  dr_Callback :: "'c option"

definition zero_directive :: "'c directive" where
  "zero_directive = \<lparr>dr_Type = UI_None, dr_Callback = None\<rparr>"

text \<open>The view models: what the dialogs show.\<close>

datatype viewmodel = ConnectionModel lstate | QueuedModel lstate

definition Model_Update :: "viewmodel \<Rightarrow> lstate \<Rightarrow> viewmodel" where
  "Model_Update m s = (case m of ConnectionModel _ \<Rightarrow> ConnectionModel s | QueuedModel _ \<Rightarrow> QueuedModel s)"

definition QueuedModel_Consumed :: "lstate \<Rightarrow> uint go" where
  "QueuedModel_Consumed s =
     (let strat = ls_Strategy (lt_Lease s);
          strat = (if \<not> strategy_Valid strat \<or> strat = strategy_Empty then DefaultStrategy else strat)
      in Stats_Consumed (Set_Stats (lt_Leases s)) strat)"

definition Model_ResourceName :: "string \<Rightarrow> lstate \<Rightarrow> string" where
  "Model_ResourceName program s =
     (let name = Lease_ResourceName (lt_Lease s) in if name \<noteq> '''' then name else program)"

section \<open>The manager\<close>

record 'c uimanager =
  um_running :: bool
  um_primed :: bool
  um_current :: uitype
  um_open :: bool
  um_state :: lstate
  um_model :: "viewmodel option"
  um_sent :: "'c directive option"
  um_shown :: "'c directive"
  um_next :: "'c directive option"
  um_begun :: bool
  um_result :: "uiresult option"
  um_eof :: bool
  um_exited :: bool

definition Manager_New :: "'c uimanager" where
  "Manager_New = \<lparr>um_running = False, um_primed = False, um_current = UI_None, um_open = True,
     um_state = zero_lstate, um_model = None, um_sent = None, um_shown = zero_directive,
     um_next = None, um_begun = False, um_result = None, um_eof = False, um_exited = False\<rparr>"

definition Manager_start :: "'c uimanager \<Rightarrow> 'c uimanager go" where
  "Manager_start m =
     (if um_running m then Inl (Panic ''The lease user interface manager is already running'')
      else Inr (m\<lparr>um_running := True\<rparr>))"

definition Manager_stop :: "'c uimanager \<Rightarrow> 'c uimanager go" where
  "Manager_stop m =
     (if \<not> um_open m then Inl (Panic ''The lease user interface manager has already been stopped'')
      else Inr (m\<lparr>um_open := False, um_primed := True\<rparr>))"

definition Manager_Change :: "uitype \<Rightarrow> 'c option \<Rightarrow> 'c uimanager \<Rightarrow> 'c uimanager" where
  "Manager_Change t callback m =
     (if \<not> um_open m then m
      else if um_current m \<noteq> t
      then m\<lparr>um_current := t, um_sent := Some \<lparr>dr_Type = t, dr_Callback = callback\<rparr>\<rparr>
      else m)"

definition Manager_CompareAndChange :: "uitype \<Rightarrow> uitype \<Rightarrow> 'c option \<Rightarrow> 'c uimanager \<Rightarrow> 'c uimanager" where
  "Manager_CompareAndChange from to callback m =
     (if from = to then m
      else if \<not> um_open m then m
      else if um_current m = from
      then m\<lparr>um_current := to, um_sent := Some \<lparr>dr_Type = to, dr_Callback = callback\<rparr>\<rparr>
      else m)"

definition Manager_Update :: "lstate \<Rightarrow> 'c uimanager \<Rightarrow> 'c uimanager" where
  "Manager_Update state m =
     (let m = m\<lparr>um_state := state\<rparr>;
          m = (if \<not> um_primed m then m\<lparr>um_primed := True\<rparr> else m)
      in case um_model m of Some model \<Rightarrow> m\<lparr>um_model := Some (Model_Update model (um_state m))\<rparr> | None \<Rightarrow> m)"

text \<open>
  The dispatch of \<^verbatim>\<open>run\<close> (Windows): the model a dialog of this type works on. \<open>call\<close> turns the exit
  code of a dialog into a result; a dialog that shows nothing ends with success.
\<close>

definition Manager_run :: "'c directive \<Rightarrow> 'c uimanager \<Rightarrow> 'c uimanager" where
  "Manager_run d m =
     (case dr_Type d of
        UI_None \<Rightarrow> m\<lparr>um_model := None\<rparr>
      | UI_Startup \<Rightarrow> m\<lparr>um_model := Some (ConnectionModel (um_state m))\<rparr>
      | UI_Queued \<Rightarrow> m\<lparr>um_model := Some (QueuedModel (um_state m))\<rparr>
      | UI_Connected \<Rightarrow> m\<lparr>um_model := Some (ConnectionModel (um_state m))\<rparr>
      | UI_Disconnected \<Rightarrow> m\<lparr>um_model := Some (ConnectionModel (um_state m))\<rparr>)"

datatype dlgcmd = DlgCmdNone | DlgCmdOK | DlgCmdCancel | DlgCmdAbort

definition call_result :: "dlgcmd \<Rightarrow> uiresult" where
  "call_result r = (case r of DlgCmdAbort \<Rightarrow> UserCancelled | DlgCmdNone \<Rightarrow> UserClosed
     | DlgCmdCancel \<Rightarrow> ContextCancelled | DlgCmdOK \<Rightarrow> Success)"

text \<open>On other systems a dialog waits for the next directive and calls its callback, which may be nil.\<close>

definition linux_dialog :: "'c directive \<Rightarrow> ('c \<times> uitype \<times> uiresult) go" where
  "linux_dialog d =
     (case dr_Callback d of
        None \<Rightarrow> Inl (Panic ''invalid memory address or nil pointer dereference'')
      | Some callback \<Rightarrow> Inr (callback, dr_Type d, Success))"

section \<open>The turns of Run\<close>

text \<open>How a dialog ends when its context is cancelled, unless it has already ended or not begun.\<close>

definition ended :: "'c uimanager \<Rightarrow> uiresult option" where
  "ended m = (case um_result m of Some r \<Rightarrow> Some r
     | None \<Rightarrow> if um_begun m then Some (if dr_Type (um_shown m) = UI_None then Success else ContextCancelled) else None)"

definition Run_receive :: "'c uimanager \<Rightarrow> 'c uimanager option" where
  "Run_receive m =
     (case (um_sent m, um_next m) of
        (Some d, None) \<Rightarrow>
          if um_eof m \<or> um_exited m then None
          else Some (m\<lparr>um_sent := None, um_next := Some d, um_result := ended m\<rparr>)
      | _ \<Rightarrow> None)"

definition Run_closed :: "'c uimanager \<Rightarrow> 'c uimanager option" where
  "Run_closed m =
     (if \<not> um_open m \<and> um_sent m = None \<and> um_next m = None \<and> \<not> um_eof m \<and> \<not> um_exited m
      then Some (m\<lparr>um_eof := True, um_result := ended m\<rparr>) else None)"

text \<open>
  The end of a turn, after the callback: a directive the callback itself sent was received by
  the goroutine of this turn; with no directive received, nothing is shown next; when the channel
  was found closed, \<^verbatim>\<open>Run\<close> returns.
\<close>

definition Run_next :: "'c uimanager \<Rightarrow> 'c uimanager" where
  "Run_next m =
     (let m = (case um_sent m of Some d \<Rightarrow> if um_next m = None then m\<lparr>um_sent := None, um_next := Some d\<rparr> else m | None \<Rightarrow> m);
          d = (case um_next m of Some d \<Rightarrow> d | None \<Rightarrow> zero_directive)
      in if um_eof m then m\<lparr>um_exited := True, um_result := None\<rparr>
         else m\<lparr>um_shown := d, um_next := None, um_result := None, um_begun := False\<rparr>)"

text \<open>
  The begin of \<^verbatim>\<open>run\<close>: once the manager is primed the dialog is set up, under the manager's mutex. When
  the context has been cancelled before that, \<^verbatim>\<open>select\<close> may as well return at once, without any callback.
  When the dialog cannot be created, \<^verbatim>\<open>Run\<close> returns with the error.
\<close>

definition Run_begin :: "'c uimanager \<Rightarrow> 'c uimanager option" where
  "Run_begin m =
     (if \<not> um_begun m \<and> um_primed m \<and> um_sent m = None \<and> \<not> um_exited m
      then let m = Manager_run (um_shown m) (m\<lparr>um_begun := True\<rparr>)
           in Some (if um_next m \<noteq> None \<or> um_eof m then m\<lparr>um_result := ended m\<rparr> else m)
      else None)"

definition Run_skip :: "'c uimanager \<Rightarrow> 'c uimanager option" where
  "Run_skip m = (if \<not> um_begun m \<and> (um_next m \<noteq> None \<or> um_eof m) \<and> \<not> um_exited m then Some (Run_next m) else None)"

definition Run_fail :: "'c uimanager \<Rightarrow> 'c uimanager option" where
  "Run_fail m =
     (if \<not> um_begun m \<and> um_primed m \<and> um_sent m = None \<and> \<not> um_exited m \<and> dr_Type (um_shown m) \<noteq> UI_None
      then Some ((Manager_run (um_shown m) m)\<lparr>um_exited := True\<rparr>) else None)"

definition Run_dialog :: "dlgcmd \<Rightarrow> 'c uimanager \<Rightarrow> 'c uimanager option" where
  "Run_dialog r m =
     (if um_begun m \<and> um_result m = None \<and> \<not> um_exited m \<and> dr_Type (um_shown m) \<noteq> UI_None
      then Some (m\<lparr>um_result := Some (call_result r)\<rparr>) else None)"

section \<open>What is on the screen\<close>

text \<open>The directive that will be on the screen once the directives under way have arrived.\<close>

definition um_target :: "'c uimanager \<Rightarrow> 'c directive" where
  "um_target m = (case um_sent m of Some d \<Rightarrow> d | None \<Rightarrow> (case um_next m of Some d \<Rightarrow> d | None \<Rightarrow> um_shown m))"

text \<open>
  Directives under way have the current type and ask for something else than what is shown. So
  when a callback asks for a change after the next directive has already been received, the
  manager is no longer at the callback's type, and the callback does not block.
\<close>

definition differs :: "'c directive \<Rightarrow> 'c directive \<Rightarrow> bool" where
  "differs d shown \<longleftrightarrow> dr_Type shown = UI_None \<or> dr_Type d \<noteq> dr_Type shown"

definition um_ok :: "'c uimanager \<Rightarrow> bool" where
  "um_ok m = (case (um_sent m, um_next m) of
      (None, None) \<Rightarrow> dr_Type (um_shown m) = um_current m \<or> dr_Type (um_shown m) = UI_None
    | (None, Some d) \<Rightarrow> dr_Type d = um_current m \<and> differs d (um_shown m)
    | (Some d, None) \<Rightarrow> dr_Type d = um_current m \<and> differs d (um_shown m)
    | (Some e, Some d) \<Rightarrow> dr_Type e = um_current m \<and> differs e d \<and> differs d (um_shown m))"

lemma um_ok_target: "um_ok m \<Longrightarrow> dr_Type (um_target m) = um_current m \<or> dr_Type (um_target m) = UI_None"
  by (cases "um_sent m"; cases "um_next m") (auto simp: um_ok_def um_target_def)

lemma Manager_New_ok: "um_ok (Manager_New\<lparr>um_running := b\<rparr>)"
  by (simp add: um_ok_def Manager_New_def zero_directive_def)

lemma Manager_run_simps [simp]:
  "um_current (Manager_run d m) = um_current m" "um_open (Manager_run d m) = um_open m"
  "um_sent (Manager_run d m) = um_sent m" "um_shown (Manager_run d m) = um_shown m"
  "um_next (Manager_run d m) = um_next m" "um_result (Manager_run d m) = um_result m"
  "um_eof (Manager_run d m) = um_eof m" "um_begun (Manager_run d m) = um_begun m"
  "um_exited (Manager_run d m) = um_exited m" "um_primed (Manager_run d m) = um_primed m"
  by (simp_all add: Manager_run_def split: uitype.split)

lemma Manager_Update_simps [simp]:
  "um_current (Manager_Update s m) = um_current m" "um_open (Manager_Update s m) = um_open m"
  "um_sent (Manager_Update s m) = um_sent m" "um_shown (Manager_Update s m) = um_shown m"
  "um_next (Manager_Update s m) = um_next m" "um_result (Manager_Update s m) = um_result m"
  by (simp_all add: Manager_Update_def Let_def split: option.split)

lemma um_ok_Update [simp]: "um_ok (Manager_Update s m) \<longleftrightarrow> um_ok m"
  by (cases "um_sent m"; cases "um_next m") (simp_all add: um_ok_def)

lemma um_ok_Change: "um_ok m \<Longrightarrow> um_sent m = None \<Longrightarrow> um_ok (Manager_Change t cb m)"
  by (cases "um_next m") (auto simp: um_ok_def differs_def Manager_Change_def)

lemma um_ok_CompareAndChange: "um_ok m \<Longrightarrow> um_sent m = None \<Longrightarrow> um_ok (Manager_CompareAndChange from to cb m)"
  by (cases "um_next m") (auto simp: um_ok_def differs_def Manager_CompareAndChange_def)

lemma um_ok_stop: "um_ok m \<Longrightarrow> Manager_stop m = Inr m' \<Longrightarrow> um_ok m'"
  by (cases "um_sent m"; cases "um_next m") (auto simp: um_ok_def Manager_stop_def split: if_splits)

lemma um_ok_receive: "um_ok m \<Longrightarrow> Run_receive m = Some m' \<Longrightarrow> um_ok m'"
  by (cases "um_sent m"; cases "um_next m") (auto simp: um_ok_def Run_receive_def split: if_splits)

lemma um_ok_dialog: "um_ok m \<Longrightarrow> Run_dialog r m = Some m' \<Longrightarrow> um_ok m'"
  by (cases "um_sent m"; cases "um_next m") (auto simp: um_ok_def Run_dialog_def split: if_splits)

lemma um_ok_closed: "um_ok m \<Longrightarrow> Run_closed m = Some m' \<Longrightarrow> um_ok m'"
  by (cases "um_sent m"; cases "um_next m") (auto simp: um_ok_def Run_closed_def split: if_splits)

lemma um_ok_begin: "um_ok m \<Longrightarrow> Run_begin m = Some m' \<Longrightarrow> um_ok m'"
  by (cases "um_sent m"; cases "um_next m") (auto simp: um_ok_def Run_begin_def Let_def split: if_splits)

lemma um_ok_fail: "um_ok m \<Longrightarrow> Run_fail m = Some m' \<Longrightarrow> um_ok m'"
  by (cases "um_sent m"; cases "um_next m") (auto simp: um_ok_def Run_fail_def split: if_splits)

lemma um_ok_next: "um_ok m \<Longrightarrow> um_ok (Run_next m)"
  by (cases "um_sent m"; cases "um_next m")
    (auto simp: um_ok_def Run_next_def zero_directive_def differs_def Let_def)

lemma um_ok_skip: "um_ok m \<Longrightarrow> Run_skip m = Some m' \<Longrightarrow> um_ok m'"
  by (auto simp: Run_skip_def um_ok_next split: if_splits)

end
