(* ===== verification/Runner.thy ===== *)
theory Runner
  imports LeaseUi
begin

text \<open>
  The runner, \<^verbatim>\<open>src/runner/runner.go\<close>: it acquires a lease, starts the program once the lease is
  active, and stops it when the lease is lost. \<open>Runner_turn\<close> is one turn of the loop of \<^verbatim>\<open>run\<close>, for
  a state received from the lease maintainer; \<open>Runner_callback\<close> is a callback of a dialog. Both hold
  the runner's mutex, so each is one step; a turn that asks the user interface for a change keeps
  the mutex until the directive has been received (\<open>um_sent\<close>). \<open>rn_step\<close> is the resulting step
  relation. \<open>rn_shutdown\<close> is the cancellation of the context of \<^verbatim>\<open>run\<close>, which kills the program
  (\<^verbatim>\<open>exec.CommandContext\<close>), \<open>rn_cancelled\<close> that of the context of \<^verbatim>\<open>Run\<close>; the result of
  \<^verbatim>\<open>cmd.Start\<close> is an argument.
\<close>

section \<open>State\<close>

datatype rcallback = startupCallback | queuedCallback | disconnectedCallback | connectedCallback

record runner =
  rn_running :: bool
  rn_failed :: bool
  rn_warned :: bool
  rn_restored :: bool
  rn_dismissal :: time
  rn_ui :: "rcallback uimanager"
  rn_shutdown :: bool
  rn_cancelled :: bool
  rn_returned :: bool
  rn_started :: nat
  rn_exited :: bool

definition Runner_New :: runner where
  "Runner_New = \<lparr>rn_running = False, rn_failed = False, rn_warned = False, rn_restored = False,
     rn_dismissal = 0, rn_ui = Manager_New\<lparr>um_running := True\<rparr>, rn_shutdown = False, rn_cancelled = False,
     rn_returned = False, rn_started = 0, rn_exited = False\<rparr>"

section \<open>Warnings\<close>

definition shouldWarn :: "lease \<Rightarrow> time \<Rightarrow> time \<Rightarrow> bool" where
  "shouldWarn ls at lst =
     (let expiration = Lease_ExpirationTime ls in
      if expiration < at then True
      else let remaining = Time_Sub expiration at in
        if remaining < Minute then True
        else let oneThird = ls_Duration ls sdiv 3; oneQuarter = ls_Duration ls sdiv 4 in
          if lst \<noteq> 0 \<and> at < lst then True
          else if lst \<noteq> 0 \<and> Time_Sub at lst < oneQuarter then False
          else if remaining < oneThird then True
          else let missed = ls_Renewed ls + Lease_EffectiveRefresh ls in
            at > missed + oneQuarter)"

section \<open>Handlers\<close>

definition Runner_Change :: "uitype \<Rightarrow> rcallback option \<Rightarrow> runner \<Rightarrow> runner" where
  "Runner_Change t callback r = r\<lparr>rn_ui := Manager_Change t callback (rn_ui r)\<rparr>"

definition handleError :: "time \<Rightarrow> lstate \<Rightarrow> runner \<Rightarrow> runner" where
  "handleError now state r =
     (let r = r\<lparr>rn_failed := True\<rparr> in
      if \<not> rn_running r then Runner_Change UI_Startup (Some startupCallback) r
      else if Lease_Expired (lt_Lease state) now then r\<lparr>rn_shutdown := True\<rparr>
      else if shouldWarn (lt_Lease state) now (rn_dismissal r)
      then Runner_Change UI_Disconnected (Some disconnectedCallback) (r\<lparr>rn_warned := True\<rparr>)
      else r)"

definition handleQueued :: "runner \<Rightarrow> runner" where
  "handleQueued r =
     (if rn_running r
      then (let r = (if rn_failed r then r\<lparr>rn_failed := False\<rparr> else r) in r\<lparr>rn_shutdown := True\<rparr>)
      else Runner_Change UI_Queued (Some queuedCallback) r)"

definition execute :: "goerror option \<Rightarrow> runner \<Rightarrow> (runner \<times> goerror option) go" where
  "execute start r =
     (if rn_running r then Inl (Panic ''Command is already running'')
      else case start of
        Some e \<Rightarrow> Inr (r, Some e)
      | None \<Rightarrow> Inr (r\<lparr>rn_running := True, rn_started := Suc (rn_started r)\<rparr>, None))"

definition reconnected :: "runner \<Rightarrow> runner" where
  "reconnected r =
     (if rn_warned r then Runner_Change UI_Connected (Some connectedCallback) (r\<lparr>rn_restored := True\<rparr>)
      else if rn_restored r then r
      else Runner_Change UI_None None r)"

definition handleActive :: "goerror option \<Rightarrow> runner \<Rightarrow> (runner \<times> goerror option) go" where
  "handleActive start r =
     (let r = (reconnected r)\<lparr>rn_warned := False, rn_failed := False\<rparr>
      in if \<not> rn_running r then execute start r else Inr (r, None))"

definition handleLeaseNotRequired :: "goerror option \<Rightarrow> runner \<Rightarrow> (runner \<times> goerror option) go" where
  "handleLeaseNotRequired start r =
     (let r = (reconnected r)\<lparr>rn_warned := False, rn_failed := False\<rparr>
      in if \<not> rn_running r then execute start r else Inr (r, None))"

definition Runner_turn :: "goerror option \<Rightarrow> time \<Rightarrow> lstate \<Rightarrow> runner \<Rightarrow> (runner \<times> goerror option) go" where
  "Runner_turn start now state r =
     (let r = r\<lparr>rn_ui := Manager_Update state (rn_ui r)\<rparr> in
      if lt_Err state \<noteq> None then Inr (handleError now state r, None)
      else if lt_LeaseNotRequired state then handleLeaseNotRequired start r
      else if ls_Status (lt_Lease state) = Queued then Inr (handleQueued r, None)
      else if ls_Status (lt_Lease state) = Active then handleActive start r
      else Inr (r, Some (''unexpected lease status: '' @ [CHR 0x22] @ ls_Status (lt_Lease state) @ [CHR 0x22])))"

definition Runner_callback :: "time \<Rightarrow> rcallback \<Rightarrow> uiresult \<Rightarrow> runner \<Rightarrow> runner" where
  "Runner_callback now callback result r =
     (let byUser = (result = UserCancelled \<or> result = UserClosed) in
      case callback of
        startupCallback \<Rightarrow> if byUser then r\<lparr>rn_shutdown := True\<rparr> else r
      | queuedCallback \<Rightarrow> if byUser then r\<lparr>rn_shutdown := True\<rparr> else r
      | disconnectedCallback \<Rightarrow>
          (let r = (if byUser then r\<lparr>rn_dismissal := now\<rparr> else r)
           in r\<lparr>rn_ui := Manager_CompareAndChange UI_Disconnected UI_None None (rn_ui r)\<rparr>)
      | connectedCallback \<Rightarrow>
          (let r = r\<lparr>rn_restored := False\<rparr>
           in r\<lparr>rn_ui := Manager_CompareAndChange UI_Connected UI_None None (rn_ui r)\<rparr>))"

section \<open>Steps\<close>

inductive rn_step :: "runner \<Rightarrow> runner \<Rightarrow> bool" where
  turn: "\<not> rn_returned r \<Longrightarrow> um_sent (rn_ui r) = None \<Longrightarrow> Runner_turn start now state r = Inr (r', err) \<Longrightarrow>
    rn_step r (if err = None then r' else r'\<lparr>rn_returned := True, rn_shutdown := True, rn_cancelled := True\<rparr>)"
| closed: "rn_shutdown r \<Longrightarrow> um_sent (rn_ui r) = None \<Longrightarrow>
    rn_step r (r\<lparr>rn_returned := True, rn_cancelled := True\<rparr>)"
| exits: "rn_running r \<Longrightarrow> rn_step r (r\<lparr>rn_exited := True, rn_shutdown := True\<rparr>)"
| cancel: "rn_step r (r\<lparr>rn_shutdown := True, rn_cancelled := True\<rparr>)"
| stop: "rn_cancelled r \<Longrightarrow> um_sent (rn_ui r) = None \<Longrightarrow> um_open (rn_ui r) \<Longrightarrow> Manager_stop (rn_ui r) = Inr m \<Longrightarrow>
    rn_step r (r\<lparr>rn_ui := m\<rparr>)"
| receive: "Run_receive (rn_ui r) = Some m \<Longrightarrow> rn_step r (r\<lparr>rn_ui := m\<rparr>)"
| dialog: "Run_dialog c (rn_ui r) = Some m \<Longrightarrow> rn_step r (r\<lparr>rn_ui := m\<rparr>)"
| eof: "Run_closed (rn_ui r) = Some m \<Longrightarrow> rn_step r (r\<lparr>rn_ui := m\<rparr>)"
| begins: "Run_begin (rn_ui r) = Some m \<Longrightarrow> rn_step r (r\<lparr>rn_ui := m\<rparr>)"
| skip: "Run_skip (rn_ui r) = Some m \<Longrightarrow> rn_step r (r\<lparr>rn_ui := m\<rparr>)"
| fail: "Run_fail (rn_ui r) = Some m \<Longrightarrow> rn_step r (r\<lparr>rn_ui := m, rn_shutdown := True, rn_cancelled := True\<rparr>)"
| no_callback: "um_result (rn_ui r) \<noteq> None \<Longrightarrow> dr_Callback (um_shown (rn_ui r)) = None \<Longrightarrow>
    rn_step r (r\<lparr>rn_ui := Run_next (rn_ui r)\<rparr>)"
| callback: "um_result (rn_ui r) = Some result \<Longrightarrow> dr_Callback (um_shown (rn_ui r)) = Some cb \<Longrightarrow>
    um_sent (rn_ui r) = None \<Longrightarrow> r' = Runner_callback now cb result r \<Longrightarrow>
    rn_step r (r'\<lparr>rn_ui := Run_next (rn_ui r')\<rparr>)"

inductive_cases rn_step_cases: "rn_step r r'"

section \<open>The invariant\<close>

definition directive_ok :: "rcallback directive \<Rightarrow> bool" where
  "directive_ok d \<longleftrightarrow> dr_Type d = (case dr_Callback d of None \<Rightarrow> UI_None | Some startupCallback \<Rightarrow> UI_Startup
     | Some queuedCallback \<Rightarrow> UI_Queued | Some disconnectedCallback \<Rightarrow> UI_Disconnected
     | Some connectedCallback \<Rightarrow> UI_Connected)"

definition ui_ok :: "rcallback uimanager \<Rightarrow> bool" where
  "ui_ok m \<longleftrightarrow> um_ok m \<and> directive_ok (um_shown m) \<and>
     (\<forall>d. um_sent m = Some d \<longrightarrow> directive_ok d) \<and> (\<forall>d. um_next m = Some d \<longrightarrow> directive_ok d)"

definition rn_ok :: "runner \<Rightarrow> bool" where
  "rn_ok r \<longleftrightarrow> ui_ok (rn_ui r) \<and> rn_started r = (if rn_running r then 1 else 0) \<and>
     (rn_warned r \<or> rn_restored r \<or> rn_exited r \<longrightarrow> rn_running r) \<and> (rn_exited r \<longrightarrow> rn_shutdown r)"

lemma directive_ok_simps [simp]:
  "directive_ok \<lparr>dr_Type = UI_None, dr_Callback = None\<rparr>"
  "directive_ok \<lparr>dr_Type = UI_Startup, dr_Callback = Some startupCallback\<rparr>"
  "directive_ok \<lparr>dr_Type = UI_Queued, dr_Callback = Some queuedCallback\<rparr>"
  "directive_ok \<lparr>dr_Type = UI_Disconnected, dr_Callback = Some disconnectedCallback\<rparr>"
  "directive_ok \<lparr>dr_Type = UI_Connected, dr_Callback = Some connectedCallback\<rparr>"
  by (simp_all add: directive_ok_def)

lemma Runner_New_ok: "rn_ok Runner_New"
  using Manager_New_ok [where b = True]
  by (simp add: rn_ok_def ui_ok_def Runner_New_def directive_ok_def) (simp add: Manager_New_def zero_directive_def)

lemma ui_ok_Update [simp]: "ui_ok (Manager_Update s m) \<longleftrightarrow> ui_ok m"
  by (simp add: ui_ok_def)

lemma ui_ok_Change:
  assumes "ui_ok m" and "um_sent m = None" and "directive_ok \<lparr>dr_Type = t, dr_Callback = cb\<rparr>"
  shows "ui_ok (Manager_Change t cb m)"
  using assms um_ok_Change [of m t cb] by (auto simp: ui_ok_def Manager_Change_def)

lemma ui_ok_CompareAndChange:
  assumes "ui_ok m" and "um_sent m = None" and "directive_ok \<lparr>dr_Type = t, dr_Callback = cb\<rparr>"
  shows "ui_ok (Manager_CompareAndChange from t cb m)"
  using assms um_ok_CompareAndChange [of m "from" t cb] by (auto simp: ui_ok_def Manager_CompareAndChange_def)

lemma ui_ok_stop: "ui_ok m \<Longrightarrow> Manager_stop m = Inr m' \<Longrightarrow> ui_ok m'"
  using um_ok_stop [of m m'] by (auto simp: ui_ok_def Manager_stop_def split: if_splits)

lemma ui_ok_receive: "ui_ok m \<Longrightarrow> Run_receive m = Some m' \<Longrightarrow> ui_ok m'"
  using um_ok_receive [of m m'] by (auto simp: ui_ok_def Run_receive_def split: option.splits if_splits)

lemma ui_ok_dialog: "ui_ok m \<Longrightarrow> Run_dialog c m = Some m' \<Longrightarrow> ui_ok m'"
  using um_ok_dialog [of m c m'] by (auto simp: ui_ok_def Run_dialog_def split: if_splits)

lemma ui_ok_closed: "ui_ok m \<Longrightarrow> Run_closed m = Some m' \<Longrightarrow> ui_ok m'"
  using um_ok_closed [of m m'] by (auto simp: ui_ok_def Run_closed_def split: if_splits)

lemma ui_ok_next: "ui_ok m \<Longrightarrow> ui_ok (Run_next m)"
  using um_ok_next [of m] directive_ok_simps(1)
  by (cases "um_sent m"; cases "um_next m") (auto simp: ui_ok_def Run_next_def zero_directive_def Let_def)

lemma ui_ok_begin: "ui_ok m \<Longrightarrow> Run_begin m = Some m' \<Longrightarrow> ui_ok m'"
  using um_ok_begin [of m m'] by (auto simp: ui_ok_def Run_begin_def Let_def split: if_splits)

lemma ui_ok_skip: "ui_ok m \<Longrightarrow> Run_skip m = Some m' \<Longrightarrow> ui_ok m'"
  by (auto simp: Run_skip_def ui_ok_next split: if_splits)

lemma ui_ok_fail: "ui_ok m \<Longrightarrow> Run_fail m = Some m' \<Longrightarrow> ui_ok m'"
  using um_ok_fail [of m m'] by (auto simp: ui_ok_def Run_fail_def split: if_splits)

lemma Runner_Change_simps [simp]:
  "rn_running (Runner_Change t cb r) = rn_running r" "rn_started (Runner_Change t cb r) = rn_started r"
  "rn_warned (Runner_Change t cb r) = rn_warned r" "rn_restored (Runner_Change t cb r) = rn_restored r"
  "rn_exited (Runner_Change t cb r) = rn_exited r" "rn_shutdown (Runner_Change t cb r) = rn_shutdown r"
  "rn_failed (Runner_Change t cb r) = rn_failed r"
  "rn_ui (Runner_Change t cb r) = Manager_Change t cb (rn_ui r)"
  by (simp_all add: Runner_Change_def)

lemma handleError_ok: "rn_ok r \<Longrightarrow> um_sent (rn_ui r) = None \<Longrightarrow> rn_ok (handleError now state r)"
  by (auto simp: rn_ok_def handleError_def Let_def intro: ui_ok_Change)

lemma handleQueued_ok: "rn_ok r \<Longrightarrow> um_sent (rn_ui r) = None \<Longrightarrow> rn_ok (handleQueued r)"
  by (auto simp: rn_ok_def handleQueued_def Let_def intro: ui_ok_Change)

text \<open>The program is started only if it is not running, so \<^verbatim>\<open>execute\<close> never panics.\<close>

lemma handleActive_ok:
  assumes "rn_ok r" and "um_sent (rn_ui r) = None"
  shows "\<exists>r' err. handleActive start r = Inr (r', err) \<and> rn_ok r'"
proof -
  have "rn_ok ((reconnected r)\<lparr>rn_warned := False, rn_failed := False\<rparr>)"
    using assms by (auto simp: rn_ok_def reconnected_def intro: ui_ok_Change)
  then show ?thesis unfolding handleActive_def execute_def Let_def
    by (cases start) (auto simp: rn_ok_def)
qed

lemma handleLeaseNotRequired_eq: "handleLeaseNotRequired start r = handleActive start r"
  by (simp add: handleLeaseNotRequired_def handleActive_def)

lemma Runner_turn_ok:
  assumes "rn_ok r" and "um_sent (rn_ui r) = None"
  shows "\<exists>r' err. Runner_turn start now state r = Inr (r', err) \<and> rn_ok r'"
proof -
  let ?r = "r\<lparr>rn_ui := Manager_Update state (rn_ui r)\<rparr>"
  have r: "rn_ok ?r" "um_sent (rn_ui ?r) = None" using assms by (simp_all add: rn_ok_def)
  from handleError_ok [OF r] handleQueued_ok [OF r] handleActive_ok [OF r, of start] r(1)
  show ?thesis by (auto simp: Runner_turn_def handleLeaseNotRequired_eq Let_def)
qed

text \<open>A callback leaves no directive behind: what it sends, the turn it ends in receives.\<close>

lemma callback_sends:
  assumes "ui_ok m" and "um_sent m = None" and "um_next m \<noteq> None" and "dr_Type (um_shown m) = from" and "from \<noteq> UI_None"
  shows "Manager_CompareAndChange from to cb m = m"
  using assms by (auto simp: ui_ok_def um_ok_def differs_def Manager_CompareAndChange_def)

lemma Run_next_sent: "um_sent m = None \<or> um_next m = None \<Longrightarrow> um_sent (Run_next m) = None"
  by (auto simp: Run_next_def Let_def split: option.splits)

lemma callback_ok:
  assumes "rn_ok r" and "um_sent (rn_ui r) = None" and "dr_Callback (um_shown (rn_ui r)) = Some cb"
    and r': "r' = Runner_callback now cb result r"
  shows "rn_ok (r'\<lparr>rn_ui := Run_next (rn_ui r')\<rparr>)" and "um_sent (Run_next (rn_ui r')) = None"
proof -
  have ui: "ui_ok (rn_ui r)" using assms(1) by (simp add: rn_ok_def)
  have "rn_ok r'" using assms(1,2) unfolding r'
    by (auto simp: rn_ok_def Runner_callback_def Let_def split: rcallback.split intro: ui_ok_CompareAndChange)
  then show "rn_ok (r'\<lparr>rn_ui := Run_next (rn_ui r')\<rparr>)" by (simp add: rn_ok_def ui_ok_next)
  have shown: "directive_ok (um_shown (rn_ui r))" using ui by (simp add: ui_ok_def)
  have "um_sent (rn_ui r') = None \<or> um_next (rn_ui r') = None"
  proof (cases "um_next (rn_ui r)")
    case None
    then show ?thesis unfolding r'
      by (auto simp: Runner_callback_def Manager_CompareAndChange_def Let_def split: rcallback.split)
  next
    case (Some d)
    with callback_sends [OF ui assms(2)] shown assms(2,3) show ?thesis unfolding r'
      by (auto simp: Runner_callback_def directive_ok_def Let_def split: rcallback.split)
  qed
  then show "um_sent (Run_next (rn_ui r')) = None" by (rule Run_next_sent)
qed

lemma rn_ok_simps [simp]:
  "rn_ok (r\<lparr>rn_returned := b\<rparr>) = rn_ok r" "rn_ok (r\<lparr>rn_cancelled := b\<rparr>) = rn_ok r"
  "rn_ok r \<Longrightarrow> rn_ok (r\<lparr>rn_shutdown := True\<rparr>)"
  "rn_ok r \<Longrightarrow> ui_ok m \<Longrightarrow> rn_ok (r\<lparr>rn_ui := m\<rparr>)"
  by (simp_all add: rn_ok_def)

lemma rn_step_ok: "rn_step r r' \<Longrightarrow> rn_ok r \<Longrightarrow> rn_ok r'"
proof (induction rule: rn_step.induct)
  case (turn r start now state r' err)
  with Runner_turn_ok [of r start now state] show ?case by (auto simp: rn_ok_def)
next
  case (exits r)
  then show ?case by (simp add: rn_ok_def)
next
  case (callback r result cb r' now)
  then show ?case using callback_ok(1) by blast
qed (auto simp: rn_ok_def intro: ui_ok_stop ui_ok_receive ui_ok_dialog ui_ok_closed ui_ok_next ui_ok_begin ui_ok_skip ui_ok_fail)

interpretation rnInv: initial_invariant rn_step rn_ok Runner_New
  by unfold_locales (fact rn_step_ok Runner_New_ok)+

section \<open>The lease is enforced\<close>

lemma Runner_turn_enforces:
  assumes "Runner_turn start now state r = Inr (r', None)" and "rn_running r'" and "\<not> rn_shutdown r'"
  shows "if lt_Err state = None then lt_LeaseNotRequired state \<or> ls_Status (lt_Lease state) = Active
    else rn_running r \<and> \<not> Lease_Expired (lt_Lease state) now"
  using assms
  by (auto simp: Runner_turn_def handleError_def handleQueued_def Let_def split: if_splits)

text \<open>A turn blocked on a directive that nobody receives, because the turn of \<^verbatim>\<open>Run\<close> has already
  received one and its callback waits for the runner's mutex.\<close>

definition stuck :: "runner \<Rightarrow> bool" where
  "stuck r \<longleftrightarrow> um_sent (rn_ui r) \<noteq> None \<and> um_next (rn_ui r) \<noteq> None \<and> um_begun (rn_ui r) \<and>
     um_result (rn_ui r) \<noteq> None \<and> dr_Callback (um_shown (rn_ui r)) \<noteq> None"

lemma stuck_forever: "rn_step r r' \<Longrightarrow> stuck r \<Longrightarrow> stuck r'"
  by (induction rule: rn_step.induct)
    (auto simp: stuck_def Run_receive_def Run_dialog_def Run_closed_def Run_begin_def Run_skip_def Run_fail_def
      split: option.splits if_splits)

interpretation stuckInv: inductive_invariant rn_step stuck
  by unfold_locales (rule stuck_forever)

section \<open>When the user is warned\<close>

lemma shouldWarn_doom: "Lease_ExpirationTime ls - at < Minute \<Longrightarrow> shouldWarn ls at lst"
  by (auto simp: shouldWarn_def Let_def Time_Sub_def Minute_def Second_def minDuration_def)

lemma shouldWarn_dismissed:
  assumes "Minute \<le> Lease_ExpirationTime ls - at" and "0 < lst" and "lst \<le> at" and "at - lst < ls_Duration ls sdiv 4"
    and "Lease_ExpirationTime ls - at \<le> maxDuration"
  shows "\<not> shouldWarn ls at lst"
proof -
  have "Minute \<le> Time_Sub (Lease_ExpirationTime ls) at"
    using assms(1,5) by (simp add: Time_Sub_exact minDuration_def Minute_def Second_def)
  moreover have "Time_Sub at lst < ls_Duration ls sdiv 4"
    using Time_Sub_le [OF assms(3)] assms(4) by simp
  ultimately show ?thesis
    using assms(1,2,3) by (simp add: shouldWarn_def Let_def Minute_def Second_def)
qed

end
