(* ===== verification/Enforcer.thy ===== *)
theory Enforcer
  imports Maintainer PolicyProv
begin

text \<open>
  The enforcement service's process side, \<^verbatim>\<open>src/enforcer/\<close>: which processes are looked at
  (\<^verbatim>\<open>filter_windows.go\<close>, \<^verbatim>\<open>scan_windows.go\<close>, \<^verbatim>\<open>blocklist_windows.go\<close>), the table of managed processes
  (\<^verbatim>\<open>processmanager_windows.go\<close>), what becomes of one managed process (\<^verbatim>\<open>invocation_windows.go\<close>) and
  the policies that are enforced (\<^verbatim>\<open>policymanager_windows.go\<close>). The libraries \<^verbatim>\<open>winproc\<close> and
  \<^verbatim>\<open>wtsapi\<close> are parameters: the process list, whether a process can be opened, whether it could be
  terminated. The mutexes make every call one step. \<^verbatim>\<open>strings.EqualFold\<close> outside ASCII is a
  parameter, as is the digest (SHA-3, printed in base 64) that \<^verbatim>\<open>NewInstanceID\<close> takes of its bytes;
  \<open>pd_UniqueID\<close> are the bytes of the unique ID.
\<close>

section \<open>Processes and their properties\<close>

record procdata =
  pd_ID :: string
  pd_UniqueID :: string
  pd_Name :: string
  pd_Path :: string
  pd_Creation :: string
  pd_SID :: string
  pd_Account :: string
  pd_Domain :: string
  pd_User :: string
  pd_Protected :: bool
  pd_SessionID :: nat

definition Enforcer_Properties :: "procdata \<Rightarrow> properties \<Rightarrow> properties" where
  "Enforcer_Properties p environment = environment(
     ''program.name'' \<mapsto> pd_Name p, ''program.path'' \<mapsto> pd_Path p, ''process.id'' \<mapsto> pd_ID p,
     ''process.creation'' \<mapsto> pd_Creation p, ''user.id'' \<mapsto> pd_SID p, ''user.account'' \<mapsto> pd_Account p,
     ''user.domain'' \<mapsto> pd_Domain p)"

definition blocklist :: "string list" where
  "blocklist = [''applicationframehost'', ''backgroundtaskhost'', ''chrome'', ''cmd'', ''csrss'', ''conhost'',
     ''ctfmon'', ''dllhost'', ''dwm'', ''explorer'', ''fontdrvhost'', ''launchtm'', ''lockapp'', ''lsass'', ''mmc'',
     ''regedit'', ''registry'', ''resourceful'', ''runtimebroker'', ''rtkauduservice64'', ''searchindexer'',
     ''searchfilterhost'', ''searchprotocolhost'', ''searchui'', ''securityhealthsystray'', ''services'',
     ''shellexperiencehost'', ''sihost'', ''smartscreen'', ''svchost'', ''systemsettings'', ''systemsettingsbroker'',
     ''startmenuexperiencehost'', ''taskhostw'', ''taskmgr'', ''thunderbolt'', ''wininit'', ''winlogon'', ''wireguard'',
     ''wudfhost'', ''windowsinternal.composableshell.experiences.textinput.inputapp'']"

definition Blocklisted :: "golib \<Rightarrow> procdata \<Rightarrow> bool" where
  "Blocklisted lib p =
     (if pd_Protected p then True
      else let name = strings_ToLower lib (pd_Name p);
               name = strings_TrimSuffix name ''.exe''
           in name \<in> set blocklist)"

section \<open>Filters\<close>

definition strings_EqualFold :: "(string \<Rightarrow> string \<Rightarrow> bool) \<Rightarrow> string \<Rightarrow> string \<Rightarrow> bool" where
  "strings_EqualFold eqf s t =
     (if is_ascii s \<and> is_ascii t then map ascii_lower s = map ascii_lower t else eqf s t)"

definition compileRegex :: "golib \<Rightarrow> string \<Rightarrow> goerror + (string \<Rightarrow> bool) option" where
  "compileRegex lib re =
     (if re = '''' then Inr None
      else let re = (if \<not> strings_HasPrefix re ''(?i)'' then ''(?i)'' @ re else re)
           in case gl_regexp lib re of None \<Rightarrow> Inl ''error parsing regexp'' | Some f \<Rightarrow> Inr (Some f))"

definition makeMatcher ::
  "golib \<Rightarrow> (string \<Rightarrow> string \<Rightarrow> bool) \<Rightarrow> string \<Rightarrow> string \<Rightarrow> goerror + (string \<Rightarrow> bool)" where
  "makeMatcher lib eqf comparison value =
     (if comparison = ComparisonExact then Inr (\<lambda>fieldValue. fieldValue = value)
      else if comparison = ComparisonIgnoreCase then Inr (\<lambda>fieldValue. strings_EqualFold eqf fieldValue value)
      else if comparison = ComparisonRegex then
        (case compileRegex lib value of
           Inl err \<Rightarrow> Inl err
         | Inr None \<Rightarrow> Inl ''empty regular expression''
         | Inr (Some re) \<Rightarrow> Inr re)
      else Inl (''policy criteria contains unrecognized comparison type: '' @ comparison))"

definition makeCriterionFilter ::
  "golib \<Rightarrow> (string \<Rightarrow> string \<Rightarrow> bool) \<Rightarrow> criterion \<Rightarrow> goerror + (properties \<Rightarrow> bool)" where
  "makeCriterionFilter lib eqf c =
     (case makeMatcher lib eqf (cr_Comparison c) (cr_Value c) of
        Inl err \<Rightarrow> Inl err
      | Inr matcher \<Rightarrow> Inr (\<lambda>p. matcher (props_get p (cr_Key c))))"

fun Filter_loop ::
  "golib \<Rightarrow> (string \<Rightarrow> string \<Rightarrow> bool) \<Rightarrow> (properties \<Rightarrow> bool) list \<Rightarrow> criteria \<Rightarrow> goerror + (properties \<Rightarrow> bool) list" where
  "Filter_loop lib eqf filters [] = Inr filters"
| "Filter_loop lib eqf filters (c # cs) =
     (case makeCriterionFilter lib eqf c of
        Inl err \<Rightarrow> Inl err
      | Inr f \<Rightarrow> Filter_loop lib eqf (filters @ [f]) cs)"

definition Enforcer_Filter ::
  "golib \<Rightarrow> (string \<Rightarrow> string \<Rightarrow> bool) \<Rightarrow> criteria \<Rightarrow> properties \<Rightarrow> goerror + (procdata \<Rightarrow> bool) option" where
  "Enforcer_Filter lib eqf criteria environment =
     (case Filter_loop lib eqf [] criteria of
        Inl err \<Rightarrow> Inl err
      | Inr filters \<Rightarrow>
          if length filters = 0 then Inr None
          else Inr (Some (\<lambda>p. let props = Enforcer_Properties p environment in list_all (\<lambda>f. f props) filters)))"

text \<open>
  \<^verbatim>\<open>Scan\<close>: a policy whose criteria cannot be understood is left out. \<open>list\<close> stands for
  \<^verbatim>\<open>winproc.List\<close> with the composite filter.
\<close>

definition Scan_filters ::
  "golib \<Rightarrow> (string \<Rightarrow> string \<Rightarrow> bool) \<Rightarrow> policies \<Rightarrow> properties \<Rightarrow> (procdata \<Rightarrow> bool) list" where
  "Scan_filters lib eqf policies environment =
     concat (map (\<lambda>pol. case Enforcer_Filter lib eqf (pol_Criteria pol) environment of
        Inr (Some f) \<Rightarrow> [f] | _ \<Rightarrow> []) policies)"

definition Scan ::
  "golib \<Rightarrow> (string \<Rightarrow> string \<Rightarrow> bool) \<Rightarrow> ((procdata \<Rightarrow> bool) \<Rightarrow> goerror + procdata list) \<Rightarrow> policies \<Rightarrow> properties \<Rightarrow>
   goerror + procdata list" where
  "Scan lib eqf list policies environment =
     (let filters = Scan_filters lib eqf policies environment in
      if length filters = 0 then Inr []
      else list (\<lambda>p. list_ex (\<lambda>f. f p) filters))"

section \<open>Tokens of users\<close>

text \<open>
  What a token says of its user: the errors of \<^verbatim>\<open>GetTokenUser\<close> and \<^verbatim>\<open>LookupAccount\<close>, or the name, the
  domain and whether it is the account of a user. \<open>launch\<close> is what the system answers when a
  process is started in a session.
\<close>

type_synonym token = "goerror + goerror + string \<times> string \<times> bool"

record launch =
  la_token :: "goerror + token"
  la_stdin :: "goerror option"
  la_stdout :: "goerror option"
  la_start :: "goerror + string"

definition validateTokenForUser :: "token \<Rightarrow> string \<Rightarrow> string \<Rightarrow> goerror option" where
  "validateTokenForUser t expectedUsername expectedDomain =
     (case t of
        Inl err \<Rightarrow> Some (''unable to get user: '' @ err)
      | Inr (Inl err) \<Rightarrow> Some (''unable to look up account: '' @ err)
      | Inr (Inr (username, domain, isUser)) \<Rightarrow>
          if \<not> isUser then Some ''token is not for a standard user''
          else if username \<noteq> expectedUsername \<or> domain \<noteq> expectedDomain then Some ''token does not match expected user''
          else None)"

section \<open>Invocations\<close>

text \<open>
  \<open>iv_data\<close> is the process the invocation was made for, \<open>iv_process\<close> the one it manages now,
  \<open>iv_notices\<close> the names it has handed to \<^verbatim>\<open>SendProcessTermination\<close> of its session, if it has one;
  \<open>iv_finished\<close> tells that the channel \<^verbatim>\<open>stopped\<close> is closed (by then the maintainer has been asked to
  release the lease).
\<close>

record invocation =
  iv_instance :: instance_t
  iv_data :: procdata
  iv_process :: procdata
  iv_session :: bool
  iv_state :: lstate
  iv_termPending :: bool
  iv_notices :: "string list"
  iv_finished :: bool

definition NewInvocation :: "instance_t \<Rightarrow> procdata \<Rightarrow> bool \<Rightarrow> invocation" where
  "NewInvocation inst process session = \<lparr>iv_instance = inst, iv_data = process, iv_process = process, iv_session = session,
     iv_state = zero_lstate, iv_termPending = False, iv_notices = [], iv_finished = False\<rparr>"

definition Invocation_Stop :: "invocation \<Rightarrow> invocation" where
  "Invocation_Stop iv = iv\<lparr>iv_finished := True\<rparr>"

definition Invocation_Done :: "invocation \<Rightarrow> bool" where
  "Invocation_Done iv = iv_finished iv"

definition recordState :: "lstate \<Rightarrow> invocation \<Rightarrow> invocation" where
  "recordState state iv = iv\<lparr>iv_state := state\<rparr>"

definition spawn :: "launch \<Rightarrow> invocation \<Rightarrow> string option" where
  "spawn la iv =
     (case la_token la of
        Inl err \<Rightarrow> None
      | Inr token \<Rightarrow>
          (case validateTokenForUser token (pd_Account (iv_data iv)) (pd_Domain (iv_data iv)) of
             Some err \<Rightarrow> None
           | None \<Rightarrow> (case la_start la of Inl err \<Rightarrow> None | Inr pid \<Rightarrow> Some pid)))"

text \<open>
  The events the goroutine of an invocation waits for: a request to absorb another process, the
  cancellation of its context (with the answer of \<^verbatim>\<open>process.Running\<close>), the closing of the channel of
  states, the timer of \<^verbatim>\<open>waitForAbsorption\<close>, and a state, with the time it is read, the result of
  \<^verbatim>\<open>process.Terminate\<close>, should it be called, and what the system answers to \<^verbatim>\<open>spawn\<close>. Each of the
  three loops is given by what one event does: the value returned, or \<open>None\<close> when the loop goes on.
\<close>

datatype maintain_event =
    AbsorptionRequest procdata
  | ContextDone bool
  | StatesClosed
  | LeaseState lstate time "goerror option" launch
  | AbsorptionTimeout

definition maintain_terminate :: "lstate \<Rightarrow> time \<Rightarrow> bool" where
  "maintain_terminate state now =
     (if lt_Acquired state then ls_Status (lt_Lease state) \<noteq> Active \<or> Lease_Expired (lt_Lease state) now
      else \<not> lt_Online state)"

definition maintain :: "maintain_event \<Rightarrow> invocation \<Rightarrow> invocation \<times> bool option" where
  "maintain e iv =
     (case e of
        AbsorptionRequest process \<Rightarrow> (iv, None)
      | ContextDone running \<Rightarrow>
          if running then (iv, Some False)
          else if iv_termPending iv then (iv, Some False)
          else (iv, Some False)
      | StatesClosed \<Rightarrow> (iv, Some False)
      | AbsorptionTimeout \<Rightarrow> (iv, None)
      | LeaseState state now terminated _ \<Rightarrow>
          (let iv = recordState state iv in
           if \<not> lt_Acquired state \<and> lt_LeaseNotRequired state then (iv, Some False)
           else if maintain_terminate state now then
             (if iv_termPending iv then (iv, None)
              else case terminated of
                Some err \<Rightarrow> (iv, None)
              | None \<Rightarrow>
                  (let iv = iv\<lparr>iv_termPending := True\<rparr>
                   in (if iv_session iv then iv\<lparr>iv_notices := iv_notices iv @ [pd_Name (iv_process iv)]\<rparr> else iv, None)))
           else (iv, None)))"

definition waitForAquisition :: "maintain_event \<Rightarrow> invocation \<Rightarrow> invocation \<times> string option option" where
  "waitForAquisition e iv =
     (case e of
        ContextDone running \<Rightarrow> (iv, Some None)
      | AbsorptionRequest process \<Rightarrow> (iv, None)
      | StatesClosed \<Rightarrow> (iv, Some None)
      | AbsorptionTimeout \<Rightarrow> (iv, None)
      | LeaseState state now _ la \<Rightarrow>
          (let iv = recordState state iv;
               start = (if lt_Acquired state
                 then \<not> Lease_Expired (lt_Lease state) now \<and> ls_Status (lt_Lease state) = Active
                 else lt_LeaseNotRequired state)
           in if start then (iv, Some (spawn la iv)) else (iv, None)))"

text \<open>
  When the timer of \<^verbatim>\<open>waitForAbsorption\<close> has been received, the deferred function finds it expired and receives
  from its channel once more, which never returns.
\<close>

datatype absorboutcome = KeepsWaiting | GivesUp | Absorbs | BlocksOnTimer

definition waitForAbsorption :: "string \<Rightarrow> maintain_event \<Rightarrow> invocation \<Rightarrow> invocation \<times> absorboutcome" where
  "waitForAbsorption pid e iv =
     (case e of
        ContextDone running \<Rightarrow> (iv, GivesUp)
      | AbsorptionRequest process \<Rightarrow>
          if pd_ID process \<noteq> pid then (iv, KeepsWaiting) else (iv\<lparr>iv_process := process\<rparr>, Absorbs)
      | AbsorptionTimeout \<Rightarrow> (iv, BlocksOnTimer)
      | _ \<Rightarrow> (iv, KeepsWaiting))"

text \<open>
  The loop of \<^verbatim>\<open>manage\<close>, by what one event does to it, and over the events it sees; the local variable
  \<^verbatim>\<open>termPending\<close> starts anew.
\<close>

datatype phase = Maintaining | Acquiring | Absorbing string

datatype manageoutcome = GoesOn phase | Returns | Blocks

definition manage_event :: "phase \<Rightarrow> maintain_event \<Rightarrow> invocation \<Rightarrow> invocation \<times> manageoutcome" where
  "manage_event ph e iv =
     (case ph of
        Maintaining \<Rightarrow>
          (case maintain e iv of
             (iv, None) \<Rightarrow> (iv, GoesOn Maintaining)
           | (iv, Some ok) \<Rightarrow> (iv, if \<not> ok then Returns else GoesOn Acquiring))
      | Acquiring \<Rightarrow>
          (case waitForAquisition e iv of
             (iv, None) \<Rightarrow> (iv, GoesOn Acquiring)
           | (iv, Some None) \<Rightarrow> (iv, Returns)
           | (iv, Some (Some pid)) \<Rightarrow> (iv, GoesOn (Absorbing pid)))
      | Absorbing pid \<Rightarrow>
          (case waitForAbsorption pid e iv of
             (iv, KeepsWaiting) \<Rightarrow> (iv, GoesOn (Absorbing pid))
           | (iv, GivesUp) \<Rightarrow> (iv, Returns)
           | (iv, BlocksOnTimer) \<Rightarrow> (iv, Blocks)
           | (iv, Absorbs) \<Rightarrow> (iv\<lparr>iv_termPending := False\<rparr>, GoesOn Maintaining)))"

fun manage :: "phase \<Rightarrow> maintain_event list \<Rightarrow> invocation \<Rightarrow> invocation" where
  "manage ph [] iv = iv"
| "manage ph (e # es) iv =
     (case manage_event ph e iv of
        (iv, GoesOn ph) \<Rightarrow> manage ph es iv
      | (iv, Returns) \<Rightarrow> iv\<lparr>iv_finished := True\<rparr>
      | (iv, Blocks) \<Rightarrow> iv)"

section \<open>The process manager\<close>

record procmanager =
  pm_managed :: "(string, instance_t) gomap"
  pm_skipped :: "(string, unit) gomap"
  pm_unmanageable :: "(string, time) gomap"
  pm_invocations :: "(instance_t, invocation) gomap"
  pm_stopped :: "invocation list"

definition NewProcessManager :: procmanager where
  "NewProcessManager = \<lparr>pm_managed = [], pm_skipped = [], pm_unmanageable = [], pm_invocations = [], pm_stopped = []\<rparr>"

definition hashWriteInt :: "int \<Rightarrow> string" where
  "hashWriteInt v = map (\<lambda>i. char_of (nat ((v mod 2 ^ 64) div 256 ^ i mod 256))) [0..<8]"

definition hashWriteString :: "string \<Rightarrow> string" where
  "hashWriteString s = hashWriteInt (int (length s)) @ s"

definition NewInstanceID :: "(string \<Rightarrow> string) \<Rightarrow> procdata \<Rightarrow> string" where
  "NewInstanceID digest p = digest (pd_UniqueID p @ hashWriteString (pd_SID p) @ hashWriteString (pd_Name p))"

definition Enforcer_Instance :: "string \<Rightarrow> procdata \<Rightarrow> string \<Rightarrow> instance_t" where
  "Enforcer_Instance host p iid = \<lparr>inst_Host = host, inst_User = pd_User p, inst_ID = iid\<rparr>"

text \<open>
  Ending the management of a process: its invocation, if it still has one, is stopped and leaves
  the table. \<open>pm_stopped\<close> records the invocations that were stopped.
\<close>

definition unmanage :: "string \<Rightarrow> instance_t \<Rightarrow> procmanager \<Rightarrow> procmanager" where
  "unmanage uid inst m =
     (let m = (case map_of (pm_invocations m) inst of
          Some iv \<Rightarrow> m\<lparr>pm_stopped := pm_stopped m @ [Invocation_Stop iv], pm_invocations := gm_delete (pm_invocations m) inst\<rparr>
        | None \<Rightarrow> m)
      in m\<lparr>pm_managed := gm_delete (pm_managed m) uid\<rparr>)"

text \<open>One turn of the loop over the processes found, and the loop.\<close>

definition Enforce_look ::
  "golib \<Rightarrow> policies \<Rightarrow> properties \<Rightarrow> procdata \<Rightarrow> procmanager \<times> procdata list \<Rightarrow> procmanager \<times> procdata list" where
  "Enforce_look lib policies env proc st =
     (let (m, pending) = st; uid = pd_UniqueID proc in
      if Blocklisted lib proc then
        (case map_of (pm_managed m) uid of
           Some inst \<Rightarrow> ((unmanage uid inst m)\<lparr>pm_skipped := gm_put (pm_skipped m) uid ()\<rparr>, pending)
         | None \<Rightarrow> (if map_of (pm_skipped m) uid = None then m\<lparr>pm_skipped := gm_put (pm_skipped m) uid ()\<rparr> else m, pending))
      else
        (let m = m\<lparr>pm_skipped := gm_delete (pm_skipped m) uid\<rparr> in
         if map_of (pm_managed m) uid \<noteq> None then (m, pending)
         else
           let matches = PolicySet_Match lib policies (Enforcer_Properties proc env) in
           (m, if length matches > 0 then pending @ [proc] else pending)))"

definition Enforce_scan ::
  "golib \<Rightarrow> policies \<Rightarrow> properties \<Rightarrow> procdata list \<Rightarrow> procmanager \<times> procdata list \<Rightarrow> procmanager \<times> procdata list" where
  "Enforce_scan lib policies env procs st = foldl (\<lambda>st proc. Enforce_look lib policies env proc st) st procs"

fun Enforce_dead :: "string set \<Rightarrow> (string \<times> instance_t) list \<Rightarrow> procmanager \<Rightarrow> procmanager" where
  "Enforce_dead scanned [] m = m"
| "Enforce_dead scanned ((uid, inst) # rest) m =
     Enforce_dead scanned rest (if uid \<notin> scanned then unmanage uid inst m else m)"

definition Enforce_bookkeeping :: "string set \<Rightarrow> procmanager \<Rightarrow> procmanager" where
  "Enforce_bookkeeping scanned m =
     (let m = Enforce_dead scanned (pm_managed m) m;
          m = m\<lparr>pm_skipped := filter (\<lambda>(uid, _). uid \<in> scanned) (pm_skipped m)\<rparr>;
          m = m\<lparr>pm_unmanageable := filter (\<lambda>(uid, _). uid \<in> scanned) (pm_unmanageable m)\<rparr>
      in m\<lparr>pm_stopped := pm_stopped m @ map (Invocation_Stop \<circ> snd) (filter (\<lambda>(_, iv). Invocation_Done iv) (pm_invocations m)),
           pm_invocations := filter (\<lambda>(_, iv). \<not> Invocation_Done iv) (pm_invocations m)\<rparr>)"

text \<open>
  A new process. \<open>opens\<close> is the result of \<^verbatim>\<open>NewProcess\<close>, \<open>hasSession\<close> tells whether the session manager
  knows its session.
\<close>

definition Enforce_manage ::
  "(procdata \<Rightarrow> goerror option) \<Rightarrow> (procdata \<Rightarrow> bool) \<Rightarrow> (string \<Rightarrow> string) \<Rightarrow> string \<Rightarrow> time \<Rightarrow> procdata \<Rightarrow>
   procmanager \<Rightarrow> procmanager" where
  "Enforce_manage opens hasSession digest host now proc m =
     (let uid = pd_UniqueID proc in
      if (case map_of (pm_unmanageable m) uid of Some when \<Rightarrow> Time_Sub now when < Minute | None \<Rightarrow> False) then m
      else
        (case opens proc of
           Some err \<Rightarrow> m\<lparr>pm_unmanageable := gm_put (pm_unmanageable m) uid now\<rparr>
         | None \<Rightarrow>
             (let m = m\<lparr>pm_unmanageable := gm_delete (pm_unmanageable m) uid\<rparr>;
                  inst = Enforcer_Instance host proc (NewInstanceID digest proc)
              in m\<lparr>pm_invocations := gm_put (pm_invocations m) inst (NewInvocation inst proc (hasSession proc)),
                   pm_managed := gm_put (pm_managed m) uid inst\<rparr>)))"

definition Enforce_pending ::
  "(procdata \<Rightarrow> goerror option) \<Rightarrow> (procdata \<Rightarrow> bool) \<Rightarrow> (string \<Rightarrow> string) \<Rightarrow> string \<Rightarrow> time \<Rightarrow> procdata list \<Rightarrow>
   procmanager \<Rightarrow> procmanager" where
  "Enforce_pending opens hasSession digest host now pending m =
     foldl (\<lambda>m proc. Enforce_manage opens hasSession digest host now proc m) m pending"

definition Enforce ::
  "golib \<Rightarrow> (string \<Rightarrow> string \<Rightarrow> bool) \<Rightarrow> ((procdata \<Rightarrow> bool) \<Rightarrow> goerror + procdata list) \<Rightarrow> (procdata \<Rightarrow> goerror option) \<Rightarrow>
   (procdata \<Rightarrow> bool) \<Rightarrow> (string \<Rightarrow> string) \<Rightarrow> properties \<Rightarrow> time \<Rightarrow> policies \<Rightarrow> procmanager \<Rightarrow> procmanager \<times> goerror option" where
  "Enforce lib eqf list opens hasSession digest env now policies m =
     (case Scan lib eqf list policies env of
        Inl err \<Rightarrow> (m, Some err)
      | Inr procs \<Rightarrow>
          (let (m, pending) = Enforce_scan lib policies env procs (m, []);
               m = Enforce_bookkeeping (set (map pd_UniqueID procs)) m
           in if length pending = 0 then (m, None)
              else (Enforce_pending opens hasSession digest (props_get env ''host.name'') now pending m, None)))"

definition ProcessManager_Stop :: "procmanager \<Rightarrow> procmanager" where
  "ProcessManager_Stop m = m\<lparr>pm_stopped := pm_stopped m @ map (Invocation_Stop \<circ> snd) (pm_invocations m),
     pm_invocations := [], pm_managed := []\<rparr>"

section \<open>The policy manager\<close>

record polmanager =
  po_policies :: "policies option"
  po_cache :: "policies option"

text \<open>\<^verbatim>\<open>Load\<close>: the first argument is the answer of the cache, if there is one.\<close>

definition PolicyManager_Load :: "(policies option \<times> goerror option) option \<Rightarrow> polmanager \<Rightarrow> polmanager" where
  "PolicyManager_Load cache m =
     (case cache of
        None \<Rightarrow> m
      | Some (updated, Some err) \<Rightarrow> m
      | Some (updated, None) \<Rightarrow> m\<lparr>po_policies := updated\<rparr>)"

text \<open>\<^verbatim>\<open>Update\<close>, with the answer of the client; \<open>cached\<close> tells whether there is a cache that can be written.\<close>

definition PolicyManager_Update ::
  "(policy \<Rightarrow> 'h) \<Rightarrow> bool \<Rightarrow> cerr + policies option \<Rightarrow> polmanager \<Rightarrow> polmanager \<times> bool \<times> bool" where
  "PolicyManager_Update hash cached response m =
     (case response of
        Inl err \<Rightarrow> (m, False, False)
      | Inr updated \<Rightarrow>
          (let previous = po_policies m;
               m = m\<lparr>po_policies := updated\<rparr>;
               m = (if cached then m\<lparr>po_cache := updated\<rparr> else m);
               (additions, deletions) = PolicySet_Diff hash previous updated;
               count = (\<lambda>s. case s of None \<Rightarrow> 0 | Some xs \<Rightarrow> length xs)
           in if count additions = 0 \<and> count deletions = 0 then (m, False, True) else (m, True, True)))"

section \<open>The tables of the process manager\<close>

definition pm_ok :: "procmanager \<Rightarrow> bool" where
  "pm_ok m \<longleftrightarrow> gm_wf (pm_managed m) \<and> gm_wf (pm_unmanageable m) \<and> gm_wf (pm_invocations m) \<and>
     dom (map_of (pm_invocations m)) \<subseteq> ran (map_of (pm_managed m)) \<and> (\<forall>iv \<in> set (pm_stopped m). Invocation_Done iv)"

lemma unmanage_simps [simp]:
  "map_of (pm_managed (unmanage uid inst m)) = (map_of (pm_managed m))(uid := None)"
  "map_of (pm_invocations (unmanage uid inst m)) = (map_of (pm_invocations m))(inst := None)"
  "pm_skipped (unmanage uid inst m) = pm_skipped m" "pm_unmanageable (unmanage uid inst m) = pm_unmanageable m"
  by (auto simp: unmanage_def gm_lookup Let_def fun_eq_iff split: option.split)

lemma unmanage_ok:
  assumes "pm_ok m" and "map_of (pm_managed m) uid = Some inst"
  shows "pm_ok (unmanage uid inst m)"
proof -
  have "dom (map_of (pm_invocations m)) - {inst} \<subseteq> ran ((map_of (pm_managed m))(uid := None))"
  proof
    fix x assume "x \<in> dom (map_of (pm_invocations m)) - {inst}"
    then have x: "x \<noteq> inst" "x \<in> ran (map_of (pm_managed m))" using assms(1) by (auto simp: pm_ok_def)
    then obtain u where "map_of (pm_managed m) u = Some x" by (auto simp: ran_def)
    with x(1) assms(2) show "x \<in> ran ((map_of (pm_managed m))(uid := None))" by (auto intro!: ranI [of _ u])
  qed
  moreover have "gm_wf (pm_managed (unmanage uid inst m))" "gm_wf (pm_invocations (unmanage uid inst m))"
    "\<forall>iv \<in> set (pm_stopped (unmanage uid inst m)). Invocation_Done iv"
    using assms(1) by (auto simp: pm_ok_def unmanage_def Invocation_Done_def Invocation_Stop_def Let_def split: option.split)
  ultimately show ?thesis using assms(1) by (auto simp: pm_ok_def)
qed

lemma pm_ok_skipped [simp]: "pm_ok (m\<lparr>pm_skipped := s\<rparr>) = pm_ok m"
  by (simp add: pm_ok_def)

text \<open>
  One turn of the scan: it takes no process into the table, it throws a blocklisted one out, and
  it leaves for later a process that matches a policy and is not in the table.
\<close>

definition unknown :: "golib \<Rightarrow> policies \<Rightarrow> properties \<Rightarrow> (string \<rightharpoonup> instance_t) \<Rightarrow> procdata \<Rightarrow> bool" where
  "unknown lib pols env managed p \<longleftrightarrow> \<not> Blocklisted lib p \<and> managed (pd_UniqueID p) = None \<and>
     PolicySet_Match lib pols (Enforcer_Properties p env) \<noteq> []"

lemma Enforce_look_spec:
  assumes "Enforce_look lib pols env proc (m, pending) = (m', pending')"
  shows "pm_ok m \<Longrightarrow> pm_ok m'"
    and "map_of (pm_managed m') =
      (if Blocklisted lib proc then (map_of (pm_managed m))(pd_UniqueID proc := None) else map_of (pm_managed m))"
    and "pending' = pending @ (if unknown lib pols env (map_of (pm_managed m)) proc then [proc] else [])"
    and "pm_unmanageable m' = pm_unmanageable m"
  using assms
  by (auto simp: Enforce_look_def unknown_def Let_def unmanage_ok fun_eq_iff split: if_splits option.splits)

lemma Enforce_scan_spec:
  assumes "Enforce_scan lib pols env procs (m, pending) = (m', pending')" and "distinct (map pd_UniqueID procs)"
  shows "(pm_ok m \<longrightarrow> pm_ok m') \<and> pm_unmanageable m' = pm_unmanageable m \<and>
    map_of (pm_managed m') = (map_of (pm_managed m)) |` (- pd_UniqueID ` {p \<in> set procs. Blocklisted lib p}) \<and>
    pending' = pending @ filter (unknown lib pols env (map_of (pm_managed m))) procs"
  using assms
proof (induction procs arbitrary: m pending)
  case (Cons proc procs)
  obtain m1 pending1 where look: "Enforce_look lib pols env proc (m, pending) = (m1, pending1)" by fastforce
  note spec = Enforce_look_spec [OF look]
  have rest: "Enforce_scan lib pols env procs (m1, pending1) = (m', pending')"
    using Cons.prems(1) look by (simp add: Enforce_scan_def)
  have other: "pd_UniqueID p \<noteq> pd_UniqueID proc" if "p \<in> set procs" for p
    using Cons.prems(2) that by (metis distinct.simps(2) image_eqI list.simps(9) list.set_map)
  have same: "filter (unknown lib pols env (map_of (pm_managed m1))) procs =
      filter (unknown lib pols env (map_of (pm_managed m))) procs"
    by (rule filter_cong) (use other in \<open>auto simp: spec(2) unknown_def\<close>)
  from Cons.prems(2) have "distinct (map pd_UniqueID procs)" by simp
  note IH = Cons.IH [OF rest this]
  have "pending' = pending @ filter (unknown lib pols env (map_of (pm_managed m))) (proc # procs)"
    using IH same spec(3) by simp
  moreover have "map_of (pm_managed m') =
      (map_of (pm_managed m)) |` (- pd_UniqueID ` {p \<in> set (proc # procs). Blocklisted lib p})"
    using IH spec(2) by (auto simp: restrict_map_def fun_eq_iff)
  ultimately show ?case using IH spec(1,4) by simp
qed (simp add: Enforce_scan_def restrict_map_def)

lemma Enforce_dead_ok:
  assumes "pm_ok m" and "distinct (map fst xs)" and "\<forall>(uid, inst) \<in> set xs. map_of (pm_managed m) uid = Some inst"
  shows "pm_ok (Enforce_dead scanned xs m)"
  using assms
proof (induction xs arbitrary: m)
  case (Cons x xs)
  obtain uid inst where x: "x = (uid, inst)" by fastforce
  have other: "u \<noteq> uid" if "(u, i) \<in> set xs" for u i using Cons.prems(2) that x by force
  have "pm_ok (if uid \<notin> scanned then unmanage uid inst m else m)"
    using Cons.prems(1,3) x unmanage_ok by simp
  then show ?case unfolding x Enforce_dead.simps
    by (rule Cons.IH) (use Cons.prems(2,3) x other in auto)
qed simp

lemma Enforce_dead_managed:
  "map_of (pm_managed (Enforce_dead scanned xs m)) = (map_of (pm_managed m)) |` (- (fst ` set xs - scanned))"
  by (induction xs arbitrary: m) (force simp: restrict_map_def fun_eq_iff)+

lemma Enforce_dead_unmanageable [simp]: "pm_unmanageable (Enforce_dead scanned xs m) = pm_unmanageable m"
  by (induction xs arbitrary: m) auto

lemma Enforce_bookkeeping_spec:
  assumes "pm_ok m"
  shows "pm_ok (Enforce_bookkeeping scanned m)"
    and "map_of (pm_managed (Enforce_bookkeeping scanned m)) = (map_of (pm_managed m)) |` scanned"
    and "dom (map_of (pm_unmanageable (Enforce_bookkeeping scanned m))) = dom (map_of (pm_unmanageable m)) \<inter> scanned"
proof -
  let ?d = "Enforce_dead scanned (pm_managed m) m"
  have wf: "gm_wf (pm_managed m)" using assms by (simp add: pm_ok_def)
  have ok: "pm_ok ?d"
    by (rule Enforce_dead_ok [OF assms]) (use wf in \<open>auto simp: gm_wf_def\<close>)
  have inv: "dom (map_of (filter P (pm_invocations ?d))) \<subseteq> dom (map_of (pm_invocations ?d))" for P
    by (auto simp: dom_map_of_conv_image_fst)
  from ok inv show "pm_ok (Enforce_bookkeeping scanned m)"
    by (fastforce simp: pm_ok_def Enforce_bookkeeping_def Let_def Invocation_Done_def Invocation_Stop_def)
  show "map_of (pm_managed (Enforce_bookkeeping scanned m)) = (map_of (pm_managed m)) |` scanned"
    by (auto simp: Enforce_bookkeeping_def Let_def Enforce_dead_managed restrict_map_def fun_eq_iff map_of_eq_None_iff)
  show "dom (map_of (pm_unmanageable (Enforce_bookkeeping scanned m))) = dom (map_of (pm_unmanageable m)) \<inter> scanned"
    by (auto simp: Enforce_bookkeeping_def Let_def dom_map_of_conv_image_fst)
qed

lemma Enforce_manage_spec:
  assumes "m' = Enforce_manage opens hasSession digest host now proc m"
  shows "pm_ok m \<Longrightarrow> map_of (pm_managed m) (pd_UniqueID proc) = None \<Longrightarrow> pm_ok m'"
    and "uid \<noteq> pd_UniqueID proc \<Longrightarrow> map_of (pm_managed m') uid = map_of (pm_managed m) uid \<and>
      map_of (pm_unmanageable m') uid = map_of (pm_unmanageable m) uid"
    and "map_of (pm_managed m) uid \<noteq> None \<Longrightarrow> map_of (pm_managed m') uid \<noteq> None"
    and "map_of (pm_managed m') (pd_UniqueID proc) \<noteq> None \<or> map_of (pm_unmanageable m') (pd_UniqueID proc) \<noteq> None"
proof -
  let ?inst = "Enforcer_Instance host proc (NewInstanceID digest proc)"
  have "pm_ok (m\<lparr>pm_unmanageable := gm_delete (pm_unmanageable m) (pd_UniqueID proc),
      pm_invocations := gm_put (pm_invocations m) ?inst (NewInvocation ?inst proc (hasSession proc)),
      pm_managed := gm_put (pm_managed m) (pd_UniqueID proc) ?inst\<rparr>)"
    if "pm_ok m" "map_of (pm_managed m) (pd_UniqueID proc) = None"
    using that by (auto simp: pm_ok_def gm_lookup)
  then show "pm_ok m \<Longrightarrow> map_of (pm_managed m) (pd_UniqueID proc) = None \<Longrightarrow> pm_ok m'"
    unfolding assms Enforce_manage_def Let_def by (auto simp: pm_ok_def split: option.split)
  show "uid \<noteq> pd_UniqueID proc \<Longrightarrow> map_of (pm_managed m') uid = map_of (pm_managed m) uid \<and>
      map_of (pm_unmanageable m') uid = map_of (pm_unmanageable m) uid"
    unfolding assms Enforce_manage_def Let_def by (simp add: gm_lookup split: option.split)
  show "map_of (pm_managed m) uid \<noteq> None \<Longrightarrow> map_of (pm_managed m') uid \<noteq> None"
    unfolding assms Enforce_manage_def Let_def by (simp add: gm_lookup split: option.split)
  show "map_of (pm_managed m') (pd_UniqueID proc) \<noteq> None \<or> map_of (pm_unmanageable m') (pd_UniqueID proc) \<noteq> None"
    unfolding assms Enforce_manage_def Let_def by (auto simp: gm_lookup split: option.split)
qed

lemma Enforce_pending_spec:
  assumes "m' = Enforce_pending opens hasSession digest host now procs m" and "distinct (map pd_UniqueID procs)"
  shows "(pm_ok m \<longrightarrow> (\<forall>p \<in> set procs. map_of (pm_managed m) (pd_UniqueID p) = None) \<longrightarrow> pm_ok m') \<and>
    (\<forall>uid. uid \<notin> pd_UniqueID ` set procs \<longrightarrow> map_of (pm_managed m') uid = map_of (pm_managed m) uid \<and>
      map_of (pm_unmanageable m') uid = map_of (pm_unmanageable m) uid) \<and>
    (\<forall>p \<in> set procs. map_of (pm_managed m') (pd_UniqueID p) \<noteq> None \<or> map_of (pm_unmanageable m') (pd_UniqueID p) \<noteq> None)"
  using assms
proof (induction procs arbitrary: m)
  case (Cons proc procs)
  let ?m = "Enforce_manage opens hasSession digest host now proc m"
  note spec = Enforce_manage_spec [of ?m opens hasSession digest host now proc m, OF refl]
  have rest: "m' = Enforce_pending opens hasSession digest host now procs ?m"
    using Cons.prems(1) by (simp add: Enforce_pending_def)
  have other: "pd_UniqueID p \<noteq> pd_UniqueID proc" if "p \<in> set procs" for p
    using Cons.prems(2) that by (metis distinct.simps(2) image_eqI list.simps(9) list.set_map)
  have d: "distinct (map pd_UniqueID procs)" "pd_UniqueID proc \<notin> pd_UniqueID ` set procs" using Cons.prems(2) by simp_all
  note IH = Cons.IH [OF rest d(1)]
  have "pm_ok m'" if "pm_ok m" "\<forall>p \<in> set (proc # procs). map_of (pm_managed m) (pd_UniqueID p) = None"
    using IH spec(1) [OF that(1)] spec(2) other that by simp
  moreover have "map_of (pm_managed m') (pd_UniqueID proc) \<noteq> None \<or> map_of (pm_unmanageable m') (pd_UniqueID proc) \<noteq> None"
    using IH d(2) spec(4) by metis
  moreover have "map_of (pm_managed m') uid = map_of (pm_managed m) uid \<and> map_of (pm_unmanageable m') uid = map_of (pm_unmanageable m) uid"
    if "uid \<notin> pd_UniqueID ` set (proc # procs)" for uid
    using IH spec(2) [of uid] that by auto
  ultimately show ?case using IH by auto
qed (simp add: Enforce_pending_def)

text \<open>One enforcement: the table stays in order, holds no blocklisted and no dead process, and
  every process that a policy applies to is in it, unless opening it failed.\<close>

lemma Enforce_spec:
  assumes run: "Enforce lib eqf list opens hasSession digest env now pols m = (m', None)"
    and scan: "Scan lib eqf list pols env = Inr procs" and d: "distinct (map pd_UniqueID procs)" and ok: "pm_ok m"
  shows "pm_ok m'"
    and "map_of (pm_managed m') uid = Some inst \<Longrightarrow> \<exists>p \<in> set procs. pd_UniqueID p = uid \<and> \<not> Blocklisted lib p"
    and "p \<in> set procs \<Longrightarrow> \<not> Blocklisted lib p \<Longrightarrow> PolicySet_Match lib pols (Enforcer_Properties p env) \<noteq> [] \<Longrightarrow>
      map_of (pm_managed m') (pd_UniqueID p) \<noteq> None \<or> map_of (pm_unmanageable m') (pd_UniqueID p) \<noteq> None"
proof -
  let ?new = "filter (unknown lib pols env (map_of (pm_managed m))) procs"
  obtain m1 pending where s: "Enforce_scan lib pols env procs (m, []) = (m1, pending)" by fastforce
  note scan1 = Enforce_scan_spec [OF s d]
  define m2 where "m2 = Enforce_bookkeeping (set (map pd_UniqueID procs)) m1"
  have ok1: "pm_ok m1" using scan1 ok by blast
  note book = Enforce_bookkeeping_spec [OF ok1, of "set (map pd_UniqueID procs)", folded m2_def]
  have m': "m' = Enforce_pending opens hasSession digest (props_get env ''host.name'') now ?new m2"
    using run scan s scan1 by (auto simp: Enforce_def m2_def Enforce_pending_def Let_def split: if_splits)
  have dn: "distinct (map pd_UniqueID ?new)" using d by (simp add: distinct_map_filter)
  note pend = Enforce_pending_spec [OF m' dn]
  have managed: "map_of (pm_managed m2) u = (if u \<in> pd_UniqueID ` set procs \<and> u \<notin> pd_UniqueID ` {p \<in> set procs. Blocklisted lib p}
      then map_of (pm_managed m) u else None)" for u
    using book(2) scan1 by (simp add: restrict_map_def)
  show "pm_ok m'" using pend book(1) managed by (auto simp: unknown_def)
  have white: "\<not> Blocklisted lib p" if "p \<in> set procs" "pd_UniqueID p \<notin> pd_UniqueID ` {p \<in> set procs. Blocklisted lib p}" for p
    using that by blast
  show "\<exists>p \<in> set procs. pd_UniqueID p = uid \<and> \<not> Blocklisted lib p" if "map_of (pm_managed m') uid = Some inst"
  proof (cases "uid \<in> pd_UniqueID ` set ?new")
    case True
    then show ?thesis by (auto simp: unknown_def)
  next
    case False
    with pend that have "map_of (pm_managed m2) uid = Some inst" by auto
    then have u: "uid \<in> pd_UniqueID ` set procs" "uid \<notin> pd_UniqueID ` {p \<in> set procs. Blocklisted lib p}"
      using managed [of uid] by (auto split: if_splits)
    then show ?thesis using white by auto
  qed
  assume p: "p \<in> set procs" "\<not> Blocklisted lib p" "PolicySet_Match lib pols (Enforcer_Properties p env) \<noteq> []"
  have only: "q = p" if "q \<in> set procs" "pd_UniqueID q = pd_UniqueID p" for q
    using d p(1) that by (auto simp: distinct_map inj_on_def)
  show "map_of (pm_managed m') (pd_UniqueID p) \<noteq> None \<or> map_of (pm_unmanageable m') (pd_UniqueID p) \<noteq> None"
  proof (cases "p \<in> set ?new")
    case True
    with pend show ?thesis by blast
  next
    case False
    then have old: "map_of (pm_managed m) (pd_UniqueID p) \<noteq> None" using p by (simp add: unknown_def)
    have "pd_UniqueID p \<notin> pd_UniqueID ` {q \<in> set procs. Blocklisted lib q}" using only p(2) by auto
    then have "map_of (pm_managed m2) (pd_UniqueID p) \<noteq> None" using managed [of "pd_UniqueID p"] p(1) old by simp
    moreover have "pd_UniqueID p \<notin> pd_UniqueID ` set ?new" using only False by auto
    ultimately show ?thesis using pend by auto
  qed
qed

lemma ProcessManager_Stop_ok: "pm_ok m \<Longrightarrow> pm_ok (ProcessManager_Stop m)"
  by (auto simp: pm_ok_def ProcessManager_Stop_def Invocation_Done_def Invocation_Stop_def)

section \<open>The scan looks where the policies do\<close>

lemma Filter_loop_Inr:
  assumes "Filter_loop lib eqf fs cs = Inr fs'"
  shows "\<exists>gs. fs' = fs @ gs \<and> length gs = length cs \<and>
    list_all2 (\<lambda>c g. makeCriterionFilter lib eqf c = Inr g) cs gs"
  using assms
proof (induction cs arbitrary: fs)
  case (Cons c cs)
  then obtain g where g: "makeCriterionFilter lib eqf c = Inr g" "Filter_loop lib eqf (fs @ [g]) cs = Inr fs'"
    by (auto split: sum.splits)
  from Cons.IH [OF g(2)] obtain gs where "fs' = (fs @ [g]) @ gs" "length gs = length cs"
    "list_all2 (\<lambda>c g. makeCriterionFilter lib eqf c = Inr g) cs gs" by blast
  with g(1) show ?case by (intro exI [of _ "g # gs"]) simp
qed simp

text \<open>For a criterion that compares exactly or up to the case of ASCII letters.\<close>

definition plain_criterion :: "criterion \<Rightarrow> properties \<Rightarrow> bool" where
  "plain_criterion c props \<longleftrightarrow> cr_Comparison c = ComparisonExact \<or>
     cr_Comparison c = ComparisonIgnoreCase \<and> is_ascii (cr_Value c) \<and> is_ascii (props_get props (cr_Key c))"

lemma comparison_distinct [simp]: "ComparisonExact \<noteq> ComparisonIgnoreCase" "ComparisonIgnoreCase \<noteq> ComparisonExact"
  by (simp_all add: ComparisonExact_def ComparisonIgnoreCase_def)

lemma criterion_filter_match:
  assumes "makeCriterionFilter lib eqf c = Inr g" and "plain_criterion c props"
  shows "g props = Criterion_Match lib c props"
  using assms
  by (auto simp: makeCriterionFilter_def makeMatcher_def plain_criterion_def Criterion_Match_def
      strings_EqualFold_def strings_ToLower_def Let_def split: if_splits sum.splits option.splits)

lemma Filter_match:
  assumes "Enforcer_Filter lib eqf cs env = Inr (Some f)" and "\<forall>c \<in> set cs. plain_criterion c (Enforcer_Properties p env)"
  shows "f p = Criteria_Match lib cs (Enforcer_Properties p env)"
proof -
  from assms(1) obtain gs where gs: "Filter_loop lib eqf [] cs = Inr gs" "gs \<noteq> []"
    "f = (\<lambda>p. list_all (\<lambda>g. g (Enforcer_Properties p env)) gs)"
    by (auto simp: Enforcer_Filter_def Let_def split: sum.splits if_splits)
  from Filter_loop_Inr [OF gs(1)] have l: "length gs = length cs"
    "list_all2 (\<lambda>c g. makeCriterionFilter lib eqf c = Inr g) cs gs" by auto
  have "list_all (\<lambda>g. g (Enforcer_Properties p env)) gs =
      list_all (\<lambda>c. Criterion_Match lib c (Enforcer_Properties p env)) cs"
    using l(2) assms(2)
    by (induction rule: list_all2_induct) (auto simp: criterion_filter_match)
  with gs(2,3) l(1) show ?thesis by (auto simp: Criteria_Match_def)
qed

section \<open>What becomes of a managed process\<close>

text \<open>\<^verbatim>\<open>Stop\<close> cancels the context and waits: wherever the goroutine is, it then ends.\<close>

lemma manage_cancelled: "manage ph [ContextDone running] iv = Invocation_Stop iv"
  by (cases ph) (simp_all add: manage_event_def maintain_def waitForAquisition_def waitForAbsorption_def Invocation_Stop_def)

definition violation :: "lstate \<Rightarrow> time \<Rightarrow> bool" where
  "violation s now \<longleftrightarrow> (if lt_Acquired s then ls_Status (lt_Lease s) \<noteq> Active \<or> Lease_Expired (lt_Lease s) now
     else \<not> lt_LeaseNotRequired s \<and> \<not> lt_Online s)"

lemma maintain_never_respawns: "snd (maintain e iv) \<noteq> Some True"
  by (auto simp: maintain_def Let_def split: maintain_event.split option.split)

text \<open>
  Over a run of events: the process was sent a termination exactly if, before management ended,
  some state was a violation and the termination went through; then, and only then, the user was
  told, once.
\<close>

fun managed_states :: "maintain_event list \<Rightarrow> (lstate \<times> time \<times> goerror option) list" where
  "managed_states [] = []"
| "managed_states (AbsorptionRequest p # es) = managed_states es"
| "managed_states (AbsorptionTimeout # es) = managed_states es"
| "managed_states (ContextDone b # es) = []"
| "managed_states (StatesClosed # es) = []"
| "managed_states (LeaseState s now t la # es) =
     (s, now, t) # (if \<not> lt_Acquired s \<and> lt_LeaseNotRequired s then [] else managed_states es)"

definition told :: "invocation \<Rightarrow> string list" where
  "told iv = (if iv_session iv then [pd_Name (iv_process iv)] else [])"

lemma maintain_effect:
  assumes "maintain (LeaseState s now t la) iv = (iv', r)"
  shows "r = (if \<not> lt_Acquired s \<and> lt_LeaseNotRequired s then Some False else None) \<and> told iv' = told iv \<and>
    (iv_termPending iv' \<longleftrightarrow> iv_termPending iv \<or> violation s now \<and> t = None) \<and>
    iv_notices iv' = iv_notices iv @ (if iv_termPending iv' \<and> \<not> iv_termPending iv then told iv else [])"
  using assms
  by (auto simp: maintain_def maintain_terminate_def violation_def recordState_def told_def Let_def split: if_splits option.splits)

lemma manage_outcome:
  "(iv_termPending (manage Maintaining es iv) \<longleftrightarrow>
      iv_termPending iv \<or> (\<exists>(s, now, t) \<in> set (managed_states es). violation s now \<and> t = None)) \<and>
   iv_notices (manage Maintaining es iv) =
      iv_notices iv @ (if iv_termPending (manage Maintaining es iv) \<and> \<not> iv_termPending iv then told iv else [])"
proof (induction es arbitrary: iv rule: managed_states.induct)
  case (6 s now t la es)
  obtain iv' r where run: "maintain (LeaseState s now t la) iv = (iv', r)" by fastforce
  note effect = maintain_effect [OF run]
  show ?case
  proof (cases "\<not> lt_Acquired s \<and> lt_LeaseNotRequired s")
    case True
    with run effect show ?thesis by (simp add: manage_event_def)
  next
    case False
    with run effect have step: "manage Maintaining (LeaseState s now t la # es) iv = manage Maintaining es iv'"
      by (simp add: manage_event_def)
    from 6 [OF False, of iv'] effect False show ?thesis unfolding step by auto
  qed
qed (auto simp: manage_event_def maintain_def)

section \<open>Policy updates\<close>

lemma hash_keys: "fst ` set (foldl (\<lambda>m p. gm_put m (hash p) p) m ps) = fst ` set m \<union> hash ` set ps"
  by (induction ps arbitrary: m) auto

lemma hash_filter_empty:
  "filter (\<lambda>(key, pol). map_of (foldl (\<lambda>m p. gm_put m (hash p) p) [] b) key = None)
     (foldl (\<lambda>m p. gm_put m (hash p) p) [] a) = [] \<longleftrightarrow> hash ` set a \<subseteq> hash ` set b"
proof -
  let ?f = "\<lambda>ps. foldl (\<lambda>m p. gm_put m (hash p) p) [] ps"
  have "filter (\<lambda>(key, pol). map_of (?f b) key = None) (?f a) = [] \<longleftrightarrow> fst ` set (?f a) \<subseteq> fst ` set (?f b)"
    unfolding filter_empty_conv map_of_eq_None_iff by (simp add: image_subset_iff split_beta)
  then show ?thesis using hash_keys [of hash "[]"] by simp
qed

lemma PolicySet_Diff_Some:
  assumes "PolicySet_Diff hash (Some a) (Some b) = (adds, dels)"
  shows "(adds = None) = (hash ` set b \<subseteq> hash ` set a)" "adds \<noteq> Some []"
    "(dels = None) = (hash ` set a \<subseteq> hash ` set b)" "dels \<noteq> Some []"
  using assms hash_filter_empty [of hash a b] hash_filter_empty [of hash b a]
  by (auto simp: PolicySet_Diff_def Let_def split: if_splits)

lemma PolicyManager_Update_changed:
  assumes "PolicyManager_Update hash cached (Inr updated) m = (m', changed, ok)"
  shows "ok \<and> po_policies m' = updated \<and> (cached \<longrightarrow> po_cache m' = updated) \<and>
    (changed \<longleftrightarrow> hash ` set (case po_policies m of None \<Rightarrow> [] | Some ps \<Rightarrow> ps) \<noteq>
      hash ` set (case updated of None \<Rightarrow> [] | Some ps \<Rightarrow> ps))"
proof -
  obtain adds dels where d: "PolicySet_Diff hash (po_policies m) updated = (adds, dels)" by fastforce
  show ?thesis
  proof (cases "po_policies m"; cases updated)
    fix a b assume "po_policies m = Some a" "updated = Some b"
    with PolicySet_Diff_Some [of hash a b adds dels] d assms show ?thesis
      by (cases adds; cases dels) (auto simp: PolicyManager_Update_def Let_def split: if_splits)
  qed (use d assms in \<open>auto simp: PolicyManager_Update_def PolicySet_Diff_def Let_def neq_Nil_conv
      split: option.splits if_splits\<close>)
qed

end
