(* ===== verification/Sessions.thy ===== *)
theory Sessions
  imports Enforcer
begin

text \<open>
  The rest of the enforcement service: opening and terminating a process
  (\<^verbatim>\<open>src/enforcer/rights_windows.go\<close>, \<^verbatim>\<open>process_windows.go\<close>), the sessions of the users
  (\<^verbatim>\<open>session_windows.go\<close>, \<^verbatim>\<open>sessionmanager_windows.go\<close>) and what the user interface process does with
  the messages it is sent (\<^verbatim>\<open>src/enforcerui/\<close>). \<^verbatim>\<open>winproc\<close> is the record \<open>winproc\<close>; the sessions
  found and the answers of the system to \<^verbatim>\<open>Connect\<close> are arguments. A session is a pointer in the code,
  compared by identity: here it carries the number it was created with. The goroutine that connects a
  session is a list of things to do, \<open>connecting\<close>, which \<open>connecting_step\<close> takes one by one: the calls
  of \<^verbatim>\<open>Connect\<close>, of the manager's mutex, and of the session's two sends.
\<close>

section \<open>Opening processes\<close>

datatype rights = QueryLimitedInformation | Synchronize | TerminateRight

definition activeRights :: "rights set list" where
  "activeRights = [{QueryLimitedInformation, Synchronize, TerminateRight}]"

definition passiveRights :: "rights set list" where
  "passiveRights = [{QueryLimitedInformation, Synchronize}, {QueryLimitedInformation}]"

record 'r winproc =
  wp_Open :: "string \<Rightarrow> rights set \<Rightarrow> goerror + 'r"
  wp_UniqueID :: "'r \<Rightarrow> goerror + string"
  wp_Terminate :: "'r \<Rightarrow> goerror option"

fun open_loop :: "'r winproc \<Rightarrow> string \<Rightarrow> rights set list \<Rightarrow> goerror + 'r \<Rightarrow> goerror + 'r" where
  "open_loop wp pid [] r = r"
| "open_loop wp pid (rights # rest) r =
     (case wp_Open wp pid rights of Inr ref \<Rightarrow> Inr ref | Inl err \<Rightarrow> open_loop wp pid rest (Inl err))"

definition openProcess :: "'r winproc \<Rightarrow> string \<Rightarrow> bool \<Rightarrow> goerror + 'r" where
  "openProcess wp pid passive =
     (if \<not> passive
      then (case open_loop wp pid activeRights (Inl '''') of
              Inr ref \<Rightarrow> Inr ref
            | Inl err \<Rightarrow> open_loop wp pid passiveRights (Inl err))
      else open_loop wp pid passiveRights (Inl ''''))"

definition Process_open :: "'r winproc \<Rightarrow> procdata \<Rightarrow> bool \<Rightarrow> goerror + 'r" where
  "Process_open wp data passive =
     (case openProcess wp (pd_ID data) passive of
        Inl err \<Rightarrow> Inl err
      | Inr ref \<Rightarrow>
          (case wp_UniqueID wp ref of
             Inl err \<Rightarrow> Inl (''unable to retrieve unique ID for process: '' @ err)
           | Inr uid \<Rightarrow> if pd_UniqueID data \<noteq> uid then Inl ''the process to be managed has terminated'' else Inr ref))"

definition NewProcess :: "'r winproc \<Rightarrow> bool \<Rightarrow> procdata \<Rightarrow> goerror option" where
  "NewProcess wp passive data =
     (case openProcess wp (pd_ID data) passive of
        Inl err \<Rightarrow> Some err
      | Inr ref \<Rightarrow>
          (case wp_UniqueID wp ref of
             Inl err \<Rightarrow> Some (''unable to retrieve unique ID for process: '' @ err)
           | Inr uid \<Rightarrow> if pd_UniqueID data \<noteq> uid then Some ''the process to be managed has terminated'' else None))"

definition Process_Running :: "'r winproc \<Rightarrow> procdata \<Rightarrow> bool" where
  "Process_Running wp data = (case Process_open wp data True of Inl err \<Rightarrow> False | Inr ref \<Rightarrow> True)"

text \<open>\<^verbatim>\<open>Terminate\<close>, with the reference that was terminated.\<close>

definition Process_Terminate :: "'r winproc \<Rightarrow> bool \<Rightarrow> procdata \<Rightarrow> 'r option \<times> goerror option" where
  "Process_Terminate wp passive data =
     (case Process_open wp data passive of
        Inl err \<Rightarrow> (None, None)
      | Inr ref \<Rightarrow> (Some ref, wp_Terminate wp ref))"

section \<open>Messages\<close>

record message =
  ms_Type :: string
  ms_Policies :: policies
  ms_Leases :: leases
  ms_ProcTerm :: string

definition TypePolicyUpdate :: string where "TypePolicyUpdate = ''policy.update''"
definition TypeLeaseUpdate :: string where "TypeLeaseUpdate = ''lease.update''"
definition TypeProcessTermination :: string where "TypeProcessTermination = ''process.termination''"

record session =
  ss_key :: nat
  ss_user :: string
  ss_domain :: string
  ss_connected :: bool
  ss_outbound :: "message list"

definition NewSession :: "nat \<Rightarrow> string \<Rightarrow> string \<Rightarrow> session" where
  "NewSession key user domain = \<lparr>ss_key = key, ss_user = user, ss_domain = domain, ss_connected = False, ss_outbound = []\<rparr>"

definition bufSize :: nat where "bufSize = 64"

definition Session_Send :: "message \<Rightarrow> session \<Rightarrow> session \<times> bool" where
  "Session_Send msg s =
     (if length (ss_outbound s) < bufSize then (s\<lparr>ss_outbound := ss_outbound s @ [msg]\<rparr>, True) else (s, False))"

definition SendPolicies :: "policies \<Rightarrow> session \<Rightarrow> session \<times> bool" where
  "SendPolicies pols s = Session_Send \<lparr>ms_Type = TypePolicyUpdate, ms_Policies = pols, ms_Leases = [], ms_ProcTerm = ''''\<rparr> s"

definition SendLeases :: "leases \<Rightarrow> session \<Rightarrow> session \<times> bool" where
  "SendLeases ls s = Session_Send \<lparr>ms_Type = TypeLeaseUpdate, ms_Policies = [], ms_Leases = ls, ms_ProcTerm = ''''\<rparr> s"

definition SendProcessTermination :: "string \<Rightarrow> session \<Rightarrow> session \<times> bool" where
  "SendProcessTermination name s =
     Session_Send \<lparr>ms_Type = TypeProcessTermination, ms_Policies = [], ms_Leases = [], ms_ProcTerm = name\<rparr> s"

definition Session_Connect :: "launch \<Rightarrow> session \<Rightarrow> session \<times> goerror option" where
  "Session_Connect la s =
     (if ss_connected s then (s, Some ''a connection has already been established'')
      else case la_token la of
        Inl err \<Rightarrow> (s, Some err)
      | Inr token \<Rightarrow>
          (case validateTokenForUser token (ss_user s) (ss_domain s) of
             Some err \<Rightarrow> (s, Some err)
           | None \<Rightarrow>
               (case la_stdin la of
                  Some err \<Rightarrow> (s, Some err)
                | None \<Rightarrow>
                    (case la_stdout la of
                       Some err \<Rightarrow> (s, Some err)
                     | None \<Rightarrow> (case la_start la of Inl err \<Rightarrow> (s, Some err) | Inr pid \<Rightarrow> (s\<lparr>ss_connected := True\<rparr>, None))))))"

definition Session_Disconnect :: "session \<Rightarrow> session \<times> goerror option" where
  "Session_Disconnect s =
     (if \<not> ss_connected s then (s, Some ''a connection to the session has not been established'')
      else (s\<lparr>ss_connected := False\<rparr>, None))"

section \<open>The session manager\<close>

record attempt =
  at_Attempt :: time
  at_Wait :: duration

record sessiondata =
  sd_ID :: nat
  sd_UserName :: string
  sd_UserDomain :: string

datatype connecting =
    Connecting nat session
  | Registering nat nat time "goerror option"
  | SendingPolicies nat nat policies leases
  | SendingLeases nat nat leases

text \<open>\<open>sm_dropped\<close> are the sessions that have left the table and been disconnected.\<close>

record sessionmanager =
  sm_managed :: "(nat, session) gomap"
  sm_attempted :: "(nat, attempt) gomap"
  sm_pols :: policies
  sm_leases :: leases
  sm_fresh :: nat
  sm_connecting :: "connecting list"
  sm_dropped :: "session list"

definition NewSessionManager :: sessionmanager where
  "NewSessionManager = \<lparr>sm_managed = [], sm_attempted = [], sm_pols = [], sm_leases = [], sm_fresh = 0,
     sm_connecting = [], sm_dropped = []\<rparr>"

definition minWait :: duration where "minWait = 30 * Second"
definition maxWait :: duration where "maxWait = 5 * Minute"

definition nextSessionAttempt :: "attempt option \<Rightarrow> time \<Rightarrow> attempt" where
  "nextSessionAttempt lst now =
     (let prev = (case lst of None \<Rightarrow> \<lparr>at_Attempt = 0, at_Wait = 0\<rparr> | Some a \<Rightarrow> a) in
      if at_Attempt prev = 0 then \<lparr>at_Attempt = now, at_Wait = minWait\<rparr>
      else
        let wait = at_Wait prev; wait = wait * 2; wait = (if wait > maxWait then maxWait else wait)
        in \<lparr>at_Attempt = now, at_Wait = wait\<rparr>)"

definition Scan_pending :: "sessiondata list \<Rightarrow> time \<Rightarrow> sessionmanager \<Rightarrow> sessiondata list" where
  "Scan_pending sessions now m =
     filter (\<lambda>sd. map_of (sm_managed m) (sd_ID sd) = None \<and>
       (case map_of (sm_attempted m) (sd_ID sd) of None \<Rightarrow> True | Some a \<Rightarrow> \<not> Time_Sub now (at_Attempt a) < at_Wait a)) sessions"

definition Scan_new :: "sessiondata \<Rightarrow> sessionmanager \<Rightarrow> sessionmanager" where
  "Scan_new sd m =
     (let session = NewSession (sm_fresh m) (sd_UserName sd) (sd_UserDomain sd)
      in m\<lparr>sm_managed := gm_put (sm_managed m) (sd_ID sd) session, sm_fresh := Suc (sm_fresh m),
           sm_connecting := sm_connecting m @ [Connecting (sd_ID sd) session]\<rparr>)"

definition SessionManager_Scan :: "goerror + sessiondata list \<Rightarrow> time \<Rightarrow> sessionmanager \<Rightarrow> sessionmanager" where
  "SessionManager_Scan found now m =
     (case found of
        Inl err \<Rightarrow> m
      | Inr sessions \<Rightarrow>
          (let pending = Scan_pending sessions now m;
               scanned = set (map sd_ID sessions);
               dead = (\<lambda>(sid, s). sid \<notin> scanned \<or> \<not> ss_connected s);
               m = m\<lparr>sm_dropped := sm_dropped m @ map (\<lambda>(sid, s). fst (Session_Disconnect s)) (filter dead (sm_managed m)),
                     sm_managed := filter (\<lambda>x. \<not> dead x) (sm_managed m)\<rparr>;
               m = m\<lparr>sm_attempted := filter (\<lambda>(sid, _). sid \<in> scanned) (sm_attempted m)\<rparr>
           in foldl (\<lambda>m sd. Scan_new sd m) m pending))"

text \<open>
  The goroutine that \<^verbatim>\<open>Scan\<close> starts for a new session. A session that has left the table keeps being
  used by its goroutine, but nobody looks at it any more.
\<close>

definition on_session :: "nat \<Rightarrow> nat \<Rightarrow> (session \<Rightarrow> session) \<Rightarrow> sessionmanager \<Rightarrow> sessionmanager" where
  "on_session sid key f m =
     (case map_of (sm_managed m) sid of
        Some s \<Rightarrow> if ss_key s = key then m\<lparr>sm_managed := gm_put (sm_managed m) sid (f s)\<rparr> else m
      | None \<Rightarrow> m)"

definition connecting_step :: "launch \<Rightarrow> time \<Rightarrow> connecting \<Rightarrow> sessionmanager \<Rightarrow> sessionmanager \<times> connecting list" where
  "connecting_step la now g m =
     (case g of
        Connecting sid session \<Rightarrow>
          (on_session sid (ss_key session) (\<lambda>s. fst (Session_Connect la s)) m,
           [Registering sid (ss_key session) now (snd (Session_Connect la session))])
      | Registering sid key now err \<Rightarrow>
          (case err of
             Some e \<Rightarrow>
               (if (case map_of (sm_managed m) sid of Some s \<Rightarrow> ss_key s = key | None \<Rightarrow> False)
                then m\<lparr>sm_managed := gm_delete (sm_managed m) sid,
                       sm_attempted := gm_put (sm_attempted m) sid (nextSessionAttempt (map_of (sm_attempted m) sid) now)\<rparr>
                else m, [])
           | None \<Rightarrow> (m\<lparr>sm_attempted := gm_delete (sm_attempted m) sid\<rparr>, [SendingPolicies sid key (sm_pols m) (sm_leases m)]))
      | SendingPolicies sid key pols ls \<Rightarrow>
          (on_session sid key (\<lambda>s. fst (SendPolicies pols s)) m, [SendingLeases sid key ls])
      | SendingLeases sid key ls \<Rightarrow> (on_session sid key (\<lambda>s. fst (SendLeases ls s)) m, []))"

definition SessionManager_connect :: "launch \<Rightarrow> time \<Rightarrow> nat \<Rightarrow> sessionmanager \<Rightarrow> sessionmanager" where
  "SessionManager_connect la now i m =
     (if i < length (sm_connecting m)
      then let (m', gs) = connecting_step la now (sm_connecting m ! i) m
           in m'\<lparr>sm_connecting := take i (sm_connecting m) @ gs @ drop (Suc i) (sm_connecting m)\<rparr>
      else m)"

definition SessionManager_UpdatePolicies :: "policies \<Rightarrow> sessionmanager \<Rightarrow> sessionmanager" where
  "SessionManager_UpdatePolicies pols m =
     m\<lparr>sm_pols := pols, sm_managed := map (\<lambda>(sid, s). (sid, fst (SendPolicies pols s))) (sm_managed m)\<rparr>"

definition SessionManager_UpdateLeases :: "leases \<Rightarrow> sessionmanager \<Rightarrow> sessionmanager" where
  "SessionManager_UpdateLeases ls m =
     m\<lparr>sm_leases := ls, sm_managed := map (\<lambda>(sid, s). (sid, fst (SendLeases ls s))) (sm_managed m)\<rparr>"

definition SessionManager_Send :: "message \<Rightarrow> sessionmanager \<Rightarrow> sessionmanager" where
  "SessionManager_Send msg m = m\<lparr>sm_managed := map (\<lambda>(sid, s). (sid, fst (Session_Send msg s))) (sm_managed m)\<rparr>"

definition SessionManager_Stop :: "sessionmanager \<Rightarrow> sessionmanager" where
  "SessionManager_Stop m = m\<lparr>sm_dropped := sm_dropped m @ map (\<lambda>(sid, s). fst (Session_Disconnect s)) (sm_managed m),
     sm_managed := []\<rparr>"

text \<open>The goroutine of a session that writes to the process takes the oldest message.\<close>

definition Session_deliver :: "session \<Rightarrow> (message \<times> session) option" where
  "Session_deliver s = (case ss_outbound s of [] \<Rightarrow> None | msg # rest \<Rightarrow> Some (msg, s\<lparr>ss_outbound := rest\<rparr>))"

section \<open>The user interface process\<close>

record uistate =
  us_Policies :: policies
  us_Leases :: leases
  us_Running :: "properties list"

record notice =
  no_Title :: string
  no_Message :: string

definition State_Summary :: "uistate \<Rightarrow> string" where
  "State_Summary s =
     (let summary = (if length (us_Policies s) = 1 then ''Enforcing 1 policy''
            else ''Enforcing '' @ itoa (length (us_Policies s)) @ '' policies'')
      in if length (us_Running s) = 0 then summary
         else if length (us_Running s) = 1 then summary @ ''on 1 process''
         else summary @ ''on '' @ itoa (length (us_Running s)) @ '' processes'')"

text \<open>The tray: its two channels, the tool tip and the menu it shows, and the notices it has shown.\<close>

datatype menuitem = Separator | Action string

record tray =
  tr_open :: bool
  tr_states :: "uistate list"
  tr_notices :: "notice list"
  tr_tooltip :: string
  tr_menu :: "menuitem list"
  tr_shown :: "notice list"

definition trayBuffer :: nat where "trayBuffer = 128"

definition Tray_New :: tray where
  "Tray_New = \<lparr>tr_open = False, tr_states = [], tr_notices = [], tr_tooltip = '''', tr_menu = [], tr_shown = []\<rparr>"

definition Tray_Start :: "goerror option \<Rightarrow> tray \<Rightarrow> tray \<times> goerror option" where
  "Tray_Start created t =
     (if tr_open t then (t, Some ''the tray instance is already running'')
      else case created of
        Some err \<Rightarrow> (t, Some err)
      | None \<Rightarrow> (t\<lparr>tr_open := True, tr_states := [], tr_notices := []\<rparr>, None))"

definition Tray_Stop :: "tray \<Rightarrow> tray \<times> goerror option" where
  "Tray_Stop t =
     (if \<not> tr_open t then (t, Some ''the tray instance is not running'') else (t\<lparr>tr_open := False\<rparr>, None))"

definition Tray_Update :: "uistate \<Rightarrow> tray \<Rightarrow> tray" where
  "Tray_Update s t = (if tr_open t \<and> length (tr_states t) < trayBuffer then t\<lparr>tr_states := tr_states t @ [s]\<rparr> else t)"

definition Tray_Notify :: "notice \<Rightarrow> tray \<Rightarrow> tray" where
  "Tray_Notify n t = (if tr_open t \<and> length (tr_notices t) < trayBuffer then t\<lparr>tr_notices := tr_notices t @ [n]\<rparr> else t)"

definition Tray_menu_policy :: "uistate \<Rightarrow> policy \<Rightarrow> menuitem list" where
  "Tray_menu_policy s pol =
     (let desc = pol_Resource pol;
          name = props_get (pol_Properties pol) ''resource.name'';
          desc = (if name \<noteq> '''' then name else desc);
          desc = (if pol_Limit pol \<noteq> DefaultLimit then desc @ '': '' @ itoa (pol_Limit pol) else desc)
      in Action desc # map (\<lambda>l. Action (''  '' @ ls_HostUser l)) (Set_Resource (us_Leases s) (pol_Resource pol)))"

definition Tray_menu :: "string \<Rightarrow> string \<Rightarrow> uistate \<Rightarrow> menuitem list" where
  "Tray_menu name version s =
     Action (name @ '' '' @ version) #
     (if length (us_Policies s) > 0 then Separator # concat (map (Tray_menu_policy s) (us_Policies s)) else [])"

definition Tray_manage_state :: "string \<Rightarrow> string \<Rightarrow> tray \<Rightarrow> tray option" where
  "Tray_manage_state name version t =
     (case tr_states t of
        [] \<Rightarrow> None
      | s # rest \<Rightarrow> Some (t\<lparr>tr_states := rest, tr_tooltip := State_Summary s, tr_menu := Tray_menu name version s\<rparr>))"

definition Tray_manage_notice :: "tray \<Rightarrow> tray option" where
  "Tray_manage_notice t =
     (case tr_notices t of [] \<Rightarrow> None | n # rest \<Rightarrow> Some (t\<lparr>tr_notices := rest, tr_shown := tr_shown t @ [n]\<rparr>))"

record ui =
  ui_state :: uistate
  ui_tray :: "tray option"

definition UI_New :: "goerror option \<Rightarrow> goerror + ui" where
  "UI_New created =
     (case Tray_Start created Tray_New of
        (t, Some err) \<Rightarrow> Inl err
      | (t, None) \<Rightarrow> Inr \<lparr>ui_state = \<lparr>us_Policies = [], us_Leases = [], us_Running = []\<rparr>, ui_tray = Some t\<rparr>)"

definition UI_Close :: "ui \<Rightarrow> ui \<times> goerror option" where
  "UI_Close u = (case ui_tray u of None \<Rightarrow> (u, None) | Some t \<Rightarrow> (u\<lparr>ui_tray := None\<rparr>, snd (Tray_Stop t)))"

definition UI_Handle :: "message \<Rightarrow> ui \<Rightarrow> ui" where
  "UI_Handle msg u =
     (case ui_tray u of
        None \<Rightarrow> u
      | Some t \<Rightarrow>
          if ms_Type msg = TypePolicyUpdate
          then (let u = u\<lparr>ui_state := (ui_state u)\<lparr>us_Policies := ms_Policies msg\<rparr>\<rparr>
                in u\<lparr>ui_tray := Some (Tray_Update (ui_state u) t)\<rparr>)
          else if ms_Type msg = TypeLeaseUpdate
          then (let u = u\<lparr>ui_state := (ui_state u)\<lparr>us_Leases := ms_Leases msg\<rparr>\<rparr>
                in u\<lparr>ui_tray := Some (Tray_Update (ui_state u) t)\<rparr>)
          else if ms_Type msg = TypeProcessTermination
          then u\<lparr>ui_tray := Some (Tray_Notify \<lparr>no_Title = ''No licenses available'',
            no_Message = ''The '' @ ms_ProcTerm msg @ '' process has been terminated because no licenses are available.''\<rparr> t)\<rparr>
          else u)"

section \<open>Only the intended process is touched\<close>

lemma Process_open_same: "Process_open wp data passive = Inr ref \<Longrightarrow> wp_UniqueID wp ref = Inr (pd_UniqueID data)"
  by (auto simp: Process_open_def split: sum.splits if_splits)

lemma NewProcess_open: "NewProcess wp passive data = None \<longleftrightarrow> (\<exists>ref. Process_open wp data passive = Inr ref)"
  by (auto simp: NewProcess_def Process_open_def split: sum.splits if_splits)

lemma open_loop_Inr:
  "open_loop wp pid rs r = Inr ref \<Longrightarrow> r = Inr ref \<or> (\<exists>rights \<in> set rs. wp_Open wp pid rights = Inr ref)"
  by (induction rs arbitrary: r) (fastforce split: sum.splits)+

lemma openProcess_passive:
  assumes "openProcess wp pid True = Inr ref"
  shows "\<exists>rights. TerminateRight \<notin> rights \<and> wp_Open wp pid rights = Inr ref"
proof -
  from assms obtain rights where "rights \<in> set passiveRights" "wp_Open wp pid rights = Inr ref"
    using open_loop_Inr [of wp pid passiveRights "Inl []" ref] by (auto simp: openProcess_def)
  moreover from this(1) have "TerminateRight \<notin> rights" by (auto simp: passiveRights_def)
  ultimately show ?thesis by blast
qed

section \<open>The session table\<close>

definition attempt_ok :: "attempt \<Rightarrow> bool" where
  "attempt_ok a \<longleftrightarrow> minWait \<le> at_Wait a \<and> at_Wait a \<le> maxWait"

definition sm_ok :: "sessionmanager \<Rightarrow> bool" where
  "sm_ok m \<longleftrightarrow> gm_wf (sm_managed m) \<and> gm_wf (sm_attempted m) \<and>
     (\<forall>(sid, s) \<in> set (sm_managed m). length (ss_outbound s) \<le> bufSize \<and> ss_key s < sm_fresh m) \<and>
     (\<forall>(sid, a) \<in> set (sm_attempted m). attempt_ok a)"

lemma nextSessionAttempt_ok:
  "(\<forall>a. lst = Some a \<longrightarrow> attempt_ok a) \<Longrightarrow> attempt_ok (nextSessionAttempt lst now)"
  by (cases lst) (auto simp: nextSessionAttempt_def attempt_ok_def minWait_def maxWait_def Minute_def Second_def Let_def)

inductive sm_step :: "sessionmanager \<Rightarrow> sessionmanager \<Rightarrow> bool" where
  scan: "sm_step m (SessionManager_Scan found now m)"
| connects: "sm_step m (SessionManager_connect la now i m)"
| policies: "sm_step m (SessionManager_UpdatePolicies pols m)"
| leases: "sm_step m (SessionManager_UpdateLeases ls m)"
| send: "sm_step m (SessionManager_Send msg m)"
| deliver: "map_of (sm_managed m) sid = Some s \<Longrightarrow> Session_deliver s = Some (msg, s') \<Longrightarrow>
    sm_step m (m\<lparr>sm_managed := gm_put (sm_managed m) sid s'\<rparr>)"
| exits: "map_of (sm_managed m) sid = Some s \<Longrightarrow>
    sm_step m (m\<lparr>sm_managed := gm_put (sm_managed m) sid (s\<lparr>ss_connected := False\<rparr>)\<rparr>)"
| stops: "sm_step m (SessionManager_Stop m)"

text \<open>The invariant as a property of the two tables, read by lookup.\<close>

definition session_ok :: "nat \<Rightarrow> session \<Rightarrow> bool" where
  "session_ok fresh s \<longleftrightarrow> length (ss_outbound s) \<le> bufSize \<and> ss_key s < fresh"

lemma Send_ok:
  "session_ok n s \<Longrightarrow> session_ok n (fst (Session_Send msg s))"
  "ss_key (fst (Session_Send msg s)) = ss_key s"
  by (auto simp: session_ok_def Session_Send_def)

lemma map_sessions_ok:
  assumes "sm_ok m" and "\<And>s. session_ok (sm_fresh m) s \<Longrightarrow> session_ok (sm_fresh m) (f s)"
  shows "sm_ok (m\<lparr>sm_managed := map (\<lambda>(sid, s). (sid, f s)) (sm_managed m)\<rparr>)"
  using assms by (auto simp: sm_ok_def gm_wf_def session_ok_def comp_def split_def)

lemma gm_put_all: "\<forall>x \<in> set m. P x \<Longrightarrow> P (k, v) \<Longrightarrow> \<forall>x \<in> set (gm_put m k v). P x"
  by (induction m) (auto simp: gm_put_def)

lemma gm_delete_all: "\<forall>x \<in> set m. P x \<Longrightarrow> \<forall>x \<in> set (gm_delete m k). P x"
  by (induction m) (auto simp: gm_delete_def)

lemma put_session_ok:
  assumes "sm_ok m" and "session_ok (sm_fresh m) s"
  shows "sm_ok (m\<lparr>sm_managed := gm_put (sm_managed m) sid s\<rparr>)"
  using assms gm_put_all [of "sm_managed m" "\<lambda>(sid, s). session_ok (sm_fresh m) s" sid s]
  by (simp add: sm_ok_def session_ok_def)

lemma sm_ok_simps [simp]:
  "sm_ok (m\<lparr>sm_connecting := gs\<rparr>) = sm_ok m" "sm_ok (m\<lparr>sm_dropped := d\<rparr>) = sm_ok m"
  by (simp_all add: sm_ok_def)

lemma Scan_new_ok: "sm_ok m \<Longrightarrow> sm_ok (Scan_new sd m)"
  using gm_put_all [of "sm_managed m" "\<lambda>(sid, s). session_ok (Suc (sm_fresh m)) s" "sd_ID sd"
      "NewSession (sm_fresh m) (sd_UserName sd) (sd_UserDomain sd)"]
  by (fastforce simp: sm_ok_def session_ok_def Scan_new_def NewSession_def Let_def)

lemma Scan_news_ok: "sm_ok m \<Longrightarrow> sm_ok (foldl (\<lambda>m sd. Scan_new sd m) m sds)"
  by (induction sds arbitrary: m) (simp_all add: Scan_new_ok)

lemma managed_session_ok: "sm_ok m \<Longrightarrow> map_of (sm_managed m) sid = Some s \<Longrightarrow> session_ok (sm_fresh m) s"
  by (auto simp: sm_ok_def session_ok_def dest!: map_of_SomeD)

lemma on_session_ok:
  assumes "sm_ok m" and "\<And>s. session_ok (sm_fresh m) s \<Longrightarrow> session_ok (sm_fresh m) (f s)"
  shows "sm_ok (on_session sid key f m)"
  using assms managed_session_ok put_session_ok by (auto simp: on_session_def split: option.split)

lemma Connect_ok: "session_ok n s \<Longrightarrow> session_ok n (fst (Session_Connect la s))"
  by (auto simp: Session_Connect_def session_ok_def split: sum.split option.split)

lemma connecting_ok:
  assumes ok: "sm_ok m"
  shows "sm_ok (fst (connecting_step la now g m))"
proof (cases g)
  case (Registering sid key t err)
  have drop: "sm_ok (m\<lparr>sm_attempted := gm_delete (sm_attempted m) sid\<rparr>)"
    using ok gm_delete_all [of "sm_attempted m" "\<lambda>(_, a). attempt_ok a" sid] by (simp add: sm_ok_def)
  have "attempt_ok (nextSessionAttempt (map_of (sm_attempted m) sid) t)"
    by (rule nextSessionAttempt_ok) (use ok in \<open>auto simp: sm_ok_def dest!: map_of_SomeD\<close>)
  then have "sm_ok (m\<lparr>sm_managed := gm_delete (sm_managed m) sid,
      sm_attempted := gm_put (sm_attempted m) sid (nextSessionAttempt (map_of (sm_attempted m) sid) t)\<rparr>)"
    using ok gm_put_all [of "sm_attempted m" "\<lambda>(_, a). attempt_ok a" sid]
      gm_delete_all [of "sm_managed m" "\<lambda>(_, s). session_ok (sm_fresh m) s" sid]
    by (simp add: sm_ok_def session_ok_def)
  with Registering ok drop show ?thesis by (auto simp: connecting_step_def split: option.split)
qed (simp_all add: connecting_step_def SendPolicies_def SendLeases_def on_session_ok [OF ok] Connect_ok Send_ok)

lemma connect_ok: "sm_ok m \<Longrightarrow> sm_ok (SessionManager_connect la now i m)"
  using connecting_ok [of m la now "sm_connecting m ! i"] by (simp add: SessionManager_connect_def split_beta Let_def)

lemma sm_ok_filter: "sm_ok m \<Longrightarrow> sm_ok (m\<lparr>sm_managed := filter P (sm_managed m)\<rparr>)"
  "sm_ok m \<Longrightarrow> sm_ok (m\<lparr>sm_attempted := filter Q (sm_attempted m)\<rparr>)"
  by (auto simp: sm_ok_def)

lemma Scan_ok:
  assumes "sm_ok m"
  shows "sm_ok (SessionManager_Scan found now m)"
proof (cases found)
  case (Inr sessions)
  have "sm_ok (m\<lparr>sm_dropped := d, sm_managed := filter P (sm_managed m), sm_attempted := filter Q (sm_attempted m)\<rparr>)" for d P Q
    using assms sm_ok_filter(2) [OF sm_ok_filter(1), of "m\<lparr>sm_dropped := d\<rparr>" Q P] by simp
  with Inr show ?thesis unfolding SessionManager_Scan_def Let_def by (simp add: Scan_news_ok)
qed (simp add: SessionManager_Scan_def assms)

lemma sm_step_ok: "sm_step m m' \<Longrightarrow> sm_ok m \<Longrightarrow> sm_ok m'"
proof (induction rule: sm_step.induct)
  case (scan m found now)
  then show ?case by (rule Scan_ok)
next
  case (policies m pols)
  then show ?case using map_sessions_ok [of m "\<lambda>s. fst (SendPolicies pols s)"]
    by (simp add: SessionManager_UpdatePolicies_def SendPolicies_def Send_ok sm_ok_def)
next
  case (leases m ls)
  then show ?case using map_sessions_ok [of m "\<lambda>s. fst (SendLeases ls s)"]
    by (simp add: SessionManager_UpdateLeases_def SendLeases_def Send_ok sm_ok_def)
next
  case (send m msg)
  then show ?case using map_sessions_ok [of m "\<lambda>s. fst (Session_Send msg s)"]
    by (simp add: SessionManager_Send_def Send_ok)
next
  case (deliver m sid s msg s')
  then show ?case using managed_session_ok [of m sid s]
    by (intro put_session_ok) (auto simp: session_ok_def Session_deliver_def split: list.splits)
next
  case (exits m sid s)
  then show ?case using managed_session_ok [of m sid s] by (intro put_session_ok) (simp_all add: session_ok_def)
next
  case (connects m la now i)
  then show ?case by (rule connect_ok)
qed (simp add: SessionManager_Stop_def sm_ok_def)

lemma NewSessionManager_ok: "sm_ok NewSessionManager"
  by (simp add: sm_ok_def NewSessionManager_def)

interpretation smInv: initial_invariant sm_step sm_ok NewSessionManager
  by unfold_locales (fact sm_step_ok NewSessionManager_ok)+

lemma Scan_news_managed:
  "map_of (sm_managed (foldl (\<lambda>m sd. Scan_new sd m) m sds)) sid \<noteq> None \<longleftrightarrow> sid \<in> sd_ID ` set sds \<or> map_of (sm_managed m) sid \<noteq> None"
  by (induction sds arbitrary: m) (auto simp: Scan_new_def gm_lookup Let_def)

text \<open>After a scan the table holds the sessions that were found, except those that wait for a retry
  and those that have just been found disconnected.\<close>

lemma Scan_managed:
  assumes "sm_ok m"
  shows "map_of (sm_managed (SessionManager_Scan (Inr sessions) now m)) sid \<noteq> None \<longleftrightarrow> sid \<in> sd_ID ` set sessions \<and>
    (case map_of (sm_managed m) sid of Some s \<Rightarrow> ss_connected s
     | None \<Rightarrow> (case map_of (sm_attempted m) sid of None \<Rightarrow> True | Some a \<Rightarrow> at_Wait a \<le> Time_Sub now (at_Attempt a)))"
proof -
  let ?kept = "filter (\<lambda>x. \<not> (\<lambda>(sid, s). sid \<notin> set (map sd_ID sessions) \<or> \<not> ss_connected s) x) (sm_managed m)"
  have eq: "?kept = filter (\<lambda>(sid, s). sid \<in> sd_ID ` set sessions \<and> ss_connected s) (sm_managed m)"
    by (rule filter_cong) auto
  have kept: "map_of ?kept sid \<noteq> None \<longleftrightarrow> sid \<in> sd_ID ` set sessions \<and> (\<exists>s. map_of (sm_managed m) sid = Some s \<and> ss_connected s)"
    unfolding eq using assms by (simp add: sm_ok_def gm_lookup_filter split: option.split)
  have "map_of (sm_managed (SessionManager_Scan (Inr sessions) now m)) sid \<noteq> None \<longleftrightarrow>
      sid \<in> sd_ID ` set (Scan_pending sessions now m) \<or> map_of ?kept sid \<noteq> None"
    unfolding SessionManager_Scan_def Let_def sum.case Scan_news_managed by simp
  also have "\<dots> \<longleftrightarrow> sid \<in> sd_ID ` set sessions \<and>
    (case map_of (sm_managed m) sid of Some s \<Rightarrow> ss_connected s
     | None \<Rightarrow> (case map_of (sm_attempted m) sid of None \<Rightarrow> True | Some a \<Rightarrow> at_Wait a \<le> Time_Sub now (at_Attempt a)))"
    unfolding kept Scan_pending_def by (auto simp: not_less split: option.splits)
  finally show ?thesis .
qed

section \<open>The user interface runs as the user of the session\<close>

lemma Connect_user:
  assumes "Session_Connect la s = (s', None)"
  shows "la_token la = Inr (Inr (Inr (ss_user s, ss_domain s, True))) \<and> s' = s\<lparr>ss_connected := True\<rparr>"
  using assms by (auto simp: Session_Connect_def validateTokenForUser_def split: if_splits sum.splits option.splits)

section \<open>What the user sees\<close>

lemma type_distinct [simp]:
  "TypePolicyUpdate \<noteq> TypeLeaseUpdate" "TypeLeaseUpdate \<noteq> TypePolicyUpdate"
  "TypeProcessTermination \<noteq> TypePolicyUpdate" "TypeProcessTermination \<noteq> TypeLeaseUpdate"
  by (simp_all add: TypePolicyUpdate_def TypeLeaseUpdate_def TypeProcessTermination_def)

lemma Handle_tray [simp]: "ui_tray (UI_Handle msg u) = None \<longleftrightarrow> ui_tray u = None"
  by (auto simp: UI_Handle_def Let_def split: option.split)

lemma Handles_tray [simp]: "ui_tray (foldl (\<lambda>u msg. UI_Handle msg u) u msgs) = None \<longleftrightarrow> ui_tray u = None"
  by (induction msgs arbitrary: u) auto

text \<open>A session's queue is delivered in order: once it has been, the user interface has the policies
  that were sent last.\<close>

lemma Send_handled:
  assumes "SendPolicies pols s = (s', True)" and "ui_tray u \<noteq> None"
  shows "us_Policies (ui_state (foldl (\<lambda>u msg. UI_Handle msg u) u (ss_outbound s'))) = pols"
proof -
  from assms(1) obtain msg where msg: "ss_outbound s' = ss_outbound s @ [msg]" "ms_Type msg = TypePolicyUpdate" "ms_Policies msg = pols"
    by (auto simp: SendPolicies_def Session_Send_def split: if_splits)
  then show ?thesis using assms(2) Handles_tray [of u "ss_outbound s"]
    by (auto simp: UI_Handle_def Let_def split: option.split)
qed

text \<open>The tray, once it has worked off its channel.\<close>

fun Tray_drain :: "string \<Rightarrow> string \<Rightarrow> uistate list \<Rightarrow> tray \<Rightarrow> tray" where
  "Tray_drain name version [] t = t"
| "Tray_drain name version (s # ss) t =
     (case Tray_manage_state name version t of Some t' \<Rightarrow> Tray_drain name version ss t' | None \<Rightarrow> t)"

lemma Tray_drain_last:
  assumes "tr_states t = ss @ [s]"
  shows "tr_tooltip (Tray_drain name version (ss @ [s]) t) = State_Summary s \<and>
    tr_menu (Tray_drain name version (ss @ [s]) t) = Tray_menu name version s \<and>
    tr_states (Tray_drain name version (ss @ [s]) t) = []"
  using assms by (induction ss arbitrary: t) (simp_all add: Tray_manage_state_def)

lemma Handle_shown:
  assumes "ui_tray u = Some t" and "tr_open t" and "length (tr_states t) < trayBuffer"
    and "ms_Type msg = TypePolicyUpdate \<or> ms_Type msg = TypeLeaseUpdate"
  shows "\<exists>t'. ui_tray (UI_Handle msg u) = Some t' \<and>
    tr_tooltip (Tray_drain name version (tr_states t') t') = State_Summary (ui_state (UI_Handle msg u)) \<and>
    tr_menu (Tray_drain name version (tr_states t') t') = Tray_menu name version (ui_state (UI_Handle msg u))"
proof -
  let ?s = "ui_state (UI_Handle msg u)"
  let ?t = "t\<lparr>tr_states := tr_states t @ [?s]\<rparr>"
  have "ui_tray (UI_Handle msg u) = Some ?t"
    using assms by (auto simp: UI_Handle_def Tray_Update_def Let_def)
  moreover have "tr_states ?t = tr_states t @ [?s]" by simp
  ultimately show ?thesis using Tray_drain_last [of ?t "tr_states t" ?s name version] by auto
qed

end
