(* ===== verification/Service.thy ===== *)
theory Service
  imports Sessions
begin

text \<open>
  The enforcement service, \<^verbatim>\<open>src/enforcer/service_windows.go\<close>: it puts the policy manager, the
  session manager and the process manager to work. \<^verbatim>\<open>run\<close> loads and updates the policies and then
  starts three goroutines; a tick of one of their timers is a step here, as are the goroutines of the
  sessions and of the invocations. The goroutine of the sessions first reads the policies and then
  hands them to the session manager: these are two steps, since the policies may change in
  between. What the libraries answer (the client, the cache, the lists of processes and
  sessions) are arguments of the steps.
\<close>

section \<open>State\<close>

record 'r senv =
  se_lib :: golib
  se_eqf :: "string \<Rightarrow> string \<Rightarrow> bool"
  se_winproc :: "'r winproc"
  se_digest :: "string \<Rightarrow> string"
  se_hash :: "policy \<Rightarrow> string"
  se_env :: properties
  se_passive :: bool
  se_policyInterval :: duration

record service =
  sv_policies :: polmanager
  sv_sessions :: sessionmanager
  sv_procs :: procmanager
  sv_running :: bool
  sv_loaded :: bool
  sv_started :: bool
  sv_timer :: duration
  sv_prime :: "policies option"
  sv_primed :: bool

definition NewPolicyManager :: polmanager where
  "NewPolicyManager = \<lparr>po_policies = None, po_cache = None\<rparr>"

definition PolicyManager_Policies :: "polmanager \<Rightarrow> policies" where
  "PolicyManager_Policies m = (case po_policies m of None \<Rightarrow> [] | Some ps \<Rightarrow> ps)"

definition SessionManager_Session :: "nat \<Rightarrow> sessionmanager \<Rightarrow> session option" where
  "SessionManager_Session sid m = map_of (sm_managed m) sid"

definition Service_New :: service where
  "Service_New = \<lparr>sv_policies = NewPolicyManager, sv_sessions = NewSessionManager, sv_procs = NewProcessManager,
     sv_running = False, sv_loaded = False, sv_started = False, sv_timer = 0, sv_prime = None, sv_primed = False\<rparr>"

section \<open>Operations\<close>

definition Service_Start :: "service \<Rightarrow> service \<times> goerror option" where
  "Service_Start s =
     (if sv_running s then (s, Some ''the policy enforcement service is already running'')
      else (s\<lparr>sv_running := True\<rparr>, None))"

definition startup :: duration where "startup = 5 * Second"

definition Service_load ::
  "'r senv \<Rightarrow> (policies option \<times> goerror option) option \<Rightarrow> bool \<Rightarrow> cerr + policies option \<Rightarrow> service \<Rightarrow> service" where
  "Service_load E cache cached response s =
     (let pm = PolicyManager_Load cache (sv_policies s);
          (pm, _, started) = PolicyManager_Update (se_hash E) cached response pm
      in s\<lparr>sv_policies := pm, sv_started := started, sv_timer := (if started then se_policyInterval E else startup),
           sv_loaded := True\<rparr>)"

definition Service_update :: "'r senv \<Rightarrow> bool \<Rightarrow> cerr + policies option \<Rightarrow> service \<Rightarrow> service" where
  "Service_update E cached response s =
     (let (pm, changed, ok) = PolicyManager_Update (se_hash E) cached response (sv_policies s);
          s = s\<lparr>sv_policies := pm, sv_timer := (if \<not> ok \<and> \<not> sv_started s then startup else se_policyInterval E)\<rparr>
      in if changed
         then s\<lparr>sv_sessions := SessionManager_UpdatePolicies (PolicyManager_Policies (sv_policies s)) (sv_sessions s)\<rparr>
         else s)"

definition Service_enforce ::
  "'r senv \<Rightarrow> ((procdata \<Rightarrow> bool) \<Rightarrow> goerror + procdata list) \<Rightarrow> time \<Rightarrow> service \<Rightarrow> service" where
  "Service_enforce E list now s =
     s\<lparr>sv_procs := fst (Enforce (se_lib E) (se_eqf E) list (NewProcess (se_winproc E) (se_passive E))
        (\<lambda>p. SessionManager_Session (pd_SessionID p) (sv_sessions s) \<noteq> None) (se_digest E) (se_env E) now
        (PolicyManager_Policies (sv_policies s)) (sv_procs s))\<rparr>"

definition Service_prime :: "policies \<Rightarrow> goerror + sessiondata list \<Rightarrow> time \<Rightarrow> service \<Rightarrow> service" where
  "Service_prime pols found now s =
     s\<lparr>sv_sessions := SessionManager_Scan found now (SessionManager_UpdatePolicies pols (sv_sessions s)),
       sv_prime := None, sv_primed := True\<rparr>"

definition Service_scan :: "goerror + sessiondata list \<Rightarrow> time \<Rightarrow> service \<Rightarrow> service" where
  "Service_scan found now s = s\<lparr>sv_sessions := SessionManager_Scan found now (sv_sessions s)\<rparr>"

definition Service_shutdown :: "service \<Rightarrow> service" where
  "Service_shutdown s =
     s\<lparr>sv_procs := ProcessManager_Stop (sv_procs s), sv_sessions := SessionManager_Stop (sv_sessions s),
       sv_loaded := False, sv_prime := None, sv_primed := False\<rparr>"

definition Service_Stop :: "service \<Rightarrow> service" where
  "Service_Stop s = (if \<not> sv_running s then s else (Service_shutdown s)\<lparr>sv_running := False\<rparr>)"

section \<open>Steps\<close>

text \<open>\<^verbatim>\<open>winproc.List\<close> returns every process once.\<close>

inductive sv_step :: "'r senv \<Rightarrow> service \<Rightarrow> service \<Rightarrow> bool" for E where
  start: "Service_Start s = (s', None) \<Longrightarrow> sv_step E s s'"
| load: "sv_running s \<Longrightarrow> \<not> sv_loaded s \<Longrightarrow> sv_step E s (Service_load E cache cached response s)"
| update: "sv_loaded s \<Longrightarrow> sv_step E s (Service_update E cached response s)"
| enforce: "sv_loaded s \<Longrightarrow> (\<And>f procs. list f = Inr procs \<Longrightarrow> distinct (map pd_UniqueID procs)) \<Longrightarrow>
    sv_step E s (Service_enforce E list now s)"
| prime_read: "sv_loaded s \<Longrightarrow> \<not> sv_primed s \<Longrightarrow> sv_prime s = None \<Longrightarrow>
    sv_step E s (s\<lparr>sv_prime := Some (PolicyManager_Policies (sv_policies s))\<rparr>)"
| prime: "sv_prime s = Some pols \<Longrightarrow> sv_step E s (Service_prime pols found now s)"
| scan: "sv_primed s \<Longrightarrow> sv_step E s (Service_scan found now s)"
| session: "sm_step (sv_sessions s) m \<Longrightarrow> sm_pols m = sm_pols (sv_sessions s) \<Longrightarrow> sv_step E s (s\<lparr>sv_sessions := m\<rparr>)"
| invocation: "map_of (pm_invocations (sv_procs s)) inst = Some iv \<Longrightarrow>
    sv_step E s (s\<lparr>sv_procs := (sv_procs s)\<lparr>pm_invocations := gm_put (pm_invocations (sv_procs s)) inst (manage ph es iv)\<rparr>\<rparr>)"
| stop: "sv_step E s (Service_Stop s)"

inductive_cases sv_step_cases: "sv_step E s s'"

section \<open>The tables stay in order\<close>

definition sv_ok :: "service \<Rightarrow> bool" where
  "sv_ok s \<longleftrightarrow> pm_ok (sv_procs s) \<and> sm_ok (sv_sessions s) \<and> (sv_loaded s \<longrightarrow> sv_running s) \<and>
     (sv_prime s \<noteq> None \<or> sv_primed s \<longrightarrow> sv_loaded s) \<and> (sv_primed s \<longrightarrow> sv_prime s = None)"

lemma Service_New_ok: "sv_ok Service_New"
  by (simp add: sv_ok_def Service_New_def pm_ok_def NewProcessManager_def sm_ok_def NewSessionManager_def)

lemma Scan_distinct:
  assumes "\<And>f procs. list f = Inr procs \<Longrightarrow> distinct (map pd_UniqueID procs)" and "Scan lib eqf list pols env = Inr procs"
  shows "distinct (map pd_UniqueID procs)"
  using assms by (auto simp: Scan_def Let_def split: if_splits)

lemma Enforce_ok:
  assumes "pm_ok m" and list: "\<And>f procs. list f = Inr procs \<Longrightarrow> distinct (map pd_UniqueID procs)"
  shows "pm_ok (fst (Enforce lib eqf list opens hasSession digest env now pols m))"
proof (cases "Scan lib eqf list pols env")
  case (Inr procs)
  obtain m' err where run: "Enforce lib eqf list opens hasSession digest env now pols m = (m', err)" by fastforce
  with Inr have "err = None" by (auto simp: Enforce_def Let_def split: prod.splits if_splits)
  with run Enforce_spec(1) [OF _ Inr Scan_distinct [OF list Inr] assms(1)] show ?thesis by simp
qed (simp add: Enforce_def assms(1))

lemma UpdatePolicies_ok: "sm_ok m \<Longrightarrow> sm_ok (SessionManager_UpdatePolicies pols m)"
  by (blast intro: sm_step_ok sm_step.policies)

lemma SessionManager_Stop_ok: "sm_ok m \<Longrightarrow> sm_ok (SessionManager_Stop m)"
  by (blast intro: sm_step_ok sm_step.stops)

lemmas service_ok_intros = Enforce_ok UpdatePolicies_ok Scan_ok SessionManager_Stop_ok ProcessManager_Stop_ok

lemma put_invocation_ok:
  assumes "pm_ok m" and "map_of (pm_invocations m) inst = Some iv"
  shows "pm_ok (m\<lparr>pm_invocations := gm_put (pm_invocations m) inst iv'\<rparr>)"
  using assms by (auto simp: pm_ok_def gm_lookup dom_def)

lemma sv_step_ok: "sv_step E s s' \<Longrightarrow> sv_ok s \<Longrightarrow> sv_ok s'"
proof (induction rule: sv_step.induct)
  case (enforce s list now)
  then have "pm_ok (sv_procs (Service_enforce E list now s))"
    unfolding Service_enforce_def by (simp add: sv_ok_def Enforce_ok)
  with enforce show ?case by (simp add: sv_ok_def Service_enforce_def)
next
  case (session s m)
  then show ?case by (auto simp: sv_ok_def intro: sm_step_ok)
next
  case (invocation s inst iv ph es)
  then show ?case by (auto simp: sv_ok_def intro: put_invocation_ok)
qed (auto simp: sv_ok_def Service_Start_def Service_load_def Service_update_def Service_prime_def Service_scan_def
    Service_Stop_def Service_shutdown_def Let_def intro: service_ok_intros split: if_splits prod.splits)

interpretation svInv: initial_invariant "sv_step E" sv_ok Service_New for E
  by unfold_locales (fact sv_step_ok Service_New_ok)+

section \<open>The sessions follow the policies\<close>

text \<open>
  The session manager holds the policies of the policy manager, up to policies with the same hash.
\<close>

definition in_sync :: "'r senv \<Rightarrow> service \<Rightarrow> bool" where
  "in_sync E s \<longleftrightarrow> se_hash E ` set (sm_pols (sv_sessions s)) = se_hash E ` set (PolicyManager_Policies (sv_policies s))"

lemma Update_hashes:
  assumes "PolicyManager_Update hash cached response m = (m', changed, ok)" and "\<not> changed"
  shows "hash ` set (PolicyManager_Policies m') = hash ` set (PolicyManager_Policies m)"
proof (cases response)
  case (Inr updated)
  with PolicyManager_Update_changed [of hash cached updated m m' changed ok] assms show ?thesis
    by (auto simp: PolicyManager_Policies_def)
qed (use assms in \<open>simp add: PolicyManager_Update_def\<close>)

lemma sm_pols_simps [simp]:
  "sm_pols (SessionManager_UpdatePolicies pols m) = pols" "sm_pols (SessionManager_Stop m) = sm_pols m"
  by (simp_all add: SessionManager_UpdatePolicies_def SessionManager_Stop_def)

lemma Scan_pols [simp]: "sm_pols (SessionManager_Scan found now m) = sm_pols m"
proof -
  have "sm_pols (foldl (\<lambda>m sd. Scan_new sd m) m sds) = sm_pols m" for m sds
    by (induction sds arbitrary: m) (simp_all add: Scan_new_def Let_def)
  then show ?thesis by (simp add: SessionManager_Scan_def Let_def split: sum.split)
qed

lemma update_in_sync:
  assumes "in_sync E s"
  shows "in_sync E (Service_update E cached response s)"
proof -
  obtain pm changed ok where run: "PolicyManager_Update (se_hash E) cached response (sv_policies s) = (pm, changed, ok)"
    by (metis prod_cases3)
  with Update_hashes [OF run] assms show ?thesis by (auto simp: Service_update_def in_sync_def Let_def)
qed

lemma sv_step_in_sync: "sv_step E s s' \<Longrightarrow> sv_loaded s \<Longrightarrow> in_sync E s \<Longrightarrow>
  (\<And>pols. sv_prime s = Some pols \<Longrightarrow> se_hash E ` set pols = se_hash E ` set (PolicyManager_Policies (sv_policies s))) \<Longrightarrow> in_sync E s'"
proof (induction rule: sv_step.induct)
  case (update s cached response)
  then show ?case by (blast intro: update_in_sync)
qed (clarsimp simp: in_sync_def Service_Start_def Service_prime_def Service_scan_def Service_Stop_def Service_shutdown_def Service_enforce_def
    split: if_splits)+

text \<open>Once primed, nothing but a restart changes that: a run of the service without one.\<close>

lemma sv_primed_step: "sv_step E s s' \<Longrightarrow> sv_ok s \<Longrightarrow> sv_primed s \<Longrightarrow> sv_primed s' \<or> \<not> sv_running s'"
  by (induction rule: sv_step.induct)
    (auto simp: sv_ok_def Service_Start_def Service_load_def Service_update_def Service_prime_def Service_scan_def
      Service_Stop_def Service_shutdown_def Service_enforce_def Let_def split: if_splits prod.splits)

definition synced :: "'r senv \<Rightarrow> service \<Rightarrow> bool" where
  "synced E s \<longleftrightarrow> sv_ok s \<and> sv_primed s \<and> in_sync E s"

lemma synced_step: "sv_step E s s' \<Longrightarrow> synced E s \<Longrightarrow> sv_running s' \<Longrightarrow> synced E s'"
  using sv_step_ok [of E s s'] sv_primed_step [of E s s'] sv_step_in_sync [of E s s']
  by (auto simp: synced_def sv_ok_def)

interpretation syncInv: inductive_invariant "\<lambda>s s'. sv_step E s s' \<and> sv_running s'" "synced E" for E
  by unfold_locales (use synced_step in blast)

lemma prime_synced:
  assumes "sv_ok s" and "sv_prime s = Some (PolicyManager_Policies (sv_policies s))"
  shows "synced E (Service_prime (PolicyManager_Policies (sv_policies s)) found now s)"
  using sv_step_ok [OF sv_step.prime [where E = E and found = found and now = now, OF assms(2)] assms(1)]
  by (auto simp: synced_def in_sync_def Service_prime_def)

end
