(* ===== verification/StatManager.thy ===== *)
theory StatManager
  imports Provider LeaseUtil Policy
begin

text \<open>
  The statistics the guardian command reports, \<^verbatim>\<open>src/cmd/resourceful/stats.go\<close> and the recipient in
  \<^verbatim>\<open>stathat.go\<close>. A report is the list of the values sent, in order; which sends fail is an argument,
  as is the clock. The maps are written out in the order of their association lists.
\<close>

section \<open>State\<close>

type_synonym userStats = "(string, uint) gomap"

record resourceStats =
  rt_Time :: time
  rt_Consumed :: uint
  rt_Limit :: uint
  rt_Active :: uint
  rt_Released :: uint
  rt_Queued :: uint
  rt_Users :: userStats

type_synonym resourceStatsMap = "(string, resourceStats) gomap"

record statmanager =
  tm_last :: resourceStatsMap

definition UserStats_Contains :: "userStats \<Rightarrow> string \<Rightarrow> bool" where
  "UserStats_Contains m user \<longleftrightarrow> map_of m user \<noteq> None"

datatype stat = SendResource string resourceStats | SendUser string string uint time

section \<open>Collection\<close>

text \<open>Users are translated into account names, where a lease of the user knows one.\<close>

definition account_name :: "leases \<Rightarrow> string \<Rightarrow> string" where
  "account_name ls user =
     (case Set_Property (Set_User ls user) [''user.account''] of name # _ \<Rightarrow> name | [] \<Rightarrow> user)"

definition collect_users :: "leases \<Rightarrow> (string, nat) gomap \<Rightarrow> userStats" where
  "collect_users ls data = foldl (\<lambda>users (user, count). gm_put users (account_name ls user) count) [] data"

definition collect_resource ::
  "sorter \<Rightarrow> bool \<Rightarrow> time \<Rightarrow> policies \<Rightarrow> string \<Rightarrow> 64 word \<Rightarrow> leases \<Rightarrow> resourceStats go" where
  "collect_resource srt refresh now policies res revision ls =
     (let pols = PolicySet_MatchResource policies res;
          strat = PolicySet_Strategy pols; limit = PolicySet_Limit pols in
      go_bind (if refresh
               then go_bind (Refresh srt (NewTx res revision ls) now) (\<lambda>(acc, tx). Inr (tx_leases tx))
               else Inr ls) (\<lambda>ls.
      let data = Set_Stats ls in
      go_bind (Stats_Users data strat) (\<lambda>users.
      go_bind (Stats_Consumed data strat) (\<lambda>consumed.
      go_bind (Stats_Active data strat) (\<lambda>active.
      go_bind (Stats_Released data strat) (\<lambda>released.
      go_bind (Stats_Queued data strat) (\<lambda>queued.
        Inr \<lparr>rt_Time = now, rt_Consumed = consumed, rt_Limit = limit, rt_Active = active, rt_Released = released,
             rt_Queued = queued, rt_Users = collect_users ls users\<rparr>)))))))"

fun collect_loop ::
  "sorter \<Rightarrow> 'p provider \<Rightarrow> bool \<Rightarrow> (string \<Rightarrow> time) \<Rightarrow> policies \<Rightarrow> string list \<Rightarrow> resourceStatsMap \<Rightarrow> 'p \<Rightarrow>
   ('p \<times> (goerror + resourceStatsMap)) go" where
  "collect_loop srt prov refresh clock policies [] stats p = Inr (p, Inr stats)"
| "collect_loop srt prov refresh clock policies (res # rest) stats p =
     (case pv_LeaseView prov p res of
        (p, Inl err) \<Rightarrow> Inr (p, Inl err)
      | (p, Inr (revision, ls)) \<Rightarrow>
          go_bind (collect_resource srt refresh (clock res) policies res revision ls) (\<lambda>st.
            collect_loop srt prov refresh clock policies rest (gm_put stats res st) p))"

definition StatManager_collect ::
  "sorter \<Rightarrow> goerror + policies \<Rightarrow> 'p provider \<Rightarrow> bool \<Rightarrow> (string \<Rightarrow> time) \<Rightarrow> 'p \<Rightarrow> ('p \<times> (goerror + resourceStatsMap)) go" where
  "StatManager_collect srt polProv prov refresh clock p =
     (case polProv of
        Inl err \<Rightarrow> Inr (p, Inl err)
      | Inr policies \<Rightarrow>
          (case pv_LeaseResources prov p of
             (p, Inl err) \<Rightarrow> Inr (p, Inl err)
           | (p, Inr resources) \<Rightarrow> collect_loop srt prov refresh clock policies resources [] p))"

definition StatManager_Init ::
  "sorter \<Rightarrow> goerror + policies \<Rightarrow> 'p provider \<Rightarrow> (string \<Rightarrow> time) \<Rightarrow> 'p \<Rightarrow> statmanager \<Rightarrow>
   ('p \<times> statmanager \<times> goerror option) go" where
  "StatManager_Init srt polProv prov clock p m =
     go_bind (StatManager_collect srt polProv prov False clock p) (\<lambda>(p, r).
       case r of Inl err \<Rightarrow> Inr (p, m, Some err) | Inr stats \<Rightarrow> Inr (p, m\<lparr>tm_last := stats\<rparr>, None))"

section \<open>Reporting\<close>

text \<open>
  Resources that are gone get a last, zeroed record; users that are gone from a resource get a
  zero in its current record (the map of users is shared with the record that is sent later).
\<close>

definition zero_missing :: "userStats \<Rightarrow> userStats \<Rightarrow> userStats" where
  "zero_missing lst cur = foldl (\<lambda>users (user, count).
     if count = 0 then users else if map_of users user \<noteq> None then users else gm_put users user 0) cur lst"

fun expire_loop ::
  "(string \<Rightarrow> goerror option) \<Rightarrow> resourceStatsMap \<Rightarrow> resourceStatsMap \<Rightarrow> stat list \<Rightarrow>
   resourceStatsMap \<times> stat list \<times> goerror option" where
  "expire_loop fails [] cur sent = (cur, sent, None)"
| "expire_loop fails ((res, lst) # rest) cur sent =
     (case map_of cur res of
        None \<Rightarrow>
          (let removal = \<lparr>rt_Time = 0, rt_Consumed = 0, rt_Limit = rt_Limit lst, rt_Active = 0, rt_Released = 0,
                 rt_Queued = 0, rt_Users = map (\<lambda>(user, _). (user, 0)) (rt_Users lst)\<rparr> in
           case fails res of
             Some err \<Rightarrow> (cur, sent, Some (''failed to remove expired stats for '' @ res @ '': '' @ err))
           | None \<Rightarrow> expire_loop fails rest cur (sent @ [SendResource res removal]))
      | Some st \<Rightarrow>
          expire_loop fails rest
            (gm_put cur res (st\<lparr>rt_Users := zero_missing (rt_Users lst) (rt_Users st)\<rparr>)) sent)"

definition first_zeros :: "resourceStatsMap \<Rightarrow> string \<times> resourceStats \<Rightarrow> stat list" where
  "first_zeros lst entry =
     (let (res, cur) = entry in
      map (\<lambda>(user, _). SendUser res user 0 (rt_Time cur - Minute))
        (filter (\<lambda>(user, _). \<not> (case map_of lst res of Some l \<Rightarrow> UserStats_Contains (rt_Users l) user | None \<Rightarrow> False))
          (rt_Users cur)))"

fun send_loop :: "(string \<Rightarrow> goerror option) \<Rightarrow> resourceStatsMap \<Rightarrow> stat list \<Rightarrow> stat list \<times> goerror option" where
  "send_loop fails [] sent = (sent, None)"
| "send_loop fails ((res, st) # rest) sent =
     (case fails res of
        Some err \<Rightarrow> (sent, Some (''failed to send stats for '' @ res @ '': '' @ err))
      | None \<Rightarrow> send_loop fails rest (sent @ [SendResource res st]))"

definition StatManager_CollectAndSend ::
  "sorter \<Rightarrow> goerror + policies \<Rightarrow> 'p provider \<Rightarrow> (string \<Rightarrow> time) \<Rightarrow> (string \<Rightarrow> goerror option) \<Rightarrow> 'p \<Rightarrow> statmanager \<Rightarrow>
   ('p \<times> statmanager \<times> stat list \<times> goerror option) go" where
  "StatManager_CollectAndSend srt polProv prov clock fails p m =
     go_bind (StatManager_collect srt polProv prov True clock p) (\<lambda>(p, r).
       case r of
         Inl err \<Rightarrow> Inr (p, m, [], Some err)
       | Inr cur \<Rightarrow>
           (case expire_loop fails (tm_last m) cur [] of
              (cur, sent, Some err) \<Rightarrow> Inr (p, m, sent, Some err)
            | (cur, sent, None) \<Rightarrow>
                (let sent = sent @ concat (map (first_zeros (tm_last m)) cur) in
                 case send_loop fails cur sent of
                   (sent, Some err) \<Rightarrow> Inr (p, m, sent, Some err)
                 | (sent, None) \<Rightarrow> Inr (p, m\<lparr>tm_last := cur\<rparr>, sent, None))))"

section \<open>Nobody is left hanging\<close>

lemma zero_missing_keys:
  "map_of (zero_missing lst cur) user = (case map_of cur user of Some c \<Rightarrow> Some c
     | None \<Rightarrow> if \<exists>c. (user, c) \<in> set lst \<and> c \<noteq> 0 then Some 0 else None)"
  unfolding zero_missing_def
proof (induction lst arbitrary: cur)
  case (Cons x lst)
  then show ?case by (cases x) (auto simp: gm_lookup split: option.splits)
qed (simp split: option.split)

lemma send_loop_None:
  "send_loop fails cur sent = (sent', None) \<Longrightarrow> sent' = sent @ map (\<lambda>(res, st). SendResource res st) cur"
  by (induction fails cur sent rule: send_loop.induct) (auto split: option.splits)

definition extends :: "resourceStats \<Rightarrow> resourceStats \<Rightarrow> bool" where
  "extends st st' \<longleftrightarrow> rt_Time st' = rt_Time st \<and> rt_Consumed st' = rt_Consumed st \<and> map_of (rt_Users st) \<subseteq>\<^sub>m map_of (rt_Users st')"

lemma extends_trans: "extends a b \<Longrightarrow> extends b c \<Longrightarrow> extends a c"
  by (auto simp: extends_def intro: map_le_trans)

lemma extends_zero: "extends st (st\<lparr>rt_Users := zero_missing lst (rt_Users st)\<rparr>)"
  by (auto simp: extends_def map_le_def zero_missing_keys)

lemma expire_loop_keeps:
  assumes "expire_loop fails lst cur sent = (cur', sent', None)"
  shows "set sent \<subseteq> set sent' \<and> (\<forall>res st. map_of cur res = Some st \<longrightarrow> (\<exists>st'. map_of cur' res = Some st' \<and> extends st st'))"
  using assms
proof (induction fails lst cur sent rule: expire_loop.induct)
  case (1 fails cur sent)
  then show ?case by (auto simp: extends_def)
next
  case (2 fails res lst rest cur sent)
  show ?case
  proof (cases "map_of cur res")
    case None
    with 2 show ?thesis by (auto simp: Let_def split: option.splits)
  next
    case (Some st)
    let ?st = "st\<lparr>rt_Users := zero_missing (rt_Users lst) (rt_Users st)\<rparr>"
    have IH: "set sent \<subseteq> set sent'"
      "\<And>r s. map_of (gm_put cur res ?st) r = Some s \<Longrightarrow> \<exists>st'. map_of cur' r = Some st' \<and> extends s st'"
      using 2 Some by auto
    have "\<exists>st'. map_of cur' r = Some st' \<and> extends s st'" if "map_of cur r = Some s" for r s
      using IH(2) [of r] that Some extends_zero [of st "rt_Users lst"]
      by (cases "r = res") (auto simp: gm_lookup dest: extends_trans)
    with IH(1) show ?thesis by blast
  qed
qed

text \<open>A user with a count in the last report is in the record sent for the resource, or in a last record.\<close>

lemma expire_loop_covers:
  assumes "expire_loop fails lst cur sent = (cur', sent', None)"
    and "(res, old) \<in> set lst" and "(user, c) \<in> set (rt_Users old)" and "c \<noteq> 0"
  shows "(\<exists>st. map_of cur' res = Some st \<and> map_of (rt_Users st) user \<noteq> None) \<or>
    (\<exists>st. SendResource res st \<in> set sent' \<and> map_of (rt_Users st) user = Some 0)"
  using assms
proof (induction fails lst cur sent rule: expire_loop.induct)
  case (2 fails r l rest cur sent)
  show ?case
  proof (cases "(res, old) = (r, l)")
    case False
    with 2 show ?thesis by (cases "map_of cur r") (auto simp: Let_def split: option.splits)
  next
    case True
    then have eq: "r = res" "l = old" by simp_all
    show ?thesis
    proof (cases "map_of cur res")
      case (Some st)
      let ?st = "st\<lparr>rt_Users := zero_missing (rt_Users old) (rt_Users st)\<rparr>"
      have run: "expire_loop fails rest (gm_put cur res ?st) sent = (cur', sent', None)"
        using 2 Some eq by simp
      have "map_of (rt_Users ?st) user \<noteq> None" using 2 by (auto simp: zero_missing_keys split: option.splits)
      then obtain n where n: "map_of (rt_Users ?st) user = Some n" by blast
      have "map_of (gm_put cur res ?st) res = Some ?st" by (simp add: gm_lookup)
      with expire_loop_keeps [OF run] obtain st' where "map_of cur' res = Some st'" "extends ?st st'" by blast
      with n show ?thesis by (auto simp: extends_def map_le_def dom_def)
    next
      case None
      let ?rm = "\<lparr>rt_Time = 0, rt_Consumed = 0, rt_Limit = rt_Limit old, rt_Active = 0, rt_Released = 0,
        rt_Queued = 0, rt_Users = map (\<lambda>(user, _). (user, 0)) (rt_Users old)\<rparr>"
      have run: "expire_loop fails rest cur (sent @ [SendResource res ?rm]) = (cur', sent', None)"
        using 2 None eq by (auto simp: Let_def split: option.splits)
      have "map_of (map (\<lambda>(user, _). (user, 0::nat)) xs) user = Some 0" if "(user, c) \<in> set xs" for xs :: userStats
        using that by (induction xs) auto
      then have "map_of (rt_Users ?rm) user = Some 0" using 2 by simp
      moreover have "SendResource res ?rm \<in> set sent'" using expire_loop_keeps [OF run] by simp
      ultimately show ?thesis by blast
    qed
  qed
qed simp

lemma CollectAndSend_covers:
  assumes "StatManager_CollectAndSend srt polProv prov clock fails p m = Inr (p', m', sent, None)"
    and "(res, old) \<in> set (tm_last m)" and "(user, c) \<in> set (rt_Users old)" and "c \<noteq> 0"
  shows "\<exists>st. SendResource res st \<in> set sent \<and> map_of (rt_Users st) user \<noteq> None"
proof -
  from assms(1) obtain p1 r where col: "StatManager_collect srt polProv prov True clock p = Inr (p1, r)"
    by (auto simp: StatManager_CollectAndSend_def go_bind_eq_Inr)
  with assms(1) obtain cur0 where r: "r = Inr cur0"
    by (cases r) (auto simp: StatManager_CollectAndSend_def)
  obtain cur sent0 e1 where e: "expire_loop fails (tm_last m) cur0 [] = (cur, sent0, e1)" by (metis prod_cases3)
  with assms(1) col r have e1: "e1 = None" by (cases e1) (auto simp: StatManager_CollectAndSend_def)
  obtain sent1 e2 where "send_loop fails cur (sent0 @ concat (map (first_zeros (tm_last m)) cur)) = (sent1, e2)" by fastforce
  with assms(1) col r e e1 have s: "send_loop fails cur (sent0 @ concat (map (first_zeros (tm_last m)) cur)) = (sent, None)"
    by (cases e2) (auto simp: StatManager_CollectAndSend_def Let_def)
  note e = e [unfolded e1]
  have sent: "set sent = set (sent0 @ concat (map (first_zeros (tm_last m)) cur)) \<union> (\<lambda>(res, st). SendResource res st) ` set cur"
    using send_loop_None [OF s] by (simp add: Un_assoc)
  from expire_loop_covers [OF e assms(2,3,4)] show ?thesis
  proof
    assume "\<exists>st. map_of cur res = Some st \<and> map_of (rt_Users st) user \<noteq> None"
    then obtain st where "(res, st) \<in> set cur" "map_of (rt_Users st) user \<noteq> None" by (auto dest: map_of_SomeD)
    with sent show ?thesis by (auto intro!: exI [of _ st])
  next
    assume "\<exists>st. SendResource res st \<in> set sent0 \<and> map_of (rt_Users st) user = Some 0"
    with sent show ?thesis by auto
  qed
qed

text \<open>What is reported as consumed is what the refreshed leases take.\<close>

lemma collect_resource_consumed:
  assumes "lease_sorter srt" and "\<forall>p \<in> set policies. strategy_Valid (pol_Strategy p)"
  shows "\<exists>st acc tx. collect_resource srt True now policies res revision ls = Inr st \<and>
    Refresh srt (NewTx res revision ls) now = Inr (acc, tx) \<and>
    rt_Consumed st = consumption (PolicySet_Strategy (PolicySet_MatchResource policies res)) (tx_leases tx)"
proof -
  let ?strat = "PolicySet_Strategy (PolicySet_MatchResource policies res)"
  obtain acc tx where tx: "Refresh srt (NewTx res revision ls) now = Inr (acc, tx)" "in_order (tx_leases tx)"
    using Refresh_total [OF assms(1)] by blast
  have v: "?strat = strategy_Instance \<or> ?strat = strategy_Consumer"
    by (rule PolicySet_Strategy_valid) (use assms(2) in \<open>simp add: PolicySet_MatchResource_def\<close>)
  obtain us where us: "Stats_Users (Set_Stats (tx_leases tx)) ?strat = Inr us"
    using v by (auto simp: Stats_Users_def Stats_pick_def)
  obtain a r q where "Stats_Active (Set_Stats (tx_leases tx)) ?strat = Inr a"
    "Stats_Released (Set_Stats (tx_leases tx)) ?strat = Inr r" "Stats_Queued (Set_Stats (tx_leases tx)) ?strat = Inr q"
    using v by (auto simp: Stats_Active_def Stats_Released_def Stats_Queued_def Stats_pick_def)
  with Set_Stats_consumed [OF tx(2) v] tx(1) us show ?thesis
    by (simp add: collect_resource_def Let_def)
qed

end
