(* ===== verification/Scenarios.thy ===== *)
theory Scenarios
  imports Samples Runner Service StatManager
begin

text \<open>
  Concrete runs of the client side: a runner that starts its program and one that gets stuck, an
  enforcement that finds one process, and a report of statistics.
\<close>

section \<open>A runner\<close>

definition state_active :: lstate where
  "state_active = zero_lstate\<lparr>lt_Online := True, lt_Acquired := True, lt_Lease := sample_grant\<rparr>"

definition state_error :: lstate where
  "state_error = state_active\<lparr>lt_Online := False, lt_Err := Some ErrEmptyEndpoint\<rparr>"

definition turned :: "time \<Rightarrow> lstate \<Rightarrow> runner \<Rightarrow> runner" where
  "turned now state r = (case Runner_turn None now state r of Inr (r', None) \<Rightarrow> r' | _ \<Rightarrow> r)"

definition turns :: "time \<Rightarrow> lstate \<Rightarrow> runner \<Rightarrow> bool" where
  "turns now state r = (\<not> rn_returned r \<and> um_sent (rn_ui r) = None \<and>
     (case Runner_turn None now state r of Inr (_, None) \<Rightarrow> True | _ \<Rightarrow> False))"

definition received :: "runner \<Rightarrow> runner" where
  "received r = (case Run_receive (rn_ui r) of Some m \<Rightarrow> r\<lparr>rn_ui := m\<rparr> | None \<Rightarrow> r)"

definition begun :: "runner \<Rightarrow> runner" where
  "begun r = (case Run_begin (rn_ui r) of Some m \<Rightarrow> r\<lparr>rn_ui := m\<rparr> | None \<Rightarrow> r)"

lemma turned_step:
  assumes "turns now state r"
  shows "rn_step r (turned now state r)"
proof -
  from assms obtain r' where run: "Runner_turn None now state r = Inr (r', None)"
    by (auto simp: turns_def split: sum.splits option.splits prod.splits)
  with assms rn_step.turn [of r None now state r' None] show ?thesis by (simp add: turned_def turns_def)
qed

lemma received_step: "Run_receive (rn_ui r) \<noteq> None \<Longrightarrow> rn_step r (received r)"
  by (auto simp: received_def intro: rn_step.receive)

lemma begun_step: "Run_begin (rn_ui r) \<noteq> None \<Longrightarrow> rn_step r (begun r)"
  by (auto simp: begun_def intro: rn_step.begins)

definition run1 :: runner where "run1 = turned 1000 state_active Runner_New"

lemma run1_step: "rn_step Runner_New run1"
  unfolding run1_def by (rule turned_step) code_simp

lemma run1_started: "rn_started run1 = 1 \<and> rn_running run1"
  by code_simp

lemma run1_reachable: "rn_step\<^sup>*\<^sup>* Runner_New run1"
  using run1_step by (rule r_into_rtranclp)

lemma run1_quiet: "um_sent (rn_ui run1) = None"
  by code_simp

lemma run1_on: "\<not> rn_shutdown run1"
  by code_simp

lemma state_active_err: "lt_Err state_active = None"
  by code_simp

lemma run1_turn: "Runner_turn None 1000 state_active Runner_New = Inr (run1, None)"
proof -
  have "turns 1000 state_active Runner_New" by code_simp
  then show ?thesis by (auto simp: turns_def run1_def turned_def split: sum.splits option.splits prod.splits)
qed

definition stuck1 :: runner where "stuck1 = turned 0 state_error Runner_New"
definition stuck2 :: runner where "stuck2 = received stuck1"
definition stuck3 :: runner where "stuck3 = stuck2\<lparr>rn_ui := Run_next (rn_ui stuck2)\<rparr>"
definition stuck4 :: runner where "stuck4 = begun stuck3"
definition stuck5 :: runner where "stuck5 = received (turned 1000 state_active stuck4)"
definition stuck6 :: runner where "stuck6 = turned (5 * Minute) state_error stuck5"

lemma stuck_steps:
  "rn_step Runner_New stuck1" "rn_step stuck1 stuck2" "rn_step stuck2 stuck3" "rn_step stuck3 stuck4"
  "rn_step stuck4 (turned 1000 state_active stuck4)" "rn_step (turned 1000 state_active stuck4) stuck5"
  "rn_step stuck5 stuck6"
proof -
  show "rn_step Runner_New stuck1" unfolding stuck1_def by (rule turned_step) code_simp
  show "rn_step stuck1 stuck2" unfolding stuck2_def by (rule received_step) code_simp
  have "Run_skip (rn_ui stuck2) = Some (Run_next (rn_ui stuck2))"
    unfolding Run_skip_def by (rule if_P) code_simp
  then show "rn_step stuck2 stuck3" unfolding stuck3_def by (rule rn_step.skip)
  show "rn_step stuck3 stuck4" unfolding stuck4_def by (rule begun_step) code_simp
  show "rn_step stuck4 (turned 1000 state_active stuck4)" by (rule turned_step) code_simp
  show "rn_step (turned 1000 state_active stuck4) stuck5" unfolding stuck5_def by (rule received_step) code_simp
  show "rn_step stuck5 stuck6" unfolding stuck6_def by (rule turned_step) code_simp
qed

lemma stuck4_reachable: "rn_step\<^sup>*\<^sup>* Runner_New stuck4"
  using stuck_steps by (meson rtranclp.rtrancl_into_rtrancl rtranclp.rtrancl_refl)

lemma stuck4_shows:
  "um_current (rn_ui stuck4) = UI_Startup" "dr_Type (um_target (rn_ui stuck4)) = UI_Startup" "um_sent (rn_ui stuck4) = None"
  "dr_Callback (um_shown (rn_ui stuck4)) = Some startupCallback"
  by code_simp+

lemma stuck6_reachable: "rn_step\<^sup>*\<^sup>* Runner_New stuck6"
  using stuck_steps by (meson rtranclp.rtrancl_into_rtrancl rtranclp.rtrancl_refl)

lemma stuck6_stuck: "stuck stuck6 \<and> rn_running stuck6 \<and> \<not> rn_returned stuck6"
  unfolding stuck_def by code_simp


text \<open>
  The runner can get stuck for good, with its program running: a state of the lease that arrives
  between the receipt of a directive and the callback of the dialog it replaces makes the loop of
  \<^verbatim>\<open>run\<close> wait, with the runner's mutex, for a receiver that waits for that mutex.
\<close>

lemma runner_can_deadlock:
  "\<exists>r. rn_step\<^sup>*\<^sup>* Runner_New r \<and> rn_running r \<and> \<not> rn_returned r \<and>
     (\<forall>r'. rn_step\<^sup>*\<^sup>* r r' \<longrightarrow> um_sent (rn_ui r') \<noteq> None)"
proof (intro exI conjI allI impI)
  fix r' assume "rn_step\<^sup>*\<^sup>* stuck6 r'"
  then have "stuck r'" using stuckInv.run_keeps stuck6_stuck by blast
  then show "um_sent (rn_ui r') \<noteq> None" by (simp add: stuck_def)
qed (use stuck6_reachable stuck6_stuck in auto)

section \<open>An enforcement\<close>

definition sample_proc :: procdata where
  "sample_proc = \<lparr>pd_ID = ''42'', pd_UniqueID = ''u42'', pd_Name = ''cad.exe'', pd_Path = ''c'', pd_Creation = ''now'',
     pd_SID = ''s'', pd_Account = ''ann'', pd_Domain = ''d'', pd_User = ''ann'', pd_Protected = False, pd_SessionID = 1\<rparr>"

definition sample_criterion :: criterion where
  "sample_criterion = \<lparr>cr_Key = ''program.name'', cr_Comparison = ComparisonExact, cr_Value = ''cad.exe''\<rparr>"

definition proc_policy :: policy where
  "proc_policy = Policy_New ''cad'' strategy_Instance 2 (5 * Minute) [sample_criterion]"

definition sample_list :: "(procdata \<Rightarrow> bool) \<Rightarrow> goerror + procdata list" where
  "sample_list f = Inr (filter f [sample_proc])"

definition sample_enforce :: "procmanager \<times> goerror option" where
  "sample_enforce = Enforce sample_lib (\<lambda>_ _. False) sample_list (\<lambda>_. None) (\<lambda>_. True) (\<lambda>bytes. bytes) Map.empty 1000
     [proc_policy] NewProcessManager"

lemma sample_filter:
  "\<exists>f. Enforcer_Filter sample_lib (\<lambda>_ _. False) [sample_criterion] Map.empty = Inr (Some f)"
  by (simp add: Enforcer_Filter_def sample_criterion_def makeCriterionFilter_def makeMatcher_def)

lemma sample_scan:
  "Scan sample_lib (\<lambda>_ _. False) sample_list [proc_policy] Map.empty = Inr [sample_proc]"
  by (simp add: Scan_def Scan_filters_def proc_policy_def Policy_New_def Enforcer_Filter_def sample_criterion_def
      makeCriterionFilter_def makeMatcher_def sample_list_def sample_proc_def Enforcer_Properties_def props_get_def)

lemma sample_enforce_ok: "snd sample_enforce = None"
  by (simp add: sample_enforce_def Enforce_def sample_scan split_beta Let_def)

lemma sample_proc_free: "\<not> Blocklisted sample_lib sample_proc"
  by code_simp

lemma sample_proc_match: "PolicySet_Match sample_lib [proc_policy] (Enforcer_Properties sample_proc Map.empty) \<noteq> []"
  by (simp add: PolicySet_Match_def Policy_Match_def Criteria_Match_def Criterion_Match_def proc_policy_def Policy_New_def
      sample_criterion_def sample_proc_def Enforcer_Properties_def props_get_def)

lemma NewProcessManager_ok: "pm_ok NewProcessManager"
  by (simp add: pm_ok_def NewProcessManager_def)

section \<open>A process that is left alone\<close>

text \<open>
  The invocation of a managed process ends when the server answers that no lease is required. The
  process stays in the table of managed processes, so it gets no new invocation, even if the
  policies require a lease of it: the next enforcement drops the invocation, and from then on the
  tables do not change.
\<close>

definition managed_state :: procmanager where
  "managed_state = fst sample_enforce"

definition not_required :: lstate where
  "not_required = zero_lstate\<lparr>lt_Online := True, lt_LeaseNotRequired := True\<rparr>"

definition no_launch :: launch where
  "no_launch = \<lparr>la_token = Inl ''no token'', la_stdin = None, la_stdout = None, la_start = Inl ''not started''\<rparr>"

definition finished_state :: procmanager where
  "finished_state = managed_state\<lparr>pm_invocations :=
     map (\<lambda>(inst, iv). (inst, manage Maintaining [LeaseState not_required 2000 None no_launch] iv)) (pm_invocations managed_state)\<rparr>"

definition sample_enforce_again :: "procmanager \<Rightarrow> procmanager" where
  "sample_enforce_again m = fst (Enforce sample_lib (\<lambda>_ _. False) sample_list (\<lambda>_. None) (\<lambda>_. True) (\<lambda>bytes. bytes) Map.empty
     (5 * Minute) [proc_policy] m)"

definition sample_inst :: instance_t where
  "sample_inst = Enforcer_Instance '''' sample_proc (NewInstanceID (\<lambda>bytes. bytes) sample_proc)"

definition stopped_invocation :: invocation where
  "stopped_invocation = (NewInvocation sample_inst sample_proc True)\<lparr>iv_state := not_required, iv_finished := True\<rparr>"

lemma sample_uid: "pd_UniqueID sample_proc = ''u42''"
  by (simp add: sample_proc_def)

lemma managed_state_eq:
  "managed_state = NewProcessManager\<lparr>pm_invocations := [(sample_inst, NewInvocation sample_inst sample_proc True)],
     pm_managed := [(''u42'', sample_inst)]\<rparr>"
  using sample_proc_free sample_proc_match
  by (simp add: managed_state_def sample_enforce_def Enforce_def sample_scan Enforce_scan_def Enforce_look_def
      Enforce_bookkeeping_def Enforce_pending_def Enforce_manage_def NewProcessManager_def sample_uid gm_put_def gm_delete_def
      props_get_def sample_inst_def Let_def)

lemma finished_state_eq:
  "finished_state = NewProcessManager\<lparr>pm_invocations := [(sample_inst, stopped_invocation)], pm_stopped := [],
     pm_managed := [(''u42'', sample_inst)]\<rparr>"
  by (simp add: finished_state_def managed_state_eq manage_event_def maintain_def not_required_def zero_lstate_def recordState_def
      NewInvocation_def stopped_invocation_def NewProcessManager_def Let_def)

lemma sample_enforce_again_eq:
  "sample_enforce_again (NewProcessManager\<lparr>pm_invocations := ivs, pm_stopped := st, pm_managed := [(''u42'', sample_inst)]\<rparr>) =
   NewProcessManager\<lparr>pm_invocations := filter (\<lambda>(_, iv). \<not> Invocation_Done iv) ivs,
     pm_stopped := st @ map (Invocation_Stop \<circ> snd) (filter (\<lambda>(_, iv). Invocation_Done iv) ivs),
     pm_managed := [(''u42'', sample_inst)]\<rparr>"
  using sample_proc_free
  by (simp add: sample_enforce_again_def Enforce_def sample_scan Enforce_scan_def Enforce_look_def Enforce_bookkeeping_def
      NewProcessManager_def sample_uid gm_delete_def Let_def)

lemma process_left_alone:
  "pm_invocations managed_state \<noteq> [] \<and> map_of (pm_managed managed_state) ''u42'' \<noteq> None \<and>
   pm_invocations (sample_enforce_again finished_state) = [] \<and>
   map_of (pm_managed (sample_enforce_again finished_state)) ''u42'' \<noteq> None \<and>
   sample_enforce_again (sample_enforce_again finished_state) = sample_enforce_again finished_state"
proof -
  have e: "sample_enforce_again finished_state =
      NewProcessManager\<lparr>pm_invocations := [], pm_stopped := [stopped_invocation], pm_managed := [(''u42'', sample_inst)]\<rparr>"
    unfolding finished_state_eq sample_enforce_again_eq
    by (simp add: Invocation_Done_def Invocation_Stop_def NewProcessManager_def stopped_invocation_def)
  have "sample_enforce_again (sample_enforce_again finished_state) = sample_enforce_again finished_state"
    unfolding e sample_enforce_again_eq by (simp add: NewProcessManager_def)
  with e show ?thesis by (simp add: managed_state_eq)
qed

section \<open>A session and the service\<close>

definition good_launch :: launch where
  "good_launch = \<lparr>la_token = Inr (Inr (Inr (''ann'', ''d'', True))), la_stdin = None, la_stdout = None, la_start = Inr ''7''\<rparr>"

definition sample_session :: sessiondata where
  "sample_session = \<lparr>sd_ID = 1, sd_UserName = ''ann'', sd_UserDomain = ''d''\<rparr>"

text \<open>
  The policies can reach a session in the wrong order: the goroutine that connects a session takes
  note of the policies, then new policies are sent to all sessions, then it sends the old ones.
\<close>

definition connected_once :: sessionmanager where
  "connected_once = SessionManager_connect good_launch 1000 0 (SessionManager_connect good_launch 1000 0
     (SessionManager_Scan (Inr [sample_session]) 1000 NewSessionManager))"

definition stale_sessions :: sessionmanager where
  "stale_sessions = SessionManager_connect good_launch 1000 0 (SessionManager_UpdatePolicies [proc_policy] connected_once)"

lemma stale_policies_can_be_sent:
  "sm_step\<^sup>*\<^sup>* NewSessionManager stale_sessions \<and> sm_pols stale_sessions = [proc_policy] \<and>
   map ms_Policies (ss_outbound (snd (hd (sm_managed stale_sessions)))) = [[proc_policy], []]"
proof (intro conjI)
  have "sm_step\<^sup>*\<^sup>* NewSessionManager connected_once" unfolding connected_once_def
    by (meson rtranclp.rtrancl_into_rtrancl rtranclp.rtrancl_refl sm_step.scan sm_step.connects)
  then show "sm_step\<^sup>*\<^sup>* NewSessionManager stale_sessions" unfolding stale_sessions_def
    by (meson rtranclp.rtrancl_into_rtrancl sm_step.policies sm_step.connects)
qed (simp_all add: stale_sessions_def connected_once_def SessionManager_connect_def SessionManager_Scan_def NewSessionManager_def
    Scan_pending_def Scan_new_def NewSession_def sample_session_def connecting_step_def on_session_def Session_Connect_def
    good_launch_def validateTokenForUser_def SessionManager_UpdatePolicies_def SendPolicies_def Session_Send_def bufSize_def
    gm_put_def gm_delete_def Let_def)

definition sample_env :: "string senv" where
  "sample_env = \<lparr>se_lib = sample_lib, se_eqf = (\<lambda>_ _. False),
     se_winproc = \<lparr>wp_Open = (\<lambda>pid rights. Inr pid), wp_UniqueID = (\<lambda>ref. Inr (''u'' @ ref)), wp_Terminate = (\<lambda>_. None)\<rparr>,
     se_digest = (\<lambda>bytes. bytes), se_hash = (\<lambda>p. pol_Resource p), se_env = Map.empty, se_passive = False,
     se_policyInterval = Minute\<rparr>"

definition service_loaded :: service where
  "service_loaded = Service_load sample_env None False (Inr (Some [])) (Service_New\<lparr>sv_running := True\<rparr>)"

definition service_read :: service where
  "service_read = service_loaded\<lparr>sv_prime := Some (PolicyManager_Policies (sv_policies service_loaded))\<rparr>"

definition service_primed :: service where
  "service_primed = Service_prime (PolicyManager_Policies (sv_policies service_read)) (Inr [sample_session]) 1000 service_read"

definition service_updated :: service where
  "service_updated = Service_update sample_env False (Inr (Some [proc_policy])) service_primed"

lemma service_loaded_simps:
  "sv_running service_loaded" "sv_loaded service_loaded" "\<not> sv_primed service_loaded" "sv_prime service_loaded = None"
  by (simp_all add: service_loaded_def Service_load_def Service_New_def split_beta Let_def)

lemma service_read_reachable: "(sv_step sample_env)\<^sup>*\<^sup>* Service_New service_read"
proof -
  have "sv_step sample_env Service_New (Service_New\<lparr>sv_running := True\<rparr>)"
    by (rule sv_step.start) (simp add: Service_Start_def Service_New_def)
  moreover have "sv_step sample_env (Service_New\<lparr>sv_running := True\<rparr>) service_loaded" unfolding service_loaded_def
    by (rule sv_step.load) (simp_all add: Service_New_def)
  moreover have "sv_step sample_env service_loaded service_read" unfolding service_read_def
    by (rule sv_step.prime_read) (simp_all add: service_loaded_simps)
  ultimately show ?thesis by (meson rtranclp.rtrancl_into_rtrancl rtranclp.rtrancl_refl)
qed

lemma service_updated_step: "sv_step sample_env service_primed service_updated \<and> sv_running service_updated"
proof
  show "sv_step sample_env service_primed service_updated" unfolding service_updated_def
    by (rule sv_step.update) (simp add: service_primed_def service_read_def Service_prime_def service_loaded_simps)
  show "sv_running service_updated"
    by (simp add: service_updated_def Service_update_def service_primed_def service_read_def Service_prime_def
        service_loaded_simps split_beta Let_def)
qed

lemma service_read_prime: "sv_prime service_read = Some (PolicyManager_Policies (sv_policies service_read))"
  by (simp add: service_read_def)

lemma service_updated_policies: "PolicyManager_Policies (sv_policies service_updated) = [proc_policy]"
  by (simp add: service_updated_def Service_update_def PolicyManager_Update_def PolicyManager_Policies_def split_beta Let_def)

definition sample_tray :: tray where
  "sample_tray = Tray_New\<lparr>tr_open := True\<rparr>"

definition sample_ui :: ui where
  "sample_ui = \<lparr>ui_state = \<lparr>us_Policies = [], us_Leases = [], us_Running = []\<rparr>, ui_tray = Some sample_tray\<rparr>"

definition sample_msg :: message where
  "sample_msg = \<lparr>ms_Type = TypePolicyUpdate, ms_Policies = [proc_policy], ms_Leases = [], ms_ProcTerm = ''''\<rparr>"

definition sample_sent :: session where
  "sample_sent = fst (SendPolicies [proc_policy] (NewSession 0 ''ann'' ''d''))"

lemma sample_sent_ok: "SendPolicies [proc_policy] (NewSession 0 ''ann'' ''d'') = (sample_sent, True)"
  by (simp add: sample_sent_def SendPolicies_def Session_Send_def NewSession_def bufSize_def)

lemma sample_ui_simps:
  "ui_tray sample_ui = Some sample_tray" "tr_open sample_tray" "length (tr_states sample_tray) < trayBuffer"
  "ms_Type sample_msg = TypePolicyUpdate \<or> ms_Type sample_msg = TypeLeaseUpdate"
  by (simp_all add: sample_ui_def sample_tray_def Tray_New_def trayBuffer_def sample_msg_def)

lemma sample_msg_summary: "State_Summary (ui_state (UI_Handle sample_msg sample_ui)) = ''Enforcing 1 policy''"
  by (simp add: UI_Handle_def sample_ui_def sample_msg_def State_Summary_def Let_def)

section \<open>A report\<close>

definition sample_last :: resourceStats where
  "sample_last = \<lparr>rt_Time = 1, rt_Consumed = 2, rt_Limit = 2, rt_Active = 2, rt_Released = 0, rt_Queued = 0,
     rt_Users = [(''ann'', 2)]\<rparr>"

lemma sample_report:
  "\<exists>p m sent. StatManager_CollectAndSend insertionSort (Inr []) (MemProv insertionSort) (\<lambda>_. 1000) (\<lambda>_. None)
     MemProv_New \<lparr>tm_last = [(''cad'', sample_last)]\<rparr> = Inr (p, m, sent, None)"
  by (simp add: StatManager_CollectAndSend_def StatManager_collect_def MemProv_def MemProv_LeaseResources_def MemProv_New_def)

end
