(* ===== verification/WinService.thy ===== *)
theory WinService
  imports Service
begin

text \<open>
  The Windows service around the enforcer, \<^verbatim>\<open>src/cmd/resourceful/handler_windows.go\<close>, with the
  helpers \<^verbatim>\<open>environment.go\<close>, \<^verbatim>\<open>client.go\<close> and \<^verbatim>\<open>resolver.go\<close> of the command. The service
  manager sends requests and receives statuses; \<^verbatim>\<open>Execute\<close> is a start that may fail and a loop over the
  requests, between which the goroutines of the enforcement service take their steps. The command
  line parser \<^verbatim>\<open>kong\<close>, the operating system and \<^verbatim>\<open>filepath.Join\<close> are the record \<open>hostenv\<close>.
\<close>

section \<open>The environment of the command\<close>

record enforceConfig =
  ec_Server :: string
  ec_Passive :: bool
  ec_Debug :: bool

record hostenv =
  ho_Parse :: "string list \<Rightarrow> goerror + enforceConfig"
  ho_Executable :: "goerror + string"
  ho_Hostname :: "goerror + string"
  ho_Getenv :: "string \<Rightarrow> string"
  ho_Join :: "string list \<Rightarrow> string"

definition Version :: string where "Version = ''2023.12.19.0''"

definition ServiceName :: string where "ServiceName = ''Resourceful Enforcer''"

definition buildEnvironment :: "hostenv \<Rightarrow> goerror + properties" where
  "buildEnvironment ho =
     (case ho_Hostname ho of
        Inl err \<Rightarrow> Inl (''failed to query local hostname: '' @ err)
      | Inr hostname \<Rightarrow> Inr [''host.name'' \<mapsto> hostname, ''client.version'' \<mapsto> Version])"

definition installDir :: "hostenv \<Rightarrow> string \<Rightarrow> goerror + string" where
  "installDir ho version =
     (let dir = ho_Getenv ho ''PROGRAMFILES'' in
      if dir = '''' then Inl ''unable to determine ProgramFiles location''
      else Inr (ho_Join ho [dir, ''SCJ'', ''resourceful'', version]))"

definition cacheDir :: "hostenv \<Rightarrow> goerror + string" where
  "cacheDir ho =
     (let dir = ho_Getenv ho ''PROGRAMDATA'' in
      if dir = '''' then Inl ''unable to determine ProgramData location''
      else Inr (ho_Join ho [dir, ''SCJ'', ''resourceful'', ''policycache'']))"

text \<open>
  Where the endpoints of the guardian come from: the server named on the command line, or the
  service records of the domain, which the library \<^verbatim>\<open>serviceresolver\<close> finds as names and ports.
\<close>

datatype endpointSource = FixedEndpoint string | DomainLookup

definition newClient :: "string \<Rightarrow> endpointSource" where
  "newClient srv = (if srv \<noteq> '''' then FixedEndpoint srv else DomainLookup)"

definition resolver_Resolve :: "goerror + (string \<times> nat) list list \<Rightarrow> goerror + string list" where
  "resolver_Resolve found =
     (case found of
        Inl err \<Rightarrow> Inl (''failed to locate resourceful endpoints: '' @ err)
      | Inr services \<Rightarrow>
          if length services = 0 then Inl ''unable to detect host domain''
          else Inr (concat (map (map (\<lambda>(target, port).
                 ''http://'' @ strings_TrimSuffix target ''.'' @ '':'' @ itoa port)) services)))"

definition client_Resolve :: "goerror + (string \<times> nat) list list \<Rightarrow> endpointSource \<Rightarrow> goerror + string list" where
  "client_Resolve found source =
     (case source of FixedEndpoint srv \<Rightarrow> Inr [srv] | DomainLookup \<Rightarrow> resolver_Resolve found)"

section \<open>Statuses and requests\<close>

datatype svcState = StartPending | SvcRunning | SvcPaused | StopPending

record svcStatus =
  ss_State :: svcState
  ss_Accepts :: bool
  ss_CheckPoint :: "32 word"

datatype svcRequest = Interrogate svcStatus | SvcStop | SvcShutdown | SvcPause | SvcContinue | SvcOther

definition svc_status :: "svcState \<Rightarrow> bool \<Rightarrow> svcStatus" where
  "svc_status state accepts = \<lparr>ss_State = state, ss_Accepts = accepts, ss_CheckPoint = 0\<rparr>"

definition sendProgress :: "svcStatus list \<times> 32 word \<Rightarrow> svcStatus list \<times> 32 word" where
  "sendProgress st =
     (let (changes, checkpoint) = st
      in (changes @ [\<lparr>ss_State = StartPending, ss_Accepts = False, ss_CheckPoint = checkpoint\<rparr>], checkpoint + 1))"

section \<open>The handler\<close>

record handler =
  hd_Name :: string
  hd_Conf :: enforceConfig
  hd_ConfErr :: "goerror option"

record execution =
  ex_handler :: handler
  ex_environment :: properties
  ex_uiCommand :: "string \<times> string list"
  ex_client :: endpointSource
  ex_cache :: "string option"
  ex_service :: service
  ex_changes :: "svcStatus list"
  ex_exit :: "nat option"

definition serviceArguments :: "hostenv \<Rightarrow> string list \<Rightarrow> handler \<Rightarrow> goerror + handler" where
  "serviceArguments ho args h =
     (let h = (case args of [] \<Rightarrow> h | name # _ \<Rightarrow> h\<lparr>hd_Name := name\<rparr>) in
      if length args > 1 then
        (case ho_Parse ho (tl args) of
           Inl err \<Rightarrow> Inl err
         | Inr cmd \<Rightarrow>
             let h = (if ec_Server cmd \<noteq> '''' then h\<lparr>hd_Conf := (hd_Conf h)\<lparr>ec_Server := ec_Server cmd\<rparr>\<rparr> else h);
                 h = (if ec_Passive cmd then h\<lparr>hd_Conf := (hd_Conf h)\<lparr>ec_Passive := True\<rparr>\<rparr> else h)
             in Inr h)
      else Inr h)"

text \<open>\<^verbatim>\<open>Execute\<close> up to its loop. An error gives the statuses sent before it; the deferred one is added.\<close>

definition Execute_fail :: "svcStatus list \<times> 32 word \<Rightarrow> svcStatus list + execution" where
  "Execute_fail progress = Inl (fst progress @ [svc_status StopPending False])"

definition Execute :: "hostenv \<Rightarrow> handler \<Rightarrow> string list \<Rightarrow> svcStatus list + execution" where
  "Execute ho h args =
     (let progress = sendProgress ([], 0) in
      if hd_ConfErr h \<noteq> None then Execute_fail progress
      else case serviceArguments ho args h of
        Inl err \<Rightarrow> Execute_fail progress
      | Inr h \<Rightarrow>
          let progress = sendProgress progress in
          case ho_Executable ho of
            Inl err \<Rightarrow> Execute_fail progress
          | Inr executable \<Rightarrow>
              let uiCommand = (executable, [''ui'']); progress = sendProgress progress in
              case buildEnvironment ho of
                Inl err \<Rightarrow> Execute_fail progress
              | Inr environment \<Rightarrow>
                  let progress = sendProgress progress;
                      client = newClient (ec_Server (hd_Conf h)); progress = sendProgress progress;
                      cache = (case cacheDir ho of Inl err \<Rightarrow> None | Inr polDir \<Rightarrow> if polDir \<noteq> '''' then Some polDir else None);
                      progress = sendProgress progress
                  in case Service_Start Service_New of
                       (service, Some err) \<Rightarrow> Execute_fail progress
                     | (service, None) \<Rightarrow>
                         Inr \<lparr>ex_handler = h, ex_environment = environment, ex_uiCommand = uiCommand, ex_client = client,
                              ex_cache = cache, ex_service = service,
                              ex_changes = fst progress @ [svc_status SvcRunning True], ex_exit = None\<rparr>)"

text \<open>The deferred calls, in the order they run, when the loop returns.\<close>

definition Execute_return :: "nat \<Rightarrow> execution \<Rightarrow> execution" where
  "Execute_return errno x =
     x\<lparr>ex_service := Service_Stop (ex_service x), ex_changes := ex_changes x @ [svc_status StopPending False],
       ex_exit := Some errno\<rparr>"

definition Execute_request :: "svcRequest \<Rightarrow> execution \<Rightarrow> execution" where
  "Execute_request req x =
     (case req of
        Interrogate status \<Rightarrow> x\<lparr>ex_changes := ex_changes x @ [status, status]\<rparr>
      | SvcStop \<Rightarrow> Execute_return 0 (x\<lparr>ex_changes := ex_changes x @ [svc_status StopPending False]\<rparr>)
      | SvcShutdown \<Rightarrow> Execute_return 0 (x\<lparr>ex_changes := ex_changes x @ [svc_status StopPending False]\<rparr>)
      | SvcPause \<Rightarrow>
          x\<lparr>ex_changes := ex_changes x @ [svc_status SvcPaused True], ex_service := Service_Stop (ex_service x)\<rparr>
      | SvcContinue \<Rightarrow>
          x\<lparr>ex_changes := ex_changes x @ [svc_status SvcRunning True], ex_service := fst (Service_Start (ex_service x))\<rparr>
      | SvcOther \<Rightarrow> x)"

section \<open>Steps\<close>

definition service_env :: "'r senv \<Rightarrow> execution \<Rightarrow> 'r senv" where
  "service_env E x =
     E\<lparr>se_env := ex_environment x, se_passive := ec_Passive (hd_Conf (ex_handler x)), se_policyInterval := Minute\<rparr>"

text \<open>
  The package \<^verbatim>\<open>svc\<close> documents that an interrogation carries the last status that was sent. The
  goroutines of the service neither start nor stop it.
\<close>

inductive ex_step :: "'r senv \<Rightarrow> execution \<Rightarrow> execution \<Rightarrow> bool" for E where
  request: "ex_exit x = None \<Longrightarrow> (\<And>status. req = Interrogate status \<Longrightarrow> status = last (ex_changes x)) \<Longrightarrow>
    ex_step E x (Execute_request req x)"
| background: "ex_exit x = None \<Longrightarrow> sv_step (service_env E x) (ex_service x) s \<Longrightarrow>
    sv_running s = sv_running (ex_service x) \<Longrightarrow> ex_step E x (x\<lparr>ex_service := s\<rparr>)"

section \<open>The service manager is told the truth\<close>

definition ex_ok :: "execution \<Rightarrow> bool" where
  "ex_ok x \<longleftrightarrow> ex_changes x \<noteq> [] \<and> sv_ok (ex_service x) \<and>
     (case ex_exit x of
        None \<Rightarrow> last (ex_changes x) = svc_status (if sv_running (ex_service x) then SvcRunning else SvcPaused) True
      | Some errno \<Rightarrow> last (ex_changes x) = svc_status StopPending False \<and> \<not> sv_running (ex_service x))"

lemma Service_Stop_running [simp]: "\<not> sv_running (Service_Stop s)"
  by (simp add: Service_Stop_def)

lemma Service_Start_running [simp]: "sv_running (fst (Service_Start s))"
  by (simp add: Service_Start_def)

lemma Service_operations_ok: "sv_ok s \<Longrightarrow> sv_ok (Service_Stop s)" "sv_ok s \<Longrightarrow> sv_ok (fst (Service_Start s))"
  by (blast intro: sv_step_ok sv_step.stop) (simp add: sv_ok_def Service_Start_def)

lemma ex_step_ok: "ex_step E x x' \<Longrightarrow> ex_ok x \<Longrightarrow> ex_ok x'"
proof (induction rule: ex_step.induct)
  case (request x req)
  then show ?case
    by (cases req) (auto simp: ex_ok_def Execute_request_def Execute_return_def Service_operations_ok split: option.splits)
next
  case (background x s)
  then show ?case by (auto simp: ex_ok_def dest: sv_step_ok split: option.splits)
qed

interpretation exInv: inductive_invariant "ex_step E" ex_ok for E
  by unfold_locales (rule ex_step_ok)

lemma Execute_ok: "Execute ho h args = Inr x \<Longrightarrow> ex_ok x"
  using Service_operations_ok(2) [OF Service_New_ok]
  by (auto simp: Execute_def Execute_fail_def Let_def ex_ok_def Service_Start_def Service_New_def split: if_splits sum.splits)

text \<open>The handler runs the enforcement service: its executions are executions of that service.\<close>

lemma ex_step_service:
  "ex_step E x x' \<Longrightarrow> service_env E x' = service_env E x \<and> (sv_step (service_env E x))\<^sup>*\<^sup>* (ex_service x) (ex_service x')"
proof (induction rule: ex_step.induct)
  case (request x req)
  have start: "(sv_step (service_env E x))\<^sup>*\<^sup>* s (fst (Service_Start s))" for s
    by (cases "sv_running s") (auto simp: Service_Start_def intro!: r_into_rtranclp sv_step.start)
  show ?case by (cases req) (auto simp: Execute_request_def Execute_return_def service_env_def [of _ "_\<lparr>ex_changes := _\<rparr>"]
      service_env_def start [unfolded service_env_def] intro!: r_into_rtranclp sv_step.stop)
qed (auto simp: service_env_def)

lemma ex_run_service:
  assumes "(ex_step E)\<^sup>*\<^sup>* x x'"
  shows "service_env E x' = service_env E x \<and> (sv_step (service_env E x))\<^sup>*\<^sup>* (ex_service x) (ex_service x')"
  using assms by (induction rule: rtranclp_induct) (auto dest!: ex_step_service)

lemma Execute_service:
  assumes "Execute ho h args = Inr x"
  shows "sv_step E Service_New (ex_service x)"
proof -
  have "ex_service x = fst (Service_Start Service_New)"
    using assms by (auto simp: Execute_def Execute_fail_def Let_def split: if_splits sum.splits prod.splits option.splits)
  then show ?thesis by (auto simp: Service_Start_def Service_New_def intro!: sv_step.start)
qed

text \<open>The checkpoints of the progress reports count up from zero.\<close>

definition progress_report :: "nat \<Rightarrow> svcStatus" where
  "progress_report i = \<lparr>ss_State = StartPending, ss_Accepts = False, ss_CheckPoint = of_nat i\<rparr>"

lemma sendProgress_count: "(sendProgress ^^ n) ([], 0) = (map progress_report [0..<n], of_nat n)"
  by (induction n) (simp_all add: sendProgress_def progress_report_def add.commute)

lemma Execute_progress:
  assumes "Execute ho h args = Inl changes"
  shows "\<exists>n. 1 \<le> n \<and> n \<le> 6 \<and> changes = map progress_report [0..<n] @ [svc_status StopPending False]"
proof -
  have "\<exists>n\<in>{1,2,3,6}. changes = fst ((sendProgress ^^ n) ([], 0)) @ [svc_status StopPending False]"
    using assms by (auto simp: Execute_def Execute_fail_def Let_def numeral_eq_Suc split: if_splits sum.splits prod.splits option.splits)
  then show ?thesis unfolding sendProgress_count fst_conv by (elim bexE) (intro exI conjI, auto)
qed

end
