(* ===== verification/ServerRun.thy ===== *)
theory ServerRun
  imports ServerOps
begin

text \<open>
  The life of a server, \<^verbatim>\<open>Server.Run\<close> of \<^verbatim>\<open>src/guardian/server.go\<close>: the goroutine that calls
  it, the one that serves requests, the timer that refreshes leases, and the goroutines that
  \<^verbatim>\<open>publishLeaseUpdate\<close> starts. A state says how far each of them is; a request, a tick of the timer
  or a publication is one step. Requests that are being handled may outlive \<^verbatim>\<open>Run\<close>, because
  the shutdown of the listener has a time limit.
\<close>

section \<open>States and their operations\<close>

datatype runphase = Serving | ServeFailed goerror | ShuttingDown | RunReturned goerror

record 'p serverrun =
  sr_store :: 'p
  sr_phase :: runphase
  sr_listening :: bool
  sr_cancelled :: bool
  sr_refreshing :: "bool option"
  sr_pending :: "snapshot list"
  sr_calls :: "streamcall list"

text \<open>
  The beginning of \<^verbatim>\<open>Run\<close>. \<open>sr_refreshing\<close> is \<open>None\<close> when there is no timer, and otherwise tells
  whether its goroutine runs. Without a logger the message about a listener that cannot be created
  dereferences nil.
\<close>

definition Server_Run ::
  "'p server \<Rightarrow> bool \<Rightarrow> duration \<Rightarrow> (string \<Rightarrow> nat \<Rightarrow> 'p \<Rightarrow> 'p) \<Rightarrow> (string \<Rightarrow> nat \<Rightarrow> time) \<Rightarrow> goerror option \<Rightarrow> 'p \<Rightarrow> 'p serverrun go" where
  "Server_Run s logger interval env clock listen p =
     go_bind (Purge s env clock p) (\<lambda>(p, _).
       case listen of
         Some err \<Rightarrow>
           if \<not> logger then Inl (Panic ''invalid memory address or nil pointer dereference'')
           else go_bind (Purge s env clock p) (\<lambda>(p, _).
             Inr \<lparr>sr_store = p, sr_phase = RunReturned err, sr_listening = False, sr_cancelled = True,
                  sr_refreshing = None, sr_pending = [], sr_calls = []\<rparr>)
       | None \<Rightarrow>
           Inr \<lparr>sr_store = p, sr_phase = Serving, sr_listening = True, sr_cancelled = False,
                sr_refreshing = (if interval > 0 then Some True else None), sr_pending = [], sr_calls = []\<rparr>)"

definition refreshDone :: "'p serverrun \<Rightarrow> bool" where
  "refreshDone st \<longleftrightarrow> sr_refreshing st \<noteq> Some True"

definition serve_error :: "goerror \<Rightarrow> 'p serverrun \<Rightarrow> 'p serverrun" where
  "serve_error err st = st\<lparr>sr_phase := ServeFailed err, sr_cancelled := True\<rparr>"

definition begin_shutdown :: "'p serverrun \<Rightarrow> 'p serverrun" where
  "begin_shutdown st = st\<lparr>sr_phase := ShuttingDown, sr_calls := sr_calls st @ [StreamShutdown]\<rparr>"

definition finish_run ::
  "'p server \<Rightarrow> (string \<Rightarrow> nat \<Rightarrow> 'p \<Rightarrow> 'p) \<Rightarrow> (string \<Rightarrow> nat \<Rightarrow> time) \<Rightarrow> goerror \<Rightarrow> 'p serverrun \<Rightarrow> 'p serverrun go" where
  "finish_run s env clock err st =
     go_bind (Purge s env clock (sr_store st)) (\<lambda>(p, _).
       Inr (st\<lparr>sr_store := p, sr_phase := RunReturned err, sr_cancelled := True\<rparr>))"

definition with_updates :: "'p \<Rightarrow> snapshot list \<Rightarrow> 'p serverrun \<Rightarrow> 'p serverrun" where
  "with_updates p ev st = st\<lparr>sr_store := p, sr_pending := sr_pending st @ ev\<rparr>"

section \<open>Steps\<close>

inductive run_step ::
  "'p server \<Rightarrow> (event \<Rightarrow> goerror option) \<Rightarrow> (('p \<Rightarrow> 'p) \<Rightarrow> bool) \<Rightarrow> (goerror + form \<Rightarrow> bool) \<Rightarrow>
   'p serverrun \<Rightarrow> 'p serverrun \<Rightarrow> bool"
  for s :: "'p server" and enc :: "event \<Rightarrow> goerror option"
    and calm :: "('p \<Rightarrow> 'p) \<Rightarrow> bool" and admit :: "goerror + form \<Rightarrow> bool" where
  acquire_request: "sr_listening st \<Longrightarrow> admit r \<Longrightarrow> \<forall>n. calm (renv n) \<Longrightarrow> \<forall>n. calm (env n) \<Longrightarrow>
    acquireHandler s renv rclock env clock r (sr_store st) = Inr (p, ev, resp) \<Longrightarrow>
    run_step s enc calm admit st (with_updates p ev st)"
| release_request: "sr_listening st \<Longrightarrow> admit r \<Longrightarrow> \<forall>n. calm (env n) \<Longrightarrow>
    releaseHandler s env clock r (sr_store st) = Inr (p, ev, resp) \<Longrightarrow>
    run_step s enc calm admit st (with_updates p ev st)"
| leases_request: "sr_listening st \<Longrightarrow> \<forall>res. calm (senv res) \<Longrightarrow>
    leasesHandler s senv sclock r (sr_store st) = Inr (p, resp) \<Longrightarrow>
    run_step s enc calm admit st (st\<lparr>sr_store := p\<rparr>)"
| stream_request: "sr_listening st \<Longrightarrow> \<forall>res. calm (senv res) \<Longrightarrow>
    streamHandler enc s senv sclock accept client (sr_store st) = Inr (p, Inr calls) \<Longrightarrow>
    run_step s enc calm admit st (st\<lparr>sr_store := p, sr_calls := sr_calls st @ calls\<rparr>)"
| stream_end: "StreamRegister c \<in> set (sr_calls st) \<Longrightarrow>
    run_step s enc calm admit st (st\<lparr>sr_calls := sr_calls st @ [StreamRemove c]\<rparr>)"
| publish: "i < length (sr_pending st) \<Longrightarrow>
    run_step s enc calm admit st
      (st\<lparr>sr_pending := take i (sr_pending st) @ drop (Suc i) (sr_pending st),
          sr_calls := sr_calls st @ [publishLeaseUpdate enc (sr_pending st ! i)]\<rparr>)"
| tick: "sr_refreshing st = Some True \<Longrightarrow> \<forall>res. calm (senv res) \<Longrightarrow>
    refreshLeases s senv sclock (sr_store st) = Inr (p, ev) \<Longrightarrow>
    run_step s enc calm admit st (with_updates p ev st)"
| refresh_ends: "sr_refreshing st = Some True \<Longrightarrow> sr_cancelled st \<Longrightarrow>
    run_step s enc calm admit st (st\<lparr>sr_refreshing := Some False\<rparr>)"
| cancelled: "run_step s enc calm admit st (st\<lparr>sr_cancelled := True\<rparr>)"
| serve_fails: "sr_phase st = Serving \<Longrightarrow> run_step s enc calm admit st (serve_error err st)"
| failed: "sr_phase st = ServeFailed err \<Longrightarrow> refreshDone st \<Longrightarrow> \<forall>res n. calm (penv res n) \<Longrightarrow>
    finish_run s penv pclock err st = Inr st' \<Longrightarrow> run_step s enc calm admit st st'"
| shutdown: "sr_phase st = Serving \<Longrightarrow> sr_cancelled st \<Longrightarrow> refreshDone st \<Longrightarrow>
    run_step s enc calm admit st (begin_shutdown st)"
| served: "sr_phase st = ShuttingDown \<Longrightarrow> \<forall>res n. calm (penv res n) \<Longrightarrow>
    finish_run s penv pclock err st = Inr st' \<Longrightarrow> run_step s enc calm admit st st'"

section \<open>What holds while a server runs\<close>

lemma calls_ok_append: "calls_ok T (xs @ ys) \<longleftrightarrow> calls_ok T xs \<and> calls_ok T ys"
  unfolding calls_ok_def by auto

lemma calls_ok_simps [simp]:
  "calls_ok T []" "calls_ok T [StreamShutdown]" "calls_ok T [StreamRemove c]"
  "snap_ok T snap \<Longrightarrow> calls_ok T [publishLeaseUpdate enc snap]"
  by (auto simp: calls_ok_def publishLeaseUpdate_def makeLeasesEvent_def Let_def split: option.splits)

text \<open>The timer has stopped before the shutdown begins, and before \<^verbatim>\<open>Run\<close> returns.\<close>

definition timer_ok :: "'p serverrun \<Rightarrow> bool" where
  "timer_ok st \<longleftrightarrow>
     (case sr_phase st of
        Serving \<Rightarrow> sr_listening st
      | ServeFailed err \<Rightarrow> sr_cancelled st \<and> sr_listening st
      | ShuttingDown \<Rightarrow> sr_cancelled st \<and> sr_listening st \<and> refreshDone st
      | RunReturned err \<Rightarrow> sr_cancelled st \<and> refreshDone st)"

lemma finish_run_fields:
  assumes "finish_run s env clock err st = Inr st'"
  shows "\<exists>p e. Purge s env clock (sr_store st) = Inr (p, e) \<and>
    st' = st\<lparr>sr_store := p, sr_phase := RunReturned err, sr_cancelled := True\<rparr>"
  using assms by (auto simp: finish_run_def go_bind_eq_Inr)

lemma timer_ok_step: "run_step s enc calm admit st st' \<Longrightarrow> timer_ok st \<Longrightarrow> timer_ok st'"
  by (induction rule: run_step.induct)
    (auto simp: timer_ok_def refreshDone_def with_updates_def serve_error_def begin_shutdown_def
      dest!: finish_run_fields split: runphase.splits)

definition run_ok :: "terms \<Rightarrow> ('p \<Rightarrow> bool) \<Rightarrow> ('p \<Rightarrow> string \<Rightarrow> leases) \<Rightarrow> 'p serverrun \<Rightarrow> bool" where
  "run_ok T invar content st \<longleftrightarrow> store_ok T invar content (sr_store st) \<and>
     list_all (snap_ok T) (sr_pending st) \<and> calls_ok T (sr_calls st) \<and> timer_ok st"

context guardian
begin

lemma acquireHandler_events:
  assumes "ok p" and "\<forall>n. calm (renv n)" and "\<forall>n. calm (env n)" and admit: "request_ok T s r"
    and s: "sc_LeaseProvider s = prov" "sc_sort s = srt"
    and run: "acquireHandler s renv rclock env clock r p = Inr (p', ev, resp)"
  shows "list_all (snap_ok T) ev"
proof (cases "initRequest s r")
  case (Inr rp)
  obtain req pols where rp: "rp = (req, pols)" by fastforce
  from run Inr rp obtain p1 ev1 err1 where sw: "acquire_switch s renv rclock req pols p = Inr (p1, ev1, err1)"
    by (auto simp: acquireHandler_def go_bind_eq_Inr)
  have ev1: "list_all (snap_ok T) ev1"
    using sw release_ok(2) [OF assms(1,2) s] by (auto simp: acquire_switch_def split: if_splits)
  have p1: "ok p1" by (rule acquire_switch_ok [OF assms(1,2) s sw])
  show ?thesis
  proof (cases "err1 = None \<and> PolicySet_Resource pols \<noteq> ''''")
    case False
    with run Inr rp sw ev1 show ?thesis
      by (auto simp: acquireHandler_def Let_def split: option.splits)
  next
    case True
    let ?props = "MergeProperties [rq_Properties req, PolicySet_Properties pols]"
    from run Inr rp sw True obtain p2 ev2 res where
      acq: "acquire s env clock (assigned req pols) ?props pols p1 = Inr (p2, ev2, res)"
      by (auto simp: acquireHandler_def go_bind_eq_Inr Let_def)
    have "pols_terms T (assigned req pols) pols" using admit Inr rp True by (simp add: request_ok_def)
    then have "list_all (snap_ok T) ev2" using acquire_ok [OF p1 assms(3) _ s acq] by blast
    moreover have "ev = ev1 @ ev2"
      using run Inr rp sw True acq by (cases res) (auto simp: acquireHandler_def Let_def split: if_split_asm)
    ultimately show ?thesis using ev1 by simp
  qed
qed (use run in \<open>simp add: acquireHandler_def\<close>)

lemma releaseHandler_events:
  assumes "ok p" and "\<forall>n. calm (env n)" and s: "sc_LeaseProvider s = prov" "sc_sort s = srt"
    and run: "releaseHandler s env clock r p = Inr (p', ev, resp)"
  shows "list_all (snap_ok T) ev"
  using run release_ok(2) [OF assms(1,2) s]
  by (auto simp: releaseHandler_def go_bind_eq_Inr Let_def split: sum.splits option.splits if_splits)

lemma run_step_ok:
  assumes "run_step s enc calm (request_ok T s) st st'" and "run_ok T invar content st"
    and s: "sc_LeaseProvider s = prov" "sc_sort s = srt"
  shows "run_ok T invar content st'"
proof -
  have old: "ok (sr_store st)" "list_all (snap_ok T) (sr_pending st)" "calls_ok T (sr_calls st)"
    using assms(2) by (simp_all add: run_ok_def)
  have timer: "timer_ok st'" using timer_ok_step [OF assms(1)] assms(2) by (simp add: run_ok_def)
  show ?thesis using assms(1)
  proof cases
    case (acquire_request r renv env rclock clock p ev resp)
    with old timer acquireHandler_ok [OF old(1) _ _ _ s] acquireHandler_events [OF old(1) _ _ _ s]
    show ?thesis unfolding run_ok_def by (simp add: with_updates_def)
  next
    case (release_request r env clock p ev resp)
    with old timer releaseHandler_ok [OF old(1) _ s] releaseHandler_events [OF old(1) _ s]
    show ?thesis unfolding run_ok_def by (simp add: with_updates_def)
  next
    case (leases_request senv sclock r p resp)
    with old timer leasesHandler_ok [OF old(1) leases_request(3) s, of sclock r]
    show ?thesis unfolding run_ok_def by auto
  next
    case (stream_request senv sclock accept client p calls)
    with old timer streamHandler_ok [OF old(1) stream_request(3) s, of enc sclock accept client]
    show ?thesis unfolding run_ok_def by (auto simp: calls_ok_append)
  next
    case (publish i)
    then have "snap_ok T (sr_pending st ! i)" using old(2) by (simp add: list_all_length)
    with publish old timer show ?thesis unfolding run_ok_def
      by (auto simp: calls_ok_append list_all_iff dest: in_set_takeD in_set_dropD)
  next
    case (tick senv sclock p ev)
    with old timer refreshLeases_ok [OF old(1) tick(3) s, of sclock]
    show ?thesis unfolding run_ok_def by (auto simp: with_updates_def)
  next
    case (failed err penv pclock)
    with finish_run_fields [OF failed(4)] old timer Purge_ok [OF old(1) failed(3) s]
    show ?thesis unfolding run_ok_def by auto
  next
    case (served penv pclock err)
    with finish_run_fields [OF served(3)] old timer Purge_ok [OF old(1) served(2) s]
    show ?thesis unfolding run_ok_def by auto
  qed (use old timer in \<open>auto simp: run_ok_def calls_ok_append serve_error_def begin_shutdown_def\<close>)
qed

lemma run_reachable_ok:
  assumes "(run_step s enc calm (request_ok T s))\<^sup>*\<^sup>* st st'" and "run_ok T invar content st"
    and s: "sc_LeaseProvider s = prov" "sc_sort s = srt"
  shows "run_ok T invar content st'"
  using assms(1) by (induction rule: rtranclp_induct) (use assms(2) run_step_ok [OF _ _ s] in blast)+

lemma Server_Run_ok:
  assumes "ok p" and "\<forall>res n. calm (env res n)" and s: "sc_LeaseProvider s = prov" "sc_sort s = srt"
    and run: "Server_Run s logger interval env clock listen p = Inr st"
  shows "run_ok T invar content st"
proof -
  from run obtain p1 e1 where P: "Purge s env clock p = Inr (p1, e1)" by (auto simp: Server_Run_def go_bind_eq_Inr)
  have p1: "ok p1" by (rule Purge_ok [OF assms(1,2) s P])
  show ?thesis
  proof (cases listen)
    case None
    with run P p1 show ?thesis by (auto simp: Server_Run_def run_ok_def timer_ok_def)
  next
    case (Some err)
    with run P Purge_ok [OF p1 assms(2) s] show ?thesis
      by (auto simp: Server_Run_def run_ok_def timer_ok_def refreshDone_def go_bind_eq_Inr split: if_splits)
  qed
qed

text \<open>A server whose context is cancelled, or whose listener fails, can always finish.\<close>

lemma run_returns:
  assumes "run_ok T invar content st" and stop: "sr_cancelled st"
    and s: "sc_LeaseProvider s = prov" "sc_sort s = srt"
  shows "\<exists>st' err. (run_step s enc calm (request_ok T s))\<^sup>*\<^sup>* st st' \<and> sr_phase st' = RunReturned err"
proof -
  let ?step = "run_step s enc calm (request_ok T s)"
  define st1 where "st1 = (if refreshDone st then st else st\<lparr>sr_refreshing := Some False\<rparr>)"
  have r1: "?step\<^sup>*\<^sup>* st st1"
    using run_step.refresh_ends [of st s enc calm "request_ok T s"] stop by (auto simp: st1_def refreshDone_def)
  have st1: "refreshDone st1" "sr_phase st1 = sr_phase st" "sr_cancelled st1" "sr_store st1 = sr_store st"
    using stop by (auto simp: st1_def refreshDone_def)
  have idle: "\<forall>res n. calm ((\<lambda>_ _ p. p) res n)" by (simp add: env_ok_def)
  have fin: "\<exists>st'. finish_run s (\<lambda>_ _ p. p) (\<lambda>_ _. 0) err x = Inr st' \<and> sr_phase st' = RunReturned err"
    if x: "sr_store x = sr_store st" for err x
  proof -
    have "ok (sr_store st)" using assms(1) by (simp add: run_ok_def)
    from Purge_total [OF this idle s, of "\<lambda>_ _. 0"] x show ?thesis by (auto simp: finish_run_def)
  qed
  have close: "\<exists>st' err. ?step\<^sup>*\<^sup>* x st' \<and> sr_phase st' = RunReturned err"
    if x: "sr_phase x = ShuttingDown" "sr_store x = sr_store st" for x
  proof -
    from fin [OF x(2)] obtain st' where st': "finish_run s (\<lambda>_ _ p. p) (\<lambda>_ _. 0) ''http: Server closed'' x = Inr st'"
      "sr_phase st' = RunReturned ''http: Server closed''" by blast
    from run_step.served [where penv = "\<lambda>_ _ p. p" and calm = calm, OF x(1) idle st'(1)] st'(2) show ?thesis by blast
  qed
  have "\<exists>st' err. ?step\<^sup>*\<^sup>* st1 st' \<and> sr_phase st' = RunReturned err"
  proof (cases "sr_phase st1")
    case Serving
    from close [of "begin_shutdown st1"] st1(4) obtain st' err where
      "?step\<^sup>*\<^sup>* (begin_shutdown st1) st'" "sr_phase st' = RunReturned err" by (auto simp: begin_shutdown_def)
    with run_step.shutdown [OF Serving st1(3,1)] show ?thesis by (meson converse_rtranclp_into_rtranclp)
  next
    case (ServeFailed err)
    from fin [OF st1(4)] obtain st' where st': "finish_run s (\<lambda>_ _ p. p) (\<lambda>_ _. 0) err st1 = Inr st'"
      "sr_phase st' = RunReturned err" by blast
    from run_step.failed [where penv = "\<lambda>_ _ p. p" and calm = calm, OF ServeFailed st1(1) idle st'(1)] st'(2) show ?thesis by blast
  next
    case ShuttingDown
    with close st1(4) show ?thesis by blast
  qed blast
  with r1 show ?thesis by (meson rtranclp_trans)
qed

end

section \<open>Updates can overtake one another\<close>

text \<open>
  Two updates that wait to be published can be broadcast in either order, so a listener can be left
  with the older one.
\<close>

lemma updates_can_be_reordered:
  assumes "sr_pending st = [older, newer]" and "enc (LeasesEvent older) = None" and "enc (LeasesEvent newer) = None"
  shows "\<exists>st'. (run_step s enc calm admit)\<^sup>*\<^sup>* st st' \<and>
    sr_calls st' = sr_calls st @ [StreamBroadcast (Some (LeasesEvent newer)), StreamBroadcast (Some (LeasesEvent older))]"
proof -
  let ?pub = "\<lambda>snap. publishLeaseUpdate enc snap"
  let ?st1 = "st\<lparr>sr_pending := [older], sr_calls := sr_calls st @ [?pub newer]\<rparr>"
  let ?st2 = "?st1\<lparr>sr_pending := [], sr_calls := sr_calls ?st1 @ [?pub older]\<rparr>"
  have "run_step s enc calm admit st ?st1" using run_step.publish [of 1 st s enc calm admit] assms(1) by simp
  moreover have "run_step s enc calm admit ?st1 ?st2" using run_step.publish [of 0 ?st1 s enc calm admit] by simp
  ultimately have "(run_step s enc calm admit)\<^sup>*\<^sup>* st ?st2" by simp
  with assms(2,3) show ?thesis by (intro exI [of _ ?st2]) (simp add: publishLeaseUpdate_def makeLeasesEvent_def Let_def)
qed

end
