(* ===== verification/Commands.thy ===== *)
theory Commands
  imports WinService ServerRun Schedule StatManager
begin

text \<open>
  The commands of \<^verbatim>\<open>src/cmd/resourceful/\<close>: how the guardian daemon is put together
  (\<^verbatim>\<open>guardian.go\<close>), the recipient of its statistics (\<^verbatim>\<open>stathat.go\<close>), the list, ui and enforce
  commands, and the numbers of the version resource (\<^verbatim>\<open>builder.go\<close>). What the operating system and
  the libraries answer are arguments; exits are numbers.
\<close>

section \<open>The guardian daemon\<close>

record guardianCmd =
  gc_LeaseStorage :: string
  gc_BoltPath :: string
  gc_PolicyPath :: string
  gc_TxPath :: string
  gc_Schedule :: string
  gc_StatHatKey :: string
  gc_StatsInterval :: duration

datatype leaseStorage = MemoryStorage | BoltStorage string

record daemonenv =
  de_lib :: golib
  de_fl :: "nat \<Rightarrow> nat \<Rightarrow> nat \<Rightarrow> nat"
  de_Getwd :: "goerror + string"
  de_Abs :: "string \<Rightarrow> goerror + string"
  de_OpenFile :: "string \<Rightarrow> goerror option"
  de_BoltOpen :: "string \<Rightarrow> goerror option"
  de_SubFS :: "goerror option"
  de_Policies :: "string \<Rightarrow> policies \<times> goerror option"
  de_StatsInit :: "goerror option"

definition createStatRecipient :: "string \<Rightarrow> (string \<times> string) option" where
  "createStatRecipient statHatKey = (if statHatKey \<noteq> '''' then Some (''resourceful'', statHatKey) else None)"

definition createTransactionLog :: "daemonenv \<Rightarrow> string \<Rightarrow> goerror + string option" where
  "createTransactionLog de path =
     (if path = '''' then Inr None
      else case de_OpenFile de path of Some err \<Rightarrow> Inl err | None \<Rightarrow> Inr (Some path))"

definition createLeaseProvider :: "daemonenv \<Rightarrow> string \<Rightarrow> string \<Rightarrow> goerror + leaseStorage" where
  "createLeaseProvider de storage boltPath =
     (let s = strings_ToLower (de_lib de) storage in
      if s = ''mem'' \<or> s = ''memory'' then Inr MemoryStorage
      else if s = ''bolt'' \<or> s = ''boltdb'' then
        (case de_BoltOpen de boltPath of
           Some err \<Rightarrow> Inl (''unable to open or create bolt database '' @ quoted boltPath @ '': '' @ err)
         | None \<Rightarrow> Inr (BoltStorage boltPath))
      else Inl (''unknown lease storage type: '' @ storage))"

record daemon =
  dm_PolicyPath :: string
  dm_Storage :: leaseStorage
  dm_Log :: "(string \<times> schedule list) option"
  dm_Policies :: policies
  dm_Recipient :: "(string \<times> string) option"
  dm_StatsInterval :: duration
  dm_RefreshInterval :: duration
  dm_ShutdownTimeout :: duration

definition minStatsInterval :: duration where "minStatsInterval = 5 * Second"

text \<open>\<^verbatim>\<open>Run\<close> up to the server: \<open>Inl\<close> is what the command returns when it does not get there.\<close>

definition GuardianCmd_Run :: "daemonenv \<Rightarrow> guardianCmd \<Rightarrow> goerror option + daemon" where
  "GuardianCmd_Run de cmd =
     (let cmd = (if gc_StatsInterval cmd < minStatsInterval then cmd\<lparr>gc_StatsInterval := minStatsInterval\<rparr> else cmd) in
      case (if gc_PolicyPath cmd = '''' then de_Getwd de else Inr (gc_PolicyPath cmd)) of
        Inl err \<Rightarrow> Inl None
      | Inr path \<Rightarrow>
          (case de_Abs de path of
             Inl err \<Rightarrow> Inl None
           | Inr path \<Rightarrow>
               (case (if gc_Schedule cmd \<noteq> '''' then ParseSchedule (de_fl de) (gc_Schedule cmd) else Inr []) of
                  Inl err \<Rightarrow> Inl (Some err)
                | Inr checkpointSchedule \<Rightarrow>
                    (case createTransactionLog de (gc_TxPath cmd) of
                       Inl err \<Rightarrow> Inl (Some err)
                     | Inr txFile \<Rightarrow>
                         (case createLeaseProvider de (gc_LeaseStorage cmd) (gc_BoltPath cmd) of
                            Inl err \<Rightarrow> Inl (Some err)
                          | Inr storage \<Rightarrow>
                              let logging = (case txFile of None \<Rightarrow> None | Some file \<Rightarrow> Some (file, checkpointSchedule)) in
                              (case de_SubFS de of
                                 Some err \<Rightarrow> Inl (Some err)
                               | None \<Rightarrow>
                                   (case de_Policies de path of
                                      (_, Some err) \<Rightarrow> Inl None
                                    | (policies, None) \<Rightarrow>
                                        let recipient = createStatRecipient (gc_StatHatKey cmd) in
                                        if recipient \<noteq> None \<and> de_StatsInit de \<noteq> None then Inl (de_StatsInit de)
                                        else Inr \<lparr>dm_PolicyPath = path, dm_Storage = storage, dm_Log = logging, dm_Policies = policies,
                                             dm_Recipient = recipient, dm_StatsInterval = gc_StatsInterval cmd,
                                             dm_RefreshInterval = 2 * Second, dm_ShutdownTimeout = 5 * Second\<rparr>)))))))"

text \<open>What the command returns once the server has: the error of the server, whatever it is.\<close>

definition ErrServerClosed :: goerror where "ErrServerClosed = ''http: Server closed''"

definition GuardianCmd_return :: "'p serverrun \<Rightarrow> goerror option" where
  "GuardianCmd_return st = (case sr_phase st of RunReturned err \<Rightarrow> Some err | _ \<Rightarrow> None)"

section \<open>The life of the daemon\<close>

text \<open>
  The server runs beside the goroutine that reports statistics, on the same lease provider. When
  the server has returned, that goroutine makes one last report and the command returns.
\<close>

record 'p daemonstate =
  ds_server :: "'p serverrun"
  ds_stats :: "statmanager option"
  ds_sent :: "stat list"
  ds_statsDone :: bool
  ds_returned :: "goerror option"

definition daemon_stats ::
  "'p server \<Rightarrow> (string \<Rightarrow> time) \<Rightarrow> (string \<Rightarrow> goerror option) \<Rightarrow> statmanager \<Rightarrow> 'p daemonstate \<Rightarrow> 'p daemonstate go" where
  "daemon_stats s clock fails m d =
     go_bind (StatManager_CollectAndSend (sc_sort s) (sc_Policies s) (sc_LeaseProvider s) clock fails (sr_store (ds_server d)) m)
       (\<lambda>(p, m, sent, err).
         Inr (d\<lparr>ds_server := (ds_server d)\<lparr>sr_store := p\<rparr>, ds_stats := Some m, ds_sent := ds_sent d @ sent\<rparr>))"

inductive daemon_step ::
  "'p server \<Rightarrow> (event \<Rightarrow> goerror option) \<Rightarrow> (('p \<Rightarrow> 'p) \<Rightarrow> bool) \<Rightarrow> (goerror + form \<Rightarrow> bool) \<Rightarrow>
   'p daemonstate \<Rightarrow> 'p daemonstate \<Rightarrow> bool"
  for s :: "'p server" and enc :: "event \<Rightarrow> goerror option"
    and calm :: "('p \<Rightarrow> 'p) \<Rightarrow> bool" and admit :: "goerror + form \<Rightarrow> bool" where
  serves: "ds_returned d = None \<Longrightarrow> run_step s enc calm admit (ds_server d) st \<Longrightarrow>
    daemon_step s enc calm admit d (d\<lparr>ds_server := st\<rparr>)"
| reports: "ds_stats d = Some m \<Longrightarrow> \<not> ds_statsDone d \<Longrightarrow> daemon_stats s clock fails m d = Inr d' \<Longrightarrow>
    daemon_step s enc calm admit d d'"
| last_report: "ds_stats d = Some m \<Longrightarrow> \<not> ds_statsDone d \<Longrightarrow> sr_phase (ds_server d) = RunReturned err \<Longrightarrow>
    daemon_stats s clock fails m d = Inr d' \<Longrightarrow> daemon_step s enc calm admit d (d'\<lparr>ds_statsDone := True\<rparr>)"
| returns: "ds_returned d = None \<Longrightarrow> sr_phase (ds_server d) = RunReturned err \<Longrightarrow> ds_stats d = None \<or> ds_statsDone d \<Longrightarrow>
    daemon_step s enc calm admit d (d\<lparr>ds_returned := GuardianCmd_return (ds_server d)\<rparr>)"

section \<open>Sending statistics\<close>

text \<open>The library \<^verbatim>\<open>stathat\<close>: a post changes the outside world and may fail.\<close>

type_synonym 'w poster = "string \<Rightarrow> uint \<Rightarrow> time \<Rightarrow> 'w \<Rightarrow> 'w \<times> goerror option"

fun StatHat_tries :: "nat \<Rightarrow> 'w poster \<Rightarrow> string \<Rightarrow> uint \<Rightarrow> time \<Rightarrow> goerror option \<Rightarrow> 'w \<Rightarrow> 'w \<times> goerror option" where
  "StatHat_tries 0 post name v t err w = (w, err)"
| "StatHat_tries (Suc n) post name v t err w =
     (case post name v t w of
        (w, None) \<Rightarrow> (w, None)
      | (w, Some err) \<Rightarrow> StatHat_tries n post name v t (Some err) w)"

definition StatHat_send :: "string \<Rightarrow> 'w poster \<Rightarrow> string \<Rightarrow> string \<Rightarrow> uint \<Rightarrow> time \<Rightarrow> 'w \<Rightarrow> 'w \<times> goerror option" where
  "StatHat_send prefix post res name v t w =
     StatHat_tries 3 post (prefix @ '' '' @ res @ '' '' @ name) v t None w"

definition StatHat_SendUser :: "string \<Rightarrow> 'w poster \<Rightarrow> string \<Rightarrow> string \<Rightarrow> uint \<Rightarrow> time \<Rightarrow> 'w \<Rightarrow> 'w \<times> goerror option" where
  "StatHat_SendUser prefix post res user n t w = StatHat_send prefix post res (''user '' @ user) n t w"

fun StatHat_values :: "string \<Rightarrow> 'w poster \<Rightarrow> string \<Rightarrow> time \<Rightarrow> (string \<times> uint) list \<Rightarrow> 'w \<Rightarrow> 'w \<times> goerror option" where
  "StatHat_values prefix post res t [] w = (w, None)"
| "StatHat_values prefix post res t ((name, v) # rest) w =
     (case StatHat_send prefix post res name v t w of
        (w, Some err) \<Rightarrow> (w, Some err)
      | (w, None) \<Rightarrow> StatHat_values prefix post res t rest w)"

definition StatHat_SendResource :: "string \<Rightarrow> 'w poster \<Rightarrow> string \<Rightarrow> resourceStats \<Rightarrow> 'w \<Rightarrow> 'w \<times> goerror option" where
  "StatHat_SendResource prefix post res stats w =
     (case StatHat_values prefix post res (rt_Time stats)
             [(''consumed'', rt_Consumed stats), (''limit'', rt_Limit stats), (''active'', rt_Active stats),
              (''released'', rt_Released stats), (''queued'', rt_Queued stats)] w of
        (w, Some err) \<Rightarrow> (w, Some err)
      | (w, None) \<Rightarrow>
          (foldl (\<lambda>w (user, n). if user \<noteq> '''' then fst (StatHat_SendUser prefix post res user n (rt_Time stats) w) else w)
             w (rt_Users stats), None))"

section \<open>The other commands\<close>

record listing =
  li_Process :: procdata
  li_Resource :: string
  li_Instance :: instance_t
  li_Limit :: uint
  li_Duration :: duration
  li_Properties :: properties

definition ListCmd_Run ::
  "golib \<Rightarrow> (string \<Rightarrow> string \<Rightarrow> bool) \<Rightarrow> ((procdata \<Rightarrow> bool) \<Rightarrow> goerror + procdata list) \<Rightarrow> (string \<Rightarrow> string) \<Rightarrow>
   hostenv \<Rightarrow> goerror + policies \<Rightarrow> nat + listing list" where
  "ListCmd_Run lib eqf list digest ho collected =
     (case buildEnvironment ho of
        Inl err \<Rightarrow> Inl 1
      | Inr environment \<Rightarrow>
          (case collected of
             Inl err \<Rightarrow> Inl 1
           | Inr policies \<Rightarrow>
               (case Scan lib eqf list policies environment of
                  Inl err \<Rightarrow> Inl 1
                | Inr procs \<Rightarrow>
                    if length procs = 0 then Inl 0
                    else Inr (concat (map (\<lambda>process.
                      let inst = Enforcer_Instance (props_get environment ''host.name'') process (NewInstanceID digest process);
                          props = Enforcer_Properties process environment;
                          matches = PolicySet_Match lib policies props
                      in if length matches > 0
                         then [\<lparr>li_Process = process, li_Resource = PolicySet_Resource matches, li_Instance = inst,
                                li_Limit = PolicySet_Limit matches, li_Duration = PolicySet_Duration matches,
                                li_Properties = MergeProperties [props, PolicySet_Properties matches]\<rparr>]
                         else []) procs)))))"

definition collectPolicies :: "goerror + policies \<Rightarrow> goerror + policies" where
  "collectPolicies response =
     (case response of
        Inl err \<Rightarrow> Inl (''failed to collect resourceful policies: '' @ err)
      | Inr policies \<Rightarrow> Inr policies)"

text \<open>
  The loop of the user interface: messages from the pipe until it is closed. A read fails with \<open>EOF\<close>,
  after which the command returns, or with another error, after which it exits.
\<close>

datatype readError = EOF | ReadError goerror

fun UICmd_loop :: "(readError + message) list \<Rightarrow> ui \<Rightarrow> ui \<times> nat option" where
  "UICmd_loop [] u = (u, None)"
| "UICmd_loop (r # rs) u =
     (case r of
        Inl err \<Rightarrow> (u, Some (if err \<noteq> EOF then 3 else 0))
      | Inr msg \<Rightarrow> UICmd_loop rs (UI_Handle msg u))"

definition UICmd_Run :: "goerror option \<Rightarrow> goerror option \<Rightarrow> (readError + message) list \<Rightarrow> ui option \<times> nat option" where
  "UICmd_Run icon trayErr reads =
     (if icon \<noteq> None then (None, Some 1)
      else case UI_New trayErr of
        Inl err \<Rightarrow> (None, Some 2)
      | Inr u \<Rightarrow> let (u, code) = UICmd_loop reads u in (Some (if code = Some 0 then fst (UI_Close u) else u), code))"

text \<open>The enforce command in the foreground: like the Windows service, with a cache directory that must be known.\<close>

definition EnforceCmd_Run :: "hostenv \<Rightarrow> enforceConfig \<Rightarrow> nat + properties \<times> string option \<times> service" where
  "EnforceCmd_Run ho cmd =
     (case ho_Executable ho of
        Inl err \<Rightarrow> Inl 1
      | Inr executable \<Rightarrow>
          (case buildEnvironment ho of
             Inl err \<Rightarrow> Inl 1
           | Inr environment \<Rightarrow>
               (case cacheDir ho of
                  Inl err \<Rightarrow> Inl 1
                | Inr polDir \<Rightarrow>
                    Inr (environment, if polDir \<noteq> '''' then Some polDir else None, fst (Service_Start Service_New)))))"

text \<open>The version resource: \<^verbatim>\<open>splitVersion\<close> ignores its argument.\<close>

definition strconv_Atoi :: "string \<Rightarrow> int option" where
  "strconv_Atoi s =
     (let (neg, digits) = (case s of c # t \<Rightarrow> if c = CHR ''-'' then (True, t) else if c = CHR ''+'' then (False, t) else (False, s)
                           | [] \<Rightarrow> (False, []))
      in if digits = [] then None
         else case parse_digits 0 digits of
           None \<Rightarrow> None
         | Some n \<Rightarrow> let v = (if neg then - int n else int n) in if - (2 ^ 63) \<le> v \<and> v < 2 ^ 63 then Some v else None)"

definition version_part :: "string list \<Rightarrow> nat \<Rightarrow> int" where
  "version_part parts i =
     (if i < length parts then case strconv_Atoi (parts ! i) of None \<Rightarrow> 0 | Some v \<Rightarrow> v else 0)"

definition splitVersion :: "string \<Rightarrow> int \<times> int \<times> int \<times> int" where
  "splitVersion version =
     (let parts = strings_Split (CHR ''.'') Version in
      if length parts > 4 then (0, 0, 0, 0)
      else (version_part parts 0, version_part parts 1, version_part parts 2, version_part parts 3))"

section \<open>Facts about the commands\<close>

lemma GuardianCmd_Run_valid:
  assumes "GuardianCmd_Run de cmd = Inr d"
  shows "5 * Second \<le> dm_StatsInterval d \<and>
    (\<forall>file sched. dm_Log d = Some (file, sched) \<longrightarrow> file = gc_TxPath cmd \<and> file \<noteq> '''' \<and> list_all Schedule_valid sched) \<and>
    (dm_Log d = None \<longrightarrow> gc_TxPath cmd = '''') \<and>
    de_Policies de (dm_PolicyPath d) = (dm_Policies d, None)"
  using assms
  by (auto simp: GuardianCmd_Run_def Let_def minStatsInterval_def createTransactionLog_def createStatRecipient_def
      dest: ParseSchedule_valid split: sum.splits if_splits option.splits prod.splits)

text \<open>A server that is told to stop returns an error, and so does the command.\<close>

lemma normal_shutdown_is_an_error:
  assumes "sr_phase st = ShuttingDown" and "finish_run s env clock ErrServerClosed st = Inr st'"
  shows "GuardianCmd_return st' = Some ErrServerClosed"
  using finish_run_fields [OF assms(2)] by (auto simp: GuardianCmd_return_def)

lemma splitVersion_constant: "splitVersion version = (2023, 12, 19, 0)"
proof -
  have "strings_Split (CHR ''.'') Version = [''2023'', ''12'', ''19'', ''0'']" by code_simp
  moreover have "map strconv_Atoi [''2023'', ''12'', ''19'', ''0''] = [Some 2023, Some 12, Some 19, Some 0]" by code_simp
  ultimately show ?thesis by (simp add: splitVersion_def version_part_def)
qed

text \<open>A value is posted until a post succeeds, at most three times.\<close>

lemma StatHat_tries_result:
  "snd (StatHat_tries n post name v t err w) = None \<longleftrightarrow>
     n = 0 \<and> err = None \<or> (\<exists>i < n. snd (post name v t (((\<lambda>w. fst (post name v t w)) ^^ i) w)) = None)"
proof (induction n arbitrary: err w)
  case (Suc n)
  obtain w' r where p: "post name v t w = (w', r)" by fastforce
  have shift: "((\<lambda>w. fst (post name v t w)) ^^ Suc i) w = ((\<lambda>w. fst (post name v t w)) ^^ i) w'" for i
    using p by (simp add: funpow_Suc_right del: funpow.simps)
  show ?case
  proof (cases r)
    case None
    with p show ?thesis by (auto intro: exI [of _ "0::nat"])
  next
    case (Some e)
    with p Suc.IH [of "Some e" w'] shift show ?thesis by (auto simp: less_Suc_eq_0_disj simp del: funpow.simps(2))
  qed
qed simp

text \<open>The user interface has handled what it read, in order, when it stops.\<close>

lemma UICmd_loop_handles:
  "UICmd_loop (map Inr msgs @ rs) u = UICmd_loop rs (foldl (\<lambda>u msg. UI_Handle msg u) u msgs)"
  by (induction msgs arbitrary: u) simp_all

section \<open>The daemon keeps the terms\<close>

definition daemon_ok :: "terms \<Rightarrow> ('p \<Rightarrow> bool) \<Rightarrow> ('p \<Rightarrow> string \<Rightarrow> leases) \<Rightarrow> 'p daemonstate \<Rightarrow> bool" where
  "daemon_ok T invar content d \<longleftrightarrow> run_ok T invar content (ds_server d) \<and>
     (ds_statsDone d \<or> ds_returned d \<noteq> None \<longrightarrow> (\<exists>err. sr_phase (ds_server d) = RunReturned err)) \<and>
     (ds_returned d \<noteq> None \<longrightarrow> (ds_stats d = None \<or> ds_statsDone d) \<and> ds_returned d = GuardianCmd_return (ds_server d))"

lemma run_returned_stays:
  "run_step s enc calm admit st st' \<Longrightarrow> sr_phase st = RunReturned err \<Longrightarrow> sr_phase st' = RunReturned err"
  by (induction rule: run_step.induct) (auto simp: with_updates_def)

context guardian
begin

lemma collect_loop_ok:
  "ok p \<Longrightarrow> collect_loop srt' prov refresh clock policies rs stats p = Inr (p', r) \<Longrightarrow> ok p'"
proof (induction rs arbitrary: p stats)
  case (Cons res rs)
  obtain p1 v where v: "pv_LeaseView prov p res = (p1, v)" by fastforce
  have "ok p1" by (rule view_ok(1) [OF Cons.prems(1) v])
  with Cons v show ?case by (auto simp: go_bind_eq_Inr split: sum.splits)
qed simp

lemma StatManager_collect_ok:
  assumes "ok p" and "StatManager_collect srt' polProv prov refresh clock p = Inr (p', r)"
  shows "ok p'"
proof (cases polProv)
  case (Inr policies)
  obtain p1 rs where L: "pv_LeaseResources prov p = (p1, rs)" by fastforce
  from resources_ok [OF assms(1) L] collect_loop_ok [of p1] assms(2) Inr L show ?thesis
    by (auto simp: StatManager_collect_def split: sum.splits)
qed (use assms in \<open>simp add: StatManager_collect_def\<close>)

lemma CollectAndSend_ok:
  assumes "ok p" and "StatManager_CollectAndSend srt' polProv prov clock fails p m = Inr (p', m', sent, err)"
  shows "ok p'"
proof -
  from assms(2) obtain p1 r where c: "StatManager_collect srt' polProv prov True clock p = Inr (p1, r)"
    by (auto simp: StatManager_CollectAndSend_def go_bind_eq_Inr)
  from assms(2) c have "p' = p1"
    by (auto simp: StatManager_CollectAndSend_def Let_def split: sum.splits prod.splits option.splits)
  with StatManager_collect_ok [OF assms(1) c] show ?thesis by simp
qed

lemma daemon_stats_ok:
  assumes "daemon_ok T invar content d" and "daemon_stats s clock fails m d = Inr d'" and s: "sc_LeaseProvider s = prov"
  shows "run_ok T invar content (ds_server d') \<and> sr_phase (ds_server d') = sr_phase (ds_server d) \<and>
    ds_stats d' \<noteq> None \<and> ds_statsDone d' = ds_statsDone d \<and> ds_returned d' = ds_returned d"
proof -
  from assms(2) s obtain p m' sent err where
    c: "StatManager_CollectAndSend (sc_sort s) (sc_Policies s) prov clock fails (sr_store (ds_server d)) m = Inr (p, m', sent, err)"
    and d': "d' = d\<lparr>ds_server := (ds_server d)\<lparr>sr_store := p\<rparr>, ds_stats := Some m', ds_sent := ds_sent d @ sent\<rparr>"
    by (auto simp: daemon_stats_def go_bind_eq_Inr)
  have "ok (sr_store (ds_server d))" using assms(1) by (simp add: daemon_ok_def run_ok_def)
  from CollectAndSend_ok [OF this c] assms(1) d' show ?thesis
    by (auto simp: daemon_ok_def run_ok_def timer_ok_def refreshDone_def split: runphase.splits)
qed

lemma daemon_step_ok:
  assumes "daemon_step s enc calm (request_ok T s) d d'" and "daemon_ok T invar content d"
    and s: "sc_LeaseProvider s = prov" "sc_sort s = srt"
  shows "daemon_ok T invar content d'"
  using assms(1)
proof cases
  case (serves st)
  from run_step_ok [OF serves(3) _ s] run_returned_stays [OF serves(3)] serves assms(2) show ?thesis
    by (auto simp: daemon_ok_def)
next
  case (reports m clock fails)
  from daemon_stats_ok [OF assms(2) reports(3) s(1)] reports(1,2) assms(2) show ?thesis
    unfolding daemon_ok_def by auto
next
  case (last_report m err clock fails d1)
  from daemon_stats_ok [OF assms(2) last_report(5) s(1)] last_report assms(2) show ?thesis
    unfolding daemon_ok_def by auto
qed (use assms(2) in \<open>auto simp: daemon_ok_def\<close>)

lemma daemon_reachable_ok:
  assumes "(daemon_step s enc calm (request_ok T s))\<^sup>*\<^sup>* d d'" and "daemon_ok T invar content d"
    and s: "sc_LeaseProvider s = prov" "sc_sort s = srt"
  shows "daemon_ok T invar content d'"
  using assms(1) by (induction rule: rtranclp_induct) (use assms(2) daemon_step_ok [OF _ _ s] in blast)+

end

end
