(* ===== verification/Install.thy ===== *)
theory Install
  imports WinService
begin

text \<open>
  Installation of the enforcer on Windows: \<^verbatim>\<open>registry_windows.go\<close>, \<^verbatim>\<open>install_windows.go\<close> and
  \<^verbatim>\<open>uninstall_windows.go\<close> of \<^verbatim>\<open>src/cmd/resourceful/\<close>. The uninstall entry is a registry key; the
  package \<^verbatim>\<open>registry\<close> is the record \<open>regapi\<close> of its operations on that key, with their documented
  behaviour as the laws of the locale \<open>uninstall_key\<close>. What the other libraries answer is the record
  \<open>installenv\<close>, and the calls that change the machine are recorded in the order they are made.
\<close>

section \<open>The uninstall entry\<close>

record uninstallData =
  ud_DisplayName :: string
  ud_DisplayVersion :: string
  ud_DisplayIcon :: string
  ud_UninstallCommand :: string
  ud_InstallLocation :: string
  ud_InstallSource :: string
  ud_Publisher :: string
  ud_EstimatedSize :: "32 word"

definition zero_uninstallData :: uninstallData where
  "zero_uninstallData = \<lparr>ud_DisplayName = '''', ud_DisplayVersion = '''', ud_DisplayIcon = '''', ud_UninstallCommand = '''',
     ud_InstallLocation = '''', ud_InstallSource = '''', ud_Publisher = '''', ud_EstimatedSize = 0\<rparr>"

record 'r regapi =
  rg_OpenRoot :: "'r \<Rightarrow> goerror option"
  rg_OpenKey :: "'r \<Rightarrow> goerror option"
  rg_CreateKey :: "'r \<Rightarrow> 'r \<times> goerror option"
  rg_DeleteKey :: "'r \<Rightarrow> 'r \<times> goerror option"
  rg_SetString :: "string \<Rightarrow> string \<Rightarrow> 'r \<Rightarrow> 'r \<times> goerror option"
  rg_SetDWord :: "string \<Rightarrow> 32 word \<Rightarrow> 'r \<Rightarrow> 'r \<times> goerror option"
  rg_GetString :: "string \<Rightarrow> 'r \<Rightarrow> goerror + string"
  rg_GetInteger :: "string \<Rightarrow> 'r \<Rightarrow> goerror + 64 word"

text \<open>An optional value: it is written when it is not empty, and an error is ignored.\<close>

definition set_optional :: "'r regapi \<Rightarrow> string \<Rightarrow> string \<Rightarrow> 'r \<Rightarrow> 'r" where
  "set_optional rg name v r = (if v \<noteq> '''' then fst (rg_SetString rg name v r) else r)"

definition WriteValues :: "'r regapi \<Rightarrow> uninstallData \<Rightarrow> 'r \<Rightarrow> 'r \<times> goerror option" where
  "WriteValues rg u r =
     (case rg_SetString rg ''DisplayName'' (ud_DisplayName u) r of
        (r, Some err) \<Rightarrow> (r, Some err)
      | (r, None) \<Rightarrow>
          (case rg_SetString rg ''UninstallString'' (ud_UninstallCommand u) r of
             (r, Some err) \<Rightarrow> (r, Some err)
           | (r, None) \<Rightarrow>
               let r = set_optional rg ''DisplayVersion'' (ud_DisplayVersion u) r;
                   r = set_optional rg ''DisplayIcon'' (ud_DisplayIcon u) r;
                   r = set_optional rg ''InstallLocation'' (ud_InstallLocation u) r;
                   r = set_optional rg ''InstallSource'' (ud_InstallSource u) r;
                   r = set_optional rg ''Publisher'' (ud_Publisher u) r;
                   r = (if ud_EstimatedSize u \<noteq> 0 then fst (rg_SetDWord rg ''EstimatedSize'' (ud_EstimatedSize u) r) else r)
               in (r, None)))"

definition get_optional :: "'r regapi \<Rightarrow> string \<Rightarrow> 'r \<Rightarrow> string" where
  "get_optional rg name r = (case rg_GetString rg name r of Inl err \<Rightarrow> '''' | Inr v \<Rightarrow> v)"

definition ReadValues :: "'r regapi \<Rightarrow> uninstallData \<Rightarrow> 'r \<Rightarrow> goerror + uninstallData" where
  "ReadValues rg u r =
     (case rg_GetString rg ''DisplayName'' r of
        Inl err \<Rightarrow> Inl err
      | Inr displayName \<Rightarrow>
          (case rg_GetString rg ''UninstallString'' r of
             Inl err \<Rightarrow> Inl err
           | Inr uninstallCommand \<Rightarrow>
               Inr \<lparr>ud_DisplayName = displayName,
                    ud_DisplayVersion = get_optional rg ''DisplayVersion'' r,
                    ud_DisplayIcon = get_optional rg ''DisplayIcon'' r,
                    ud_UninstallCommand = uninstallCommand,
                    ud_InstallLocation = get_optional rg ''InstallLocation'' r,
                    ud_InstallSource = get_optional rg ''InstallSource'' r,
                    ud_Publisher = get_optional rg ''Publisher'' r,
                    ud_EstimatedSize = (case rg_GetInteger rg ''EstimatedSize'' r of
                      Inl err \<Rightarrow> ud_EstimatedSize u | Inr val \<Rightarrow> ucast val)\<rparr>))"

definition getUninstallRegKeys :: "'r regapi \<Rightarrow> 'r \<Rightarrow> goerror + uninstallData" where
  "getUninstallRegKeys rg r =
     (case rg_OpenRoot rg r of
        Some err \<Rightarrow> Inl err
      | None \<Rightarrow> (case rg_OpenKey rg r of Some err \<Rightarrow> Inl err | None \<Rightarrow> ReadValues rg zero_uninstallData r))"

text \<open>\<^verbatim>\<open>syscall.EscapeArg\<close>, which quotes an argument for a Windows command line, is the argument \<open>escape\<close>.\<close>

definition uninstallCommand :: "hostenv \<Rightarrow> (string \<Rightarrow> string) \<Rightarrow> string \<Rightarrow> string \<Rightarrow> string" where
  "uninstallCommand ho escape dir executable = escape (ho_Join ho [dir, executable]) @ '' uninstall''"

definition uninstallEntry ::
  "hostenv \<Rightarrow> (string \<Rightarrow> string) \<Rightarrow> string \<Rightarrow> string \<Rightarrow> string \<Rightarrow> int \<Rightarrow> uninstallData" where
  "uninstallEntry ho escape sourceDir destDir exe sizeInBytes =
     \<lparr>ud_DisplayName = ''Resourceful'', ud_DisplayVersion = Version,
      ud_DisplayIcon = ho_Join ho [destDir, exe],
      ud_UninstallCommand = uninstallCommand ho escape destDir exe,
      ud_InstallLocation = destDir,
      ud_InstallSource = ho_Join ho [sourceDir, exe],
      ud_Publisher = ''SCJ Alliance'',
      ud_EstimatedSize = word_of_int (sizeInBytes div 1024)\<rparr>"

definition addUninstallRegKeys ::
  "'r regapi \<Rightarrow> hostenv \<Rightarrow> (string \<Rightarrow> string) \<Rightarrow> string \<Rightarrow> string \<Rightarrow> string \<Rightarrow> int \<Rightarrow> 'r \<Rightarrow> 'r \<times> goerror option" where
  "addUninstallRegKeys rg ho escape sourceDir destDir exe sizeInBytes r =
     (case rg_OpenRoot rg r of
        Some err \<Rightarrow> (r, Some err)
      | None \<Rightarrow>
          (case rg_CreateKey rg r of
             (r, Some err) \<Rightarrow> (r, Some err)
           | (r, None) \<Rightarrow> WriteValues rg (uninstallEntry ho escape sourceDir destDir exe sizeInBytes) r))"

definition delUninstallRegKeys :: "'r regapi \<Rightarrow> 'r \<Rightarrow> 'r \<times> goerror option" where
  "delUninstallRegKeys rg r =
     (case rg_OpenRoot rg r of Some err \<Rightarrow> (r, Some err) | None \<Rightarrow> rg_DeleteKey rg r)"

section \<open>Installing and uninstalling\<close>

record installCmd =
  ic_Server :: string
  ic_Passive :: bool
  ic_Debug :: bool

datatype machinecall =
    MkdirAll string
  | RunUninstaller string "string list"
  | DeleteService
  | CopyExecutable string string string
  | InstallService string "string list"
  | RegisterEventLog
  | RemoveEventLog
  | StartService

datatype deleteErr = MarkedForDeletion | DeleteErr goerror

text \<open>The answers of the operating system. \<open>ie_Uninstaller\<close> is what the old uninstaller does to the registry.\<close>

record 'r installenv =
  ie_host :: hostenv
  ie_escape :: "string \<Rightarrow> string"
  ie_Abs :: "goerror + string"
  ie_Split :: "string \<Rightarrow> string \<times> string"
  ie_Open :: "goerror + int option"
  ie_Compare :: "goerror option"
  ie_MkdirAll :: "string \<Rightarrow> goerror option"
  ie_SplitCommand :: "string \<Rightarrow> string \<times> string list"
  ie_Uninstaller :: "'r \<Rightarrow> 'r \<times> goerror option"
  ie_Exists :: "goerror + bool"
  ie_Delete :: "deleteErr option"
  ie_Copy :: "goerror option"
  ie_Install :: "goerror option"
  ie_EventLog :: "goerror option"
  ie_Start :: "goerror option"

record 'r machine =
  mc_registry :: 'r
  mc_calls :: "machinecall list"

definition mcall :: "machinecall \<Rightarrow> 'r machine \<Rightarrow> 'r machine" where
  "mcall c m = m\<lparr>mc_calls := mc_calls m @ [c]\<rparr>"

definition removePrevious :: "'r regapi \<Rightarrow> 'r installenv \<Rightarrow> 'r machine \<Rightarrow> 'r machine" where
  "removePrevious rg ie m =
     (case getUninstallRegKeys rg (mc_registry m) of
        Inl err \<Rightarrow> m
      | Inr data \<Rightarrow>
          let (name, args) = ie_SplitCommand ie (ud_UninstallCommand data) in
          if name = '''' then m
          else (mcall (RunUninstaller name args) m)\<lparr>mc_registry := fst (ie_Uninstaller ie (mc_registry m))\<rparr>)"

definition serviceArgs :: "installCmd \<Rightarrow> string list" where
  "serviceArgs cmd =
     (let args = [''enforce''];
          args = (if ic_Passive cmd then args @ [''-p''] else args)
      in if ic_Server cmd \<noteq> '''' then args @ [''-s'', ic_Server cmd] else args)"

text \<open>The second half of \<^verbatim>\<open>Run\<close>, from the copy on; the number is the exit code.\<close>

definition installService ::
  "'r regapi \<Rightarrow> 'r installenv \<Rightarrow> installCmd \<Rightarrow> string \<Rightarrow> string \<Rightarrow> string \<Rightarrow> int \<Rightarrow> 'r machine \<Rightarrow> 'r machine \<times> nat" where
  "installService rg ie cmd source dest exe bytes m =
     (let m = mcall (CopyExecutable source dest exe) m in
      if ie_Copy ie \<noteq> None then (m, 1)
      else
        let m = m\<lparr>mc_registry := fst (addUninstallRegKeys rg (ie_host ie) (ie_escape ie) source dest exe bytes (mc_registry m))\<rparr>;
            args = serviceArgs cmd;
            m = mcall (InstallService (ho_Join (ie_host ie) [dest, exe]) args) m
        in if ie_Install ie \<noteq> None then (m, 1)
           else
             let m = mcall RegisterEventLog m; m = mcall StartService m
             in if ie_Start ie = Some ''context canceled'' \<or> ie_Start ie = Some ''context deadline exceeded''
                then (m, 1) else (m, 0))"

definition InstallCmd_Run :: "'r regapi \<Rightarrow> 'r installenv \<Rightarrow> installCmd \<Rightarrow> 'r machine \<Rightarrow> 'r machine \<times> nat" where
  "InstallCmd_Run rg ie cmd m =
     (case ie_Abs ie of
        Inl err \<Rightarrow> (m, 1)
      | Inr sourcePath \<Rightarrow>
          (case installDir (ie_host ie) Version of
             Inl err \<Rightarrow> (m, 1)
           | Inr dest \<Rightarrow>
               (case cacheDir (ie_host ie) of
                  Inl err \<Rightarrow> (m, 1)
                | Inr cache \<Rightarrow>
                    let (source, exe) = ie_Split ie sourcePath;
                        exe = (if \<not> strings_HasSuffix exe ''.exe'' then exe @ ''.exe'' else exe)
                    in case ie_Open ie of
                         Inl err \<Rightarrow> (m, 1)
                       | Inr stat \<Rightarrow>
                           let bytes = (case stat of None \<Rightarrow> 0 | Some n \<Rightarrow> n) in
                           if ie_Compare ie \<noteq> None then (m, 1)
                           else
                             let m = mcall (MkdirAll dest) m in
                             if ie_MkdirAll ie dest \<noteq> None then (m, 1)
                             else
                               let m = mcall (MkdirAll cache) m in
                               if ie_MkdirAll ie cache \<noteq> None then (m, 1)
                               else
                                 let m = removePrevious rg ie m in
                                 (case ie_Exists ie of
                                    Inl err \<Rightarrow> (m, 1)
                                  | Inr exists \<Rightarrow>
                                      if \<not> exists then installService rg ie cmd source dest exe bytes m
                                      else
                                        let m = mcall DeleteService m in
                                        if ie_Delete ie \<noteq> None then (m, 1)
                                        else installService rg ie cmd source dest exe bytes m))))"

definition UninstallCmd_Run :: "'r regapi \<Rightarrow> 'r installenv \<Rightarrow> 'r machine \<Rightarrow> 'r machine \<times> nat" where
  "UninstallCmd_Run rg ie m =
     (case ie_Exists ie of
        Inl err \<Rightarrow> (m, 1)
      | Inr exists \<Rightarrow>
          if \<not> exists then (m, 0)
          else
            let m = mcall DeleteService m in
            if ie_Delete ie \<noteq> None \<and> ie_Delete ie \<noteq> Some MarkedForDeletion then (m, 1)
            else
              let m = mcall RemoveEventLog m
              in (m\<lparr>mc_registry := fst (delUninstallRegKeys rg (mc_registry m))\<rparr>, 0))"

section \<open>What the registry promises\<close>

datatype regvalue = RegString string | RegDWord "32 word"

text \<open>A registry in which nothing is forbidden.\<close>

definition registry_available :: "'r regapi \<Rightarrow> ('r \<Rightarrow> (string \<rightharpoonup> regvalue) option) \<Rightarrow> bool" where
  "registry_available rg entry \<longleftrightarrow> (\<forall>r. rg_OpenRoot rg r = None) \<and> (\<forall>r. snd (rg_CreateKey rg r) = None) \<and>
     (\<forall>r. entry r \<noteq> None \<longrightarrow> rg_OpenKey rg r = None) \<and> (\<forall>r. snd (rg_DeleteKey rg r) = None) \<and>
     (\<forall>n v r. snd (rg_SetString rg n v r) = None) \<and> (\<forall>n w r. snd (rg_SetDWord rg n w r) = None)"

text \<open>
  \<open>entry r\<close> is the uninstall key of the registry \<open>r\<close> with its values, if there is one. Creating a key
  that exists opens it; a call that fails changes nothing.
\<close>

locale uninstall_key =
  fixes rg :: "'r regapi" and entry :: "'r \<Rightarrow> (string \<rightharpoonup> regvalue) option"
  assumes create: "rg_CreateKey rg r = (r', None) \<Longrightarrow> entry r' = Some (case entry r of None \<Rightarrow> Map.empty | Some m \<Rightarrow> m)"
    and delete: "rg_DeleteKey rg r = (r', None) \<Longrightarrow> entry r' = None"
    and open_key: "entry r = None \<Longrightarrow> rg_OpenKey rg r \<noteq> None"
    and set_string: "rg_SetString rg n v r = (r', e) \<Longrightarrow> entry r = Some m \<Longrightarrow>
      entry r' = Some (if e = None then m(n \<mapsto> RegString v) else m)"
    and set_dword: "rg_SetDWord rg n w r = (r', e) \<Longrightarrow> entry r = Some m \<Longrightarrow>
      entry r' = Some (if e = None then m(n \<mapsto> RegDWord w) else m)"
    and get_string: "entry r = Some m \<Longrightarrow> m n = Some (RegString v) \<Longrightarrow> rg_GetString rg n r = Inr v"
    and get_missing: "entry r = Some m \<Longrightarrow> m n = None \<Longrightarrow> \<exists>e. rg_GetString rg n r = Inl e"
    and get_integer: "entry r = Some m \<Longrightarrow> m n = Some (RegDWord w) \<Longrightarrow> rg_GetInteger rg n r = Inr (ucast w)"
    and get_no_integer: "entry r = Some m \<Longrightarrow> m n = None \<Longrightarrow> \<exists>e. rg_GetInteger rg n r = Inl e"
begin

text \<open>The values of an entry after an optional value is written.\<close>

definition put_optional :: "string \<Rightarrow> string \<Rightarrow> (string \<rightharpoonup> regvalue) \<Rightarrow> (string \<rightharpoonup> regvalue)" where
  "put_optional n v m = (if v \<noteq> '''' then m(n \<mapsto> RegString v) else m)"

lemma set_optional_entry:
  assumes "\<And>n v r. snd (rg_SetString rg n v r) = None" and "entry r = Some m"
  shows "entry (set_optional rg n v r) = Some (put_optional n v m)"
  using set_string [OF surjective_pairing assms(2), of n v] assms by (simp add: set_optional_def put_optional_def)

definition written :: "uninstallData \<Rightarrow> (string \<rightharpoonup> regvalue) \<Rightarrow> (string \<rightharpoonup> regvalue)" where
  "written u m =
     (let m = m(''DisplayName'' \<mapsto> RegString (ud_DisplayName u), ''UninstallString'' \<mapsto> RegString (ud_UninstallCommand u));
          m = put_optional ''DisplayVersion'' (ud_DisplayVersion u) m;
          m = put_optional ''DisplayIcon'' (ud_DisplayIcon u) m;
          m = put_optional ''InstallLocation'' (ud_InstallLocation u) m;
          m = put_optional ''InstallSource'' (ud_InstallSource u) m;
          m = put_optional ''Publisher'' (ud_Publisher u) m
      in if ud_EstimatedSize u \<noteq> 0 then m(''EstimatedSize'' \<mapsto> RegDWord (ud_EstimatedSize u)) else m)"

lemma WriteValues_entry:
  assumes ok: "\<And>n v r. snd (rg_SetString rg n v r) = None" "\<And>n w r. snd (rg_SetDWord rg n w r) = None"
    and "entry r = Some m" and "WriteValues rg u r = (r', e)"
  shows "e = None \<and> entry r' = Some (written u m)"
proof -
  obtain r1 where s1: "rg_SetString rg ''DisplayName'' (ud_DisplayName u) r = (r1, None)"
    using ok(1) by (metis prod.collapse)
  obtain r2 where s2: "rg_SetString rg ''UninstallString'' (ud_UninstallCommand u) r1 = (r2, None)"
    using ok(1) by (metis prod.collapse)
  have r2: "entry r2 = Some (m(''DisplayName'' \<mapsto> RegString (ud_DisplayName u), ''UninstallString'' \<mapsto> RegString (ud_UninstallCommand u)))"
    using set_string [OF s2] set_string [OF s1 assms(3)] by simp
  note opt = set_optional_entry [OF ok(1)]
  note r7 = opt [OF opt [OF opt [OF opt [OF opt [OF r2]]]],
      of "''Publisher''" "ud_Publisher u" "''InstallSource''" "ud_InstallSource u" "''InstallLocation''" "ud_InstallLocation u"
         "''DisplayIcon''" "ud_DisplayIcon u" "''DisplayVersion''" "ud_DisplayVersion u"]
  from set_dword [OF surjective_pairing r7, of "''EstimatedSize''" "ud_EstimatedSize u"] ok(2) r7 assms(4) s1 s2
  show ?thesis by (auto simp: WriteValues_def written_def Let_def)
qed

lemma ReadValues_written:
  assumes "entry r = Some (written u Map.empty)"
  shows "ReadValues rg zero_uninstallData r = Inr u"
proof -
  let ?m = "written u Map.empty"
  have w: "?m ''DisplayName'' = Some (RegString (ud_DisplayName u))" "?m ''UninstallString'' = Some (RegString (ud_UninstallCommand u))"
    by (simp_all add: written_def put_optional_def Let_def)
  have opt: "get_optional rg n r = v" if "?m n = (if v \<noteq> '''' then Some (RegString v) else None)" for n v
    using that get_string [OF assms, of n v] get_missing [OF assms, of n]
    by (auto simp: get_optional_def split: if_splits sum.splits)
  have size: "(case rg_GetInteger rg ''EstimatedSize'' r of Inl err \<Rightarrow> ud_EstimatedSize zero_uninstallData | Inr val \<Rightarrow> ucast val) = ud_EstimatedSize u"
  proof (cases "ud_EstimatedSize u = 0")
    case True
    then have "?m ''EstimatedSize'' = None" by (simp add: written_def put_optional_def Let_def)
    from get_no_integer [OF assms this] True show ?thesis by (auto simp: zero_uninstallData_def)
  next
    case False
    then have "?m ''EstimatedSize'' = Some (RegDWord (ud_EstimatedSize u))" by (simp add: written_def Let_def)
    from get_integer [OF assms this] show ?thesis by (simp add: unsigned_ucast_eq take_bit_word_eq_self)
  qed
  have "get_optional rg ''DisplayVersion'' r = ud_DisplayVersion u" "get_optional rg ''DisplayIcon'' r = ud_DisplayIcon u"
    "get_optional rg ''InstallLocation'' r = ud_InstallLocation u" "get_optional rg ''InstallSource'' r = ud_InstallSource u"
    "get_optional rg ''Publisher'' r = ud_Publisher u"
    by (rule opt, simp add: written_def put_optional_def Let_def)+
  with get_string [OF assms w(1)] get_string [OF assms w(2)] size show ?thesis
    by (simp add: ReadValues_def)
qed

lemma uninstall_entry_roundtrip:
  assumes "registry_available rg entry" and "entry r = None"
  shows "getUninstallRegKeys rg (fst (addUninstallRegKeys rg ho escape source dest exe bytes r)) =
    Inr (uninstallEntry ho escape source dest exe bytes)"
proof -
  let ?u = "uninstallEntry ho escape source dest exe bytes"
  have ok: "rg_OpenRoot rg r = None" "\<And>n v r. snd (rg_SetString rg n v r) = None" "\<And>n w r. snd (rg_SetDWord rg n w r) = None"
    "\<And>r. rg_OpenRoot rg r = None" "\<And>r. entry r \<noteq> None \<Longrightarrow> rg_OpenKey rg r = None"
    using assms(1) by (simp_all add: registry_available_def)
  obtain r1 where c: "rg_CreateKey rg r = (r1, None)" using assms(1) by (metis registry_available_def prod.collapse)
  have r1: "entry r1 = Some Map.empty" using create [OF c] assms(2) by simp
  obtain r' e where w: "WriteValues rg ?u r1 = (r', e)" by fastforce
  from WriteValues_entry [OF ok(2,3) r1 w] have r': "e = None" "entry r' = Some (written ?u Map.empty)" by simp_all
  have "fst (addUninstallRegKeys rg ho escape source dest exe bytes r) = r'" using c w ok(1) by (simp add: addUninstallRegKeys_def)
  with ReadValues_written [OF r'(2)] ok(4,5) r'(2) show ?thesis by (simp add: getUninstallRegKeys_def)
qed

lemma deleted_entry_is_gone:
  assumes "registry_available rg entry"
  shows "\<exists>err. getUninstallRegKeys rg (fst (delUninstallRegKeys rg r)) = Inl err"
proof -
  obtain r' where d: "rg_DeleteKey rg r = (r', None)" using assms by (metis registry_available_def prod.collapse)
  moreover have "rg_OpenRoot rg r = None" using assms by (simp add: registry_available_def)
  ultimately show ?thesis using delete [OF d] open_key [of r']
    by (auto simp: delUninstallRegKeys_def getUninstallRegKeys_def split: option.splits)
qed

lemma removePrevious_fresh: "entry (mc_registry m) = None \<Longrightarrow> removePrevious rg ie m = m"
  using open_key [of "mc_registry m"] by (auto simp: removePrevious_def getUninstallRegKeys_def split: option.splits)

end

section \<open>What an installation does\<close>

lemma mc_calls_removePrevious:
  "\<exists>calls. mc_calls (removePrevious rg ie m) = mc_calls m @ calls \<and> set calls \<subseteq> range (case_prod RunUninstaller)"
proof (cases "removePrevious rg ie m = m")
  case False
  then obtain name args where "mc_calls (removePrevious rg ie m) = mc_calls m @ [RunUninstaller name args]"
    by (auto simp: removePrevious_def mcall_def Let_def split: sum.splits prod.splits if_splits)
  then show ?thesis by (intro exI [of _ "[RunUninstaller name args]"]) auto
qed simp

lemma installService_calls:
  assumes "installService rg ie cmd source dest exe bytes m = (m', 0)"
  shows "mc_calls m' = mc_calls m @ [CopyExecutable source dest exe,
      InstallService (ho_Join (ie_host ie) [dest, exe]) (serviceArgs cmd), RegisterEventLog, StartService] \<and>
    mc_registry m' = fst (addUninstallRegKeys rg (ie_host ie) (ie_escape ie) source dest exe bytes (mc_registry m)) \<and>
    ie_Copy ie = None \<and> ie_Install ie = None"
  using assms by (auto simp: installService_def mcall_def Let_def split: if_splits)

text \<open>
  A successful installation, by its calls: the directories, the old uninstaller, the removal of
  a service that exists, and only then the copy, the service and its start.
\<close>

lemma InstallCmd_Run_success:
  assumes "InstallCmd_Run rg ie cmd m = (m', 0)"
  obtains source dest exe bytes cache uninstall removed where
    "installDir (ie_host ie) Version = Inr dest" "strings_HasSuffix exe ''.exe''"
    "mc_calls m' = mc_calls m @ [MkdirAll dest, MkdirAll cache] @ uninstall @ removed @ [CopyExecutable source dest exe,
      InstallService (ho_Join (ie_host ie) [dest, exe]) (serviceArgs cmd), RegisterEventLog, StartService]"
    "set uninstall \<subseteq> range (case_prod RunUninstaller)"
    "ie_Exists ie = Inr (removed \<noteq> [])" "removed = [] \<or> removed = [DeleteService] \<and> ie_Delete ie = None"
    "ie_Copy ie = None" "ie_Install ie = None"
    "mc_registry m' = fst (addUninstallRegKeys rg (ie_host ie) (ie_escape ie) source dest exe bytes
      (mc_registry (removePrevious rg ie (mcall (MkdirAll cache) (mcall (MkdirAll dest) m)))))"
proof -
  from assms obtain sourcePath dest cache stat exists source exe0 where
    ok: "ie_Abs ie = Inr sourcePath" "installDir (ie_host ie) Version = Inr dest" "cacheDir (ie_host ie) = Inr cache"
      "ie_Split ie sourcePath = (source, exe0)" "ie_Open ie = Inr stat" "ie_Exists ie = Inr exists"
      "ie_Compare ie = None" "ie_MkdirAll ie dest = None" "ie_MkdirAll ie cache = None"
    by (auto simp: InstallCmd_Run_def Let_def split: sum.splits if_splits prod.splits)
  define exe where "exe = (if \<not> strings_HasSuffix exe0 ''.exe'' then exe0 @ ''.exe'' else exe0)"
  define bytes where "bytes = (case stat of None \<Rightarrow> 0 | Some n \<Rightarrow> n)"
  define m1 where "m1 = removePrevious rg ie (mcall (MkdirAll cache) (mcall (MkdirAll dest) m))"
  define removed where "removed = (if exists then [DeleteService] else [])"
  define m2 where "m2 = m1\<lparr>mc_calls := mc_calls m1 @ removed\<rparr>"
  from assms ok have del: "exists \<longrightarrow> ie_Delete ie = None"
    and run: "installService rg ie cmd source dest exe bytes m2 = (m', 0)"
    by (auto simp: InstallCmd_Run_def Let_def exe_def bytes_def m1_def m2_def removed_def mcall_def split: if_splits)
  obtain calls where calls: "mc_calls m1 = mc_calls m @ [MkdirAll dest, MkdirAll cache] @ calls" "set calls \<subseteq> range (case_prod RunUninstaller)"
    using mc_calls_removePrevious [of rg ie "mcall (MkdirAll cache) (mcall (MkdirAll dest) m)"] by (auto simp: m1_def mcall_def)
  have suffix: "strings_HasSuffix exe ''.exe''" by (auto simp: exe_def HasSuffix_iff)
  show ?thesis
    by (rule that [OF ok(2) suffix, of cache calls removed source bytes])
      (use installService_calls [OF run] calls ok(6) del in \<open>auto simp: m2_def m1_def removed_def\<close>)
qed

lemma UninstallCmd_Run_registry:
  assumes "ie_Exists ie = Inr True" and "ie_Delete ie = None"
  shows "mc_registry (fst (UninstallCmd_Run rg ie m)) = fst (delUninstallRegKeys rg (mc_registry m))"
  using assms by (simp add: UninstallCmd_Run_def mcall_def Let_def)

section \<open>A registry in memory\<close>

definition memory_registry :: "(string \<rightharpoonup> regvalue) option regapi" where
  "memory_registry = \<lparr>rg_OpenRoot = (\<lambda>r. None),
     rg_OpenKey = (\<lambda>r. if r = None then Some ''not found'' else None),
     rg_CreateKey = (\<lambda>r. (Some (case r of None \<Rightarrow> Map.empty | Some m \<Rightarrow> m), None)),
     rg_DeleteKey = (\<lambda>r. (None, None)),
     rg_SetString = (\<lambda>n v r. (map_option (\<lambda>m. m(n \<mapsto> RegString v)) r, None)),
     rg_SetDWord = (\<lambda>n w r. (map_option (\<lambda>m. m(n \<mapsto> RegDWord w)) r, None)),
     rg_GetString = (\<lambda>n r. case r of None \<Rightarrow> Inl ''not found'' | Some m \<Rightarrow>
       (case m n of Some (RegString v) \<Rightarrow> Inr v | _ \<Rightarrow> Inl ''not found'')),
     rg_GetInteger = (\<lambda>n r. case r of None \<Rightarrow> Inl ''not found'' | Some m \<Rightarrow>
       (case m n of Some (RegDWord w) \<Rightarrow> Inr (ucast w) | _ \<Rightarrow> Inl ''not found''))\<rparr>"

interpretation memReg: uninstall_key memory_registry "\<lambda>r. r"
  by unfold_locales (auto simp: memory_registry_def)

lemma memory_registry_available: "registry_available memory_registry (\<lambda>r. r)"
  by (simp add: registry_available_def memory_registry_def)

end
