(* ===== verification/EnforcerEvents.thy ===== *)
theory EnforcerEvents
  imports Enforcer GoTime
begin

text \<open>
  The events the enforcer logs, \<^verbatim>\<open>src/enforcer/events.go\<close>, the two loggers of
  \<^verbatim>\<open>src/cmd/resourceful/logger_windows.go\<close>, the methods through which each part of the enforcer writes to
  its logger, and the lines that \<^verbatim>\<open>recordState\<close> of an invocation and the policy manager write. How
  a process identifier or an error prints and the title case of \<^verbatim>\<open>golang.org/x/text\<close> are arguments.
\<close>

section \<open>Events\<close>

datatype logevent =
    ServiceEvent string bool
  | SessionEvent nat string string string bool
  | InvocationEvent instance_t string string bool
  | ProcessEvent string string string bool

definition ServiceEventID :: nat where "ServiceEventID = 100"
definition SessionEventID :: nat where "SessionEventID = 200"
definition InvocationEventID :: nat where "InvocationEventID = 300"
definition ProcessEventID :: nat where "ProcessEventID = 400"

fun Event_ID :: "logevent \<Rightarrow> nat" where
  "Event_ID (ServiceEvent msg debug) = ServiceEventID"
| "Event_ID (SessionEvent sid station user msg debug) = SessionEventID"
| "Event_ID (InvocationEvent inst name msg debug) = ProcessEventID"
| "Event_ID (ProcessEvent pid name msg debug) = ProcessEventID"

fun Event_IsDebug :: "logevent \<Rightarrow> bool" where
  "Event_IsDebug (ServiceEvent msg debug) = debug"
| "Event_IsDebug (SessionEvent sid station user msg debug) = debug"
| "Event_IsDebug (InvocationEvent inst name msg debug) = debug"
| "Event_IsDebug (ProcessEvent pid name msg debug) = debug"

fun Event_String :: "logevent \<Rightarrow> string" where
  "Event_String (ServiceEvent msg debug) = ''[SERVICE] '' @ msg"
| "Event_String (SessionEvent sid station user msg debug) =
     (if user = ''''
      then ''[SESSION] '' @ station @ '' (session '' @ itoa sid @ ''): '' @ msg
      else ''[SESSION] '' @ station @ '' (session '' @ itoa sid @ '', '' @ user @ ''): '' @ msg)"
| "Event_String (InvocationEvent inst name msg debug) = ''[INVOCATION] '' @ inst_ID inst @ '' ('' @ name @ ''): '' @ msg"
| "Event_String (ProcessEvent pid name msg debug) = ''[PROCESS] '' @ pid @ '' ('' @ name @ ''): '' @ msg"

section \<open>Loggers\<close>

definition cliLogger_Log :: "bool \<Rightarrow> logevent \<Rightarrow> string" where
  "cliLogger_Log debug e =
     (if Event_IsDebug e \<and> \<not> debug then ''''
      else let s = Event_String e in if s = '''' \<or> last s \<noteq> CHR 0x0A then s @ [CHR 0x0A] else s)"

definition svcLogger_Log :: "logevent \<Rightarrow> nat \<times> string" where
  "svcLogger_Log e = (Event_ID e, Event_String e)"

section \<open>What an invocation logs about its lease\<close>

definition Duration_Round :: "duration \<Rightarrow> duration \<Rightarrow> duration" where
  "Duration_Round d m =
     (if m \<le> 0 then d
      else
        let r = \<bar>d\<bar> mod m; t = (if r + r < m then \<bar>d\<bar> - r else \<bar>d\<bar> + (m - r))
        in if d < 0 then max minDuration (- t) else min maxDuration t)"

definition recordState_lines :: "(string \<Rightarrow> string) \<Rightarrow> lstate \<Rightarrow> lstate \<Rightarrow> time \<Rightarrow> string list" where
  "recordState_lines title old state now =
     (let online = (if lt_Online state \<noteq> lt_Online old then [if lt_Online state then ''Online'' else ''Offline''] else []);
          ls = lt_Lease state;
          remaining = Time_Sub (Lease_ExpirationTime ls) now;
          diff = ls_Duration ls - remaining;
          progress =
            (if diff < Second
             then title (ls_Status ls) @ '' ('' @ ls_Resource ls @ '', '' @ Duration_String (ls_Duration ls) @ '')''
             else title (ls_Status ls) @ '' ('' @ ls_Resource ls @ '', '' @ Duration_String (Duration_Round remaining Second) @ '' / '' @
                  Duration_String (ls_Duration ls) @ '')'')
      in online @
         (if lt_Acquired state then
            (if Lease_Expired ls now then [''Lease Expired''] else [progress])
          else if lt_LeaseNotRequired state then [''Lease Not Required'']
          else if \<not> lt_Online state then [''Lease Acquisition Failed'']
          else [progress]))"

definition Invocation_log :: "bool \<Rightarrow> invocation \<Rightarrow> string \<Rightarrow> logevent" where
  "Invocation_log debug iv msg = InvocationEvent (iv_instance iv) (pd_Name (iv_data iv)) msg debug"

section \<open>Writing to the logger\<close>

text \<open>
  Every part has a method \<^verbatim>\<open>log\<close> and a method \<^verbatim>\<open>debug\<close>, told apart by \<open>debug\<close>; \<open>present\<close> tells whether the
  part has a logger. The value is the list of events that reach it.
\<close>

definition Logger_Log :: "bool \<Rightarrow> logevent \<Rightarrow> logevent list" where
  "Logger_Log present e = (if present then [e] else [])"

definition Service_log :: "bool \<Rightarrow> bool \<Rightarrow> string \<Rightarrow> logevent list" where
  "Service_log present debug msg = Logger_Log present (ServiceEvent msg debug)"

definition ProcessManager_log :: "bool \<Rightarrow> bool \<Rightarrow> string \<Rightarrow> logevent list" where
  "ProcessManager_log present debug msg = Logger_Log present (ServiceEvent msg debug)"

definition PolicyManager_log :: "bool \<Rightarrow> bool \<Rightarrow> string \<Rightarrow> logevent list" where
  "PolicyManager_log present debug msg = Logger_Log present (ServiceEvent msg debug)"

definition SessionManager_log :: "bool \<Rightarrow> bool \<Rightarrow> string \<Rightarrow> logevent list" where
  "SessionManager_log present debug msg = Logger_Log present (ServiceEvent msg debug)"

definition Handler_log :: "bool \<Rightarrow> bool \<Rightarrow> string \<Rightarrow> logevent list" where
  "Handler_log present debug msg = Logger_Log present (ServiceEvent msg debug)"

definition Session_log :: "bool \<Rightarrow> bool \<Rightarrow> nat \<Rightarrow> string \<Rightarrow> string \<Rightarrow> string \<Rightarrow> logevent list" where
  "Session_log present debug sid station user msg = Logger_Log present (SessionEvent (sid mod 2 ^ 32) station user msg debug)"

definition Process_log :: "bool \<Rightarrow> bool \<Rightarrow> procdata \<Rightarrow> string \<Rightarrow> logevent list" where
  "Process_log present debug p msg = Logger_Log present (ProcessEvent (pd_ID p) (pd_Name p) msg debug)"

section \<open>What the policy manager logs\<close>

definition slice_len :: "'a list option \<Rightarrow> nat" where
  "slice_len s = (case s of None \<Rightarrow> 0 | Some xs \<Rightarrow> length xs)"

definition diff_lines :: "(policy \<Rightarrow> string) \<Rightarrow> (policy \<Rightarrow> string) \<Rightarrow> policies option \<Rightarrow> policies option \<Rightarrow> string list" where
  "diff_lines hash print previous updated =
     (let (additions, deletions) = PolicySet_Diff hash previous updated;
          line = (\<lambda>change pol. ''POL: '' @ change @ '' '' @ hash pol @ '': '' @ print pol)
      in map (line ''ADD'') (case additions of None \<Rightarrow> [] | Some ps \<Rightarrow> ps) @
         map (line ''REM'') (case deletions of None \<Rightarrow> [] | Some ps \<Rightarrow> ps))"

definition PolicyManager_Load_lines ::
  "(policy \<Rightarrow> string) \<Rightarrow> (policy \<Rightarrow> string) \<Rightarrow> (policies option \<times> goerror option) option \<Rightarrow> polmanager \<Rightarrow> string list" where
  "PolicyManager_Load_lines hash print cache m =
     (case cache of
        None \<Rightarrow> [''No policy cache provided'']
      | Some (updated, Some err) \<Rightarrow> [''Failed to load policies from cache: '' @ err]
      | Some (updated, None) \<Rightarrow>
          (let d = slice_len updated in
           if d = 0 then ''POL: No policies found in the local policy cache''
           else if d = 1 then ''POL: Loading 1 policy from local policy cache''
           else ''POL: Loading '' @ itoa d @ '' policies from local policy cache'') #
          diff_lines hash print (po_policies m) updated)"

text \<open>\<open>cacheErr\<close> is the error of writing the cache, if there is a cache and it cannot be written.\<close>

definition PolicyManager_Update_lines ::
  "(policy \<Rightarrow> string) \<Rightarrow> (policy \<Rightarrow> string) \<Rightarrow> (cerr \<Rightarrow> string) \<Rightarrow> goerror option \<Rightarrow> cerr + policies option \<Rightarrow> polmanager \<Rightarrow> string list" where
  "PolicyManager_Update_lines hash print show_err cacheErr response m =
     (case response of
        Inl err \<Rightarrow> [''Failed to retrieve policies: '' @ show_err err]
      | Inr updated \<Rightarrow>
          (case cacheErr of None \<Rightarrow> [] | Some err \<Rightarrow> [''CACHE UPDATE: '' @ err]) @
          (let (additions, deletions) = PolicySet_Diff hash (po_policies m) updated; d = slice_len updated in
           if slice_len additions = 0 \<and> slice_len deletions = 0 then []
           else (if d = 1 then ''POL: Received 1 policy from policy server''
                 else ''POL: Received '' @ itoa d @ '' policies from policy server'') #
                diff_lines hash print (po_policies m) updated))"

section \<open>Facts about the log\<close>

lemma diff_lines_length:
  "length (diff_lines hash print previous updated) =
     slice_len (fst (PolicySet_Diff hash previous updated)) + slice_len (snd (PolicySet_Diff hash previous updated))"
  by (simp add: diff_lines_def slice_len_def split: prod.split option.split)

text \<open>An update is written into the log exactly when it reports a change, a line for every policy that came or went.\<close>

lemma update_is_logged_iff_changed:
  assumes "PolicyManager_Update hash cached (Inr updated) m = (m', changed, ok)"
  shows "ok" and "changed \<longleftrightarrow> PolicyManager_Update_lines hash print show_err None (Inr updated) m \<noteq> []"
    and "changed \<Longrightarrow> length (PolicyManager_Update_lines hash print show_err None (Inr updated) m) =
      1 + length (diff_lines hash print (po_policies m) updated)"
  using assms
  by (auto simp: PolicyManager_Update_def PolicyManager_Update_lines_def Let_def slice_len_def split: prod.splits if_splits)

text \<open>The policies that a load writes down are the ones that it changes: an unchanged set is one line.\<close>

lemma load_of_the_same_set:
  "PolicyManager_Load_lines hash print (Some (Some ps, None)) (m\<lparr>po_policies := Some ps\<rparr>) =
     [if length ps = 0 then ''POL: No policies found in the local policy cache''
      else if length ps = 1 then ''POL: Loading 1 policy from local policy cache''
      else ''POL: Loading '' @ itoa (length ps) @ '' policies from local policy cache'']"
proof -
  have "filter (\<lambda>(key, pol). map_of a key = None) a = []" for a :: "(string \<times> policy) list"
    by (auto simp: filter_empty_conv map_of_eq_None_iff rev_image_eqI)
  then show ?thesis by (simp add: PolicyManager_Load_lines_def diff_lines_def PolicySet_Diff_def slice_len_def Let_def)
qed

text \<open>One line about the lease is written for every state, besides the change of connection.\<close>

lemma recordState_lines_length:
  "length (recordState_lines title old state now) = (if lt_Online state = lt_Online old then 1 else 2)"
  by (simp add: recordState_lines_def Let_def)

text \<open>The identifier of an event does not tell invocations from processes.\<close>

lemma Event_IDs_collide: "Event_ID (Invocation_log debug iv msg) = Event_ID (ProcessEvent pid name msg debug)"
  by (simp add: Invocation_log_def)

lemma Duration_Round_near:
  assumes "0 < m" and "\<bar>d\<bar> + m \<le> maxDuration"
  shows "m dvd Duration_Round d m \<and> 2 * \<bar>Duration_Round d m - d\<bar> \<le> m"
proof -
  define r where "r = \<bar>d\<bar> mod m"
  have r: "0 \<le> r" "r < m" using assms(1) by (simp_all add: r_def)
  have "\<bar>d\<bar> - r = m * (\<bar>d\<bar> div m)" by (simp add: r_def minus_mod_eq_mult_div)
  then have dvd: "m dvd \<bar>d\<bar> - r" by simp
  then have dvd': "m dvd \<bar>d\<bar> + (m - r)" by (metis add_diff_eq add.commute diff_add_eq dvd_add_right_iff dvd_refl)
  define t where "t = (if r + r < m then \<bar>d\<bar> - r else \<bar>d\<bar> + (m - r))"
  have t: "m dvd t" "2 * \<bar>t - \<bar>d\<bar>\<bar> \<le> m" "t \<le> maxDuration" using r dvd dvd' assms(2) by (auto simp: t_def)
  have "Duration_Round d m = (if d < 0 then max minDuration (- t) else min maxDuration t)"
    using assms(1) unfolding Duration_Round_def Let_def t_def r_def by (simp only: not_le [symmetric] if_False)
  moreover have "minDuration \<le> - t" using t(3) by (simp add: minDuration_def maxDuration_def)
  ultimately have "Duration_Round d m = (if d < 0 then - t else t)" using t(3) by simp
  with t show ?thesis by (auto simp: abs_if split: if_splits)
qed

end
