(* ===== verification/CommandLine.thy ===== *)
theory CommandLine
  imports Commands Install EnforcerEvents
begin

text \<open>
  The command line of \<^verbatim>\<open>src/cmd/resourceful/\<close>: the dispatch of \<^verbatim>\<open>main.go\<close>, the start of the Windows
  service by \<^verbatim>\<open>runServiceHandler\<close>, the console of \<^verbatim>\<open>console_windows.go\<close>, the commands of the other
  operating systems and the version resource of \<^verbatim>\<open>builder.go\<close>. The parser \<^verbatim>\<open>kong\<close>, the package \<^verbatim>\<open>svc\<close>
  and the calls of the operating system are arguments; exits are numbers.
\<close>

section \<open>The console\<close>

datatype stdhandle = STD_OUTPUT_HANDLE | STD_INPUT_HANDLE | STD_ERROR_HANDLE

text \<open>The answers of Windows; \<open>None\<close> is a call that succeeds.\<close>

record consoleos =
  co_FreeConsole :: "goerror option"
  co_AttachConsole :: "goerror option"
  co_AllocConsole :: "goerror option"
  co_GetStdHandle :: "stdhandle \<Rightarrow> goerror + nat"

type_synonym osfile = "nat \<times> string"

record streams =
  st_Stdout :: osfile
  st_Stdin :: osfile
  st_Stderr :: osfile
  st_log :: osfile
  st_printed :: string

definition freeConsole :: "consoleos \<Rightarrow> goerror option" where
  "freeConsole os = map_option (\<lambda>e. ''could not free console: '' @ e) (co_FreeConsole os)"

definition attachConsole :: "consoleos \<Rightarrow> goerror option" where
  "attachConsole os = map_option (\<lambda>e. ''could not attach console: '' @ e) (co_AttachConsole os)"

definition allocConsole :: "consoleos \<Rightarrow> goerror option" where
  "allocConsole os = map_option (\<lambda>e. ''could not allocate console: '' @ e) (co_AllocConsole os)"

definition bindOutput :: "consoleos \<Rightarrow> streams \<Rightarrow> streams \<times> goerror option" where
  "bindOutput os st =
     (case co_GetStdHandle os STD_OUTPUT_HANDLE of
        Inl err \<Rightarrow> (st, Some err)
      | Inr hout \<Rightarrow>
          (case co_GetStdHandle os STD_INPUT_HANDLE of
             Inl err \<Rightarrow> (st, Some err)
           | Inr hin \<Rightarrow>
               (case co_GetStdHandle os STD_ERROR_HANDLE of
                  Inl err \<Rightarrow> (st, Some err)
                | Inr herr \<Rightarrow>
                    (st\<lparr>st_Stdout := (hout, ''/dev/stdout''), st_Stdin := (hin, ''/dev/stdin''),
                        st_Stderr := (herr, ''/dev/stderr''), st_log := (hout, ''/dev/stdout'')\<rparr>, None))))"

definition prepareConsole :: "consoleos \<Rightarrow> bool \<Rightarrow> streams \<Rightarrow> streams \<times> goerror option" where
  "prepareConsole os attach st =
     (case attachConsole os of
        None \<Rightarrow> let (st, _) = bindOutput os st in (st\<lparr>st_printed := st_printed st @ [CHR 0x0A]\<rparr>, None)
      | Some _ \<Rightarrow>
          (case allocConsole os of
             None \<Rightarrow> let (st, _) = bindOutput os st in (st, None)
           | Some err \<Rightarrow> (st, Some err)))"

section \<open>Starting as a Windows service\<close>

record enforceCmd =
  en_Server :: string
  en_Passive :: bool
  en_Debug :: bool

definition EnforceCmd_Config :: "enforceCmd \<Rightarrow> enforceConfig" where
  "EnforceCmd_Config cmd = \<lparr>ec_Server = en_Server cmd, ec_Passive = en_Passive cmd, ec_Debug = en_Debug cmd\<rparr>"

definition ServiceCmd_Config :: "enforceCmd \<Rightarrow> enforceConfig" where
  "ServiceCmd_Config cmd = \<lparr>ec_Server = en_Server cmd, ec_Passive = en_Passive cmd, ec_Debug = en_Debug cmd\<rparr>"

text \<open>The handler that is run; \<open>parsed\<close> is what the parser made of the program arguments, and its error.\<close>

definition serviceHandler :: "enforceCmd \<times> goerror option \<Rightarrow> handler" where
  "serviceHandler parsed =
     \<lparr>hd_Name = ServiceName, hd_Conf = EnforceCmd_Config (fst parsed), hd_ConfErr = snd parsed\<rparr>"

datatype logentry = InfoEntry nat string | ErrorEntry nat string

text \<open>
  The entries of the event log; \<open>run\<close> is \<^verbatim>\<open>svc.Run\<close>, with the entries of the handler's logger. Without
  an event log nothing is run.
\<close>

definition runServiceHandler ::
  "enforceCmd \<times> goerror option \<Rightarrow> goerror option \<Rightarrow> (handler \<Rightarrow> (nat \<times> string) list \<times> goerror option) \<Rightarrow> logentry list" where
  "runServiceHandler parsed openErr run =
     (if openErr \<noteq> None then []
      else
        let (lines, err) = run (serviceHandler parsed) in
        [InfoEntry ServiceEventID (''Starting '' @ ServiceName @ '' service version '' @ Version @ ''.'')] @
        map (case_prod InfoEntry) lines @
        (case err of None \<Rightarrow> [] | Some e \<Rightarrow> [ErrorEntry ServiceEventID (''Error running service: '' @ e)]) @
        [InfoEntry ServiceEventID (''Stopped '' @ ServiceName @ '' service version '' @ Version @ ''.'')])"

section \<open>The dispatch\<close>

datatype cliCommand =
    CmdList string
  | CmdInstall installCmd
  | CmdUninstall
  | CmdEnforce enforceCmd
  | CmdGuardian guardianCmd
  | CmdUI

datatype runResult = ExitsWith nat | ReturnsWith "goerror option"

text \<open>
  \<open>fatal\<close> is the exit code that the parser gives an error. The result is the exit code of the process and whether
  it ran as a service.
\<close>

definition main_run ::
  "goerror + bool \<Rightarrow> (string list \<Rightarrow> goerror + cliCommand) \<Rightarrow> (goerror \<Rightarrow> nat) \<Rightarrow> (cliCommand \<Rightarrow> runResult) \<Rightarrow>
   string list \<Rightarrow> nat \<times> bool" where
  "main_run isWindowsService parse fatal run args =
     (case isWindowsService of
        Inl err \<Rightarrow> (1, False)
      | Inr True \<Rightarrow> (0, True)
      | Inr False \<Rightarrow>
          (case parse args of
             Inl parseErr \<Rightarrow> (fatal parseErr, False)
           | Inr app \<Rightarrow>
               (case run app of
                  ExitsWith code \<Rightarrow> (code, False)
                | ReturnsWith (Some appErr) \<Rightarrow> (fatal appErr, False)
                | ReturnsWith None \<Rightarrow> (0, False))))"

section \<open>Other operating systems\<close>

record 'p unixlisting =
  ul_Lines :: "string list"
  ul_Matching :: "'p list"

text \<open>A process is its executable and number; \<open>Inl\<close> is an exit.\<close>

definition ListCmd_Run_unix ::
  "golib \<Rightarrow> goerror + string \<Rightarrow> goerror + policies \<Rightarrow> goerror + (string \<times> nat) list \<Rightarrow> nat + (string \<times> nat) unixlisting" where
  "ListCmd_Run_unix lib hostname collected processes =
     (case hostname of
        Inl err \<Rightarrow> Inl 1
      | Inr host \<Rightarrow>
          (case collected of
             Inl err \<Rightarrow> Inl 1
           | Inr policies \<Rightarrow>
               (case processes of
                  Inl err \<Rightarrow> Inl 2
                | Inr procs \<Rightarrow>
                    if length procs = 0 then Inl 0
                    else
                      let props = (\<lambda>(exe, pid). [''program.name'' \<mapsto> exe, ''process.id'' \<mapsto> itoa pid, ''host.name'' \<mapsto> host]);
                          matching = filter (\<lambda>p. length (PolicySet_Match lib policies (props p)) > 0) procs
                      in Inr \<lparr>ul_Lines = ''Matching processes:'' # map (\<lambda>(exe, pid). ''  '' @ exe) matching,
                              ul_Matching = matching\<rparr>)))"

definition isWindowsService_unix :: "goerror + bool" where
  "isWindowsService_unix = Inr False"

definition unix_Run :: "(string \<Rightarrow> runResult) \<Rightarrow> (guardianCmd \<Rightarrow> runResult) \<Rightarrow> cliCommand \<Rightarrow> runResult" where
  "unix_Run listing serve app =
     (case app of
        CmdList server \<Rightarrow> listing server
      | CmdGuardian cmd \<Rightarrow> serve cmd
      | CmdInstall cmd \<Rightarrow> ReturnsWith (Some ''the resourceful enforcement service can only be installed on windows'')
      | CmdUninstall \<Rightarrow> ReturnsWith (Some ''the resourceful enforcement service can only be installed on windows'')
      | CmdEnforce cmd \<Rightarrow> ReturnsWith (Some ''the resourceful policy enforcer can only be run on windows'')
      | CmdUI \<Rightarrow> ReturnsWith (Some ''the resourceful ui can only be run on windows''))"

section \<open>The version resource\<close>

record versionInfo =
  vi_IconPath :: string
  vi_ManifestPath :: string
  vi_FileVersion :: "int \<times> int \<times> int \<times> int"
  vi_ProductVersion :: "int \<times> int \<times> int \<times> int"
  vi_Flags :: "string list"
  vi_CompanyName :: string
  vi_FileDescription :: string
  vi_FileVersionText :: string
  vi_OriginalFilename :: string
  vi_ProductName :: string
  vi_ProductVersionText :: string

definition buildVersionInfo :: versionInfo where
  "buildVersionInfo =
     \<lparr>vi_IconPath = ''icon.ico'', vi_ManifestPath = ''resourceful.manifest'',
      vi_FileVersion = splitVersion Version, vi_ProductVersion = splitVersion Version,
      vi_Flags = [''3f'', ''00'', ''040004'', ''01'', ''00''],
      vi_CompanyName = ''SCJ Alliance'', vi_FileDescription = ''Resourceful'', vi_FileVersionText = Version,
      vi_OriginalFilename = ''resourceful.exe'', vi_ProductName = ''Resourceful'', vi_ProductVersionText = Version\<rparr>"

section \<open>Facts about the console\<close>

text \<open>
  The argument makes no difference, the call fails only when a console can be neither attached nor allocated, and the
  three standard files are replaced together or not at all, with the log following the output.
\<close>

lemma prepareConsole_ignores_attach: "prepareConsole os True st = prepareConsole os False st"
  by (simp add: prepareConsole_def)

lemma bindOutput_cases:
  obtains err where "bindOutput os st = (st, Some err)"
  | hout hin herr where "bindOutput os st =
      (st\<lparr>st_Stdout := (hout, ''/dev/stdout''), st_Stdin := (hin, ''/dev/stdin''), st_Stderr := (herr, ''/dev/stderr''),
          st_log := (hout, ''/dev/stdout'')\<rparr>, None)"
    "co_GetStdHandle os STD_OUTPUT_HANDLE = Inr hout" "co_GetStdHandle os STD_INPUT_HANDLE = Inr hin"
    "co_GetStdHandle os STD_ERROR_HANDLE = Inr herr"
  using that
  by (cases "co_GetStdHandle os STD_OUTPUT_HANDLE"; cases "co_GetStdHandle os STD_INPUT_HANDLE";
      cases "co_GetStdHandle os STD_ERROR_HANDLE") (simp_all add: bindOutput_def)

lemma bindOutput_all_or_nothing:
  "fst (bindOutput os st) = st \<and> snd (bindOutput os st) \<noteq> None \<or>
   st_log (fst (bindOutput os st)) = st_Stdout (fst (bindOutput os st)) \<and> snd (bindOutput os st) = None"
  by (rule bindOutput_cases [of os st]) simp_all

lemma prepareConsole_error:
  "snd (prepareConsole os attach st) \<noteq> None \<longleftrightarrow> co_AttachConsole os \<noteq> None \<and> co_AllocConsole os \<noteq> None"
  "snd (prepareConsole os attach st) \<noteq> None \<Longrightarrow> fst (prepareConsole os attach st) = st"
  by (auto simp: prepareConsole_def attachConsole_def allocConsole_def split: option.splits prod.splits)

text \<open>A console that cannot be bound is not reported: the call succeeds and nothing is bound.\<close>

lemma unbound_console_is_a_success:
  assumes "co_AttachConsole os \<noteq> None" and "co_AllocConsole os = None" and "co_GetStdHandle os STD_OUTPUT_HANDLE = Inl err"
  shows "prepareConsole os attach st = (st, None)"
  using assms by (auto simp: prepareConsole_def attachConsole_def allocConsole_def bindOutput_def)

section \<open>Facts about the dispatch\<close>

text \<open>A service start never reaches the parser of the command line, and every other start reports errors by its exit code.\<close>

lemma main_run_success:
  assumes "\<forall>e. fatal e \<noteq> 0" and "main_run isService parse fatal run args = (0, service)"
  shows "service \<and> isService = Inr True \<or>
    \<not> service \<and> (\<exists>app. parse args = Inr app \<and> (run app = ExitsWith 0 \<or> run app = ReturnsWith None))"
  using assms(2) by (auto simp: main_run_def assms(1) split: sum.splits bool.splits runResult.splits option.splits)

lemma unix_has_no_enforcer:
  assumes "\<forall>e. fatal e \<noteq> 0" and "parse args = Inr app" and "\<forall>server. app \<noteq> CmdList server" and "\<forall>cmd. app \<noteq> CmdGuardian cmd"
  shows "fst (main_run isWindowsService_unix parse fatal (unix_Run listing serve) args) \<noteq> 0"
  using assms by (cases app) (simp_all add: main_run_def isWindowsService_unix_def unix_Run_def)

lemma ListCmd_Run_unix_lines:
  assumes "ListCmd_Run_unix lib hostname collected processes = Inr l"
  shows "length (ul_Lines l) = Suc (length (ul_Matching l))"
    and "p \<in> set (ul_Matching l) \<Longrightarrow> \<exists>procs. processes = Inr procs \<and> p \<in> set procs"
  using assms by (auto simp: ListCmd_Run_unix_def Let_def split: sum.splits if_splits)

text \<open>The event log of a service run is framed by its start and its stop, with an error between them if there was one.\<close>

lemma service_log_frame:
  assumes "run (serviceHandler parsed) = (lines, err)"
  obtains body where "runServiceHandler parsed None run =
      InfoEntry ServiceEventID (''Starting '' @ ServiceName @ '' service version '' @ Version @ ''.'') # body @
      [InfoEntry ServiceEventID (''Stopped '' @ ServiceName @ '' service version '' @ Version @ ''.'')]"
    and "(\<exists>n e. ErrorEntry n e \<in> set body) \<longleftrightarrow> err \<noteq> None"
proof
  show "runServiceHandler parsed None run =
      InfoEntry ServiceEventID (''Starting '' @ ServiceName @ '' service version '' @ Version @ ''.'') #
      (map (case_prod InfoEntry) lines @
        (case err of None \<Rightarrow> [] | Some e \<Rightarrow> [ErrorEntry ServiceEventID (''Error running service: '' @ e)])) @
      [InfoEntry ServiceEventID (''Stopped '' @ ServiceName @ '' service version '' @ Version @ ''.'')]"
    using assms by (simp add: runServiceHandler_def)
qed (auto split: option.splits)

text \<open>The numbers of the version resource are those of its text.\<close>

definition version_text :: "int \<times> int \<times> int \<times> int \<Rightarrow> string" where
  "version_text v =
     (let (major, minor, patch, build) = v
      in strings_Join (map (\<lambda>n. itoa (nat n)) [major, minor, patch, build]) ''.'')"

lemma version_resource_consistent:
  "version_text (vi_FileVersion buildVersionInfo) = vi_FileVersionText buildVersionInfo"
  "version_text (vi_ProductVersion buildVersionInfo) = vi_ProductVersionText buildVersionInfo"
proof -
  have "version_text (2023, 12, 19, 0) = Version" by (simp add: version_text_def Version_def itoa.simps char_of_def bit_Suc_0_iff)
  then show "version_text (vi_FileVersion buildVersionInfo) = vi_FileVersionText buildVersionInfo"
    "version_text (vi_ProductVersion buildVersionInfo) = vi_ProductVersionText buildVersionInfo"
    by (simp_all add: buildVersionInfo_def splitVersion_constant)
qed

section \<open>From the installation to the service\<close>

text \<open>
  What the flags of the command mean, as \<^verbatim>\<open>enforce.go\<close> declares them for the parser: short flags, a server
  that does not look like a flag, later flags over earlier ones.
\<close>

fun flag_values :: "string list \<Rightarrow> enforceCmd \<Rightarrow> enforceCmd option" where
  "flag_values [] cmd = Some cmd"
| "flag_values (a # args) cmd =
     (if a = ''-p'' then flag_values args (cmd\<lparr>en_Passive := True\<rparr>)
      else if a = ''-v'' then flag_values args (cmd\<lparr>en_Debug := True\<rparr>)
      else if a = ''-s'' then
        (case args of
           v # rest \<Rightarrow> if v = '''' \<or> hd v = CHR ''-'' then None else flag_values rest (cmd\<lparr>en_Server := v\<rparr>)
         | [] \<Rightarrow> None)
      else None)"

definition zero_enforceCmd :: enforceCmd where
  "zero_enforceCmd = \<lparr>en_Server = '''', en_Passive = False, en_Debug = False\<rparr>"

lemma serviceArgs_flags:
  assumes "ic_Server cmd = '''' \<or> hd (ic_Server cmd) \<noteq> CHR ''-''"
  obtains flags where "serviceArgs cmd = ''enforce'' # flags"
    and "flag_values flags zero_enforceCmd = Some \<lparr>en_Server = ic_Server cmd, en_Passive = ic_Passive cmd, en_Debug = False\<rparr>"
  using assms that by (cases "ic_Passive cmd"; cases "ic_Server cmd = ''''") (simp_all add: serviceArgs_def Let_def zero_enforceCmd_def)

lemma installed_arguments:
  assumes "InstallCmd_Run rg ie cmd m = (m', 0)"
  shows "\<exists>path. InstallService path (serviceArgs cmd) \<in> set (mc_calls m')"
  by (rule InstallCmd_Run_success [OF assms]) auto

text \<open>The service manager starts the handler with the name of the service and no further argument.\<close>

lemma Execute_installed:
  assumes "ho_Executable ho = Inr exe" and "ho_Hostname ho = Inr host"
  obtains x where "Execute ho (serviceHandler (cmd, None)) [name] = Inr x" and "ex_client x = newClient (en_Server cmd)"
    and "hd_Conf (ex_handler x) = EnforceCmd_Config cmd" and "sv_running (ex_service x)" and "ex_uiCommand x = (exe, [''ui''])"
    and "last (ex_changes x) = svc_status SvcRunning True"
  using assms that
  by (auto simp: Execute_def serviceHandler_def serviceArguments_def buildEnvironment_def Let_def EnforceCmd_Config_def
      Service_Start_def Service_New_def)

end
