(* ===== verification/Detect.thy ===== *)
theory Detect
  imports GoStrings Lease
begin

text \<open>
  What the runner finds out about its surroundings (\<^verbatim>\<open>src/runner/detect.go\<close>,
  \<^verbatim>\<open>src/runner/properties.go\<close>): the host, the user, the program, and a random identifier for the
  instance. The operating system is the record \<open>surroundings\<close>. The random source of Go is a sequence of
  63-bit numbers; the loop that turns it into letters skips groups of bits that name none, so it
  is given an allowance of turns, and \<open>None\<close> means that it was not enough.
\<close>

section \<open>Random identifiers\<close>

definition letterBytes :: string where
  "letterBytes = ''abcdefghijklmnopqrstuvwxyzABCDEFGHIJKLMNOPQRSTUVWXYZ''"

definition letterIdxMax :: nat where "letterIdxMax = 63 div 6"

text \<open>
  The loop: \<open>k\<close> numbers have been drawn, \<open>cache\<close> holds what is left of the last one, \<open>remain\<close> groups of six
  bits; the letters from position \<open>i\<close> on are in place, and \<open>i\<close> are missing.
\<close>

fun randomID_loop :: "nat \<Rightarrow> (nat \<Rightarrow> nat) \<Rightarrow> nat \<Rightarrow> nat \<Rightarrow> nat \<Rightarrow> nat \<Rightarrow> string \<Rightarrow> string option" where
  "randomID_loop turns src k cache remain 0 b = Some b"
| "randomID_loop 0 src k cache remain (Suc i) b = None"
| "randomID_loop (Suc turns) src k cache remain (Suc i) b =
     (let (k, cache, remain) = (if remain = 0 then (Suc k, src k, letterIdxMax) else (k, cache, remain));
          idx = cache mod 2 ^ 6;
          (i, b) = (if idx < length letterBytes then (i, letterBytes ! idx # b) else (Suc i, b))
      in randomID_loop turns src k (cache div 2 ^ 6) (remain - 1) i b)"

definition randomID :: "nat \<Rightarrow> (nat \<Rightarrow> nat) \<Rightarrow> nat \<Rightarrow> string option" where
  "randomID turns src n = randomID_loop turns src 1 (src 0) letterIdxMax n []"

section \<open>The surroundings\<close>

record osuser =
  us_Uid :: string
  us_Username :: string

record surroundings =
  sw_Hostname :: "goerror + string"
  sw_User :: "goerror + osuser"
  sw_LookPath :: "string \<Rightarrow> goerror + string"
  sw_Base :: "string \<Rightarrow> string"

text \<open>\<^verbatim>\<open>strings.SplitN\<close> with a limit of two parts.\<close>

definition strings_SplitN2 :: "char \<Rightarrow> string \<Rightarrow> string list" where
  "strings_SplitN2 sep s =
     (if sep \<in> set s then [takeWhile (\<lambda>c. c \<noteq> sep) s, tl (dropWhile (\<lambda>c. c \<noteq> sep) s)] else [s])"

definition Runner_Properties :: "surroundings \<Rightarrow> string \<Rightarrow> string \<Rightarrow> osuser \<Rightarrow> properties" where
  "Runner_Properties sw configProgram host u =
     (let (path, program) =
            (case sw_LookPath sw configProgram of
               Inl err \<Rightarrow> (configProgram, configProgram)
             | Inr found \<Rightarrow> (found, sw_Base sw found));
          props = [''program.name'' \<mapsto> program, ''program.path'' \<mapsto> path, ''host.name'' \<mapsto> host, ''user.id'' \<mapsto> us_Uid u]
      in case strings_SplitN2 (CHR 0x5C) (us_Username u) of
           [domain, account] \<Rightarrow> props(''user.domain'' \<mapsto> domain, ''user.account'' \<mapsto> account)
         | _ \<Rightarrow> props(''user.account'' \<mapsto> us_Username u))"

definition DetectEnvironment ::
  "nat \<Rightarrow> (nat \<Rightarrow> nat) \<Rightarrow> surroundings \<Rightarrow> string \<Rightarrow> (goerror + instance_t \<times> properties) option" where
  "DetectEnvironment turns src sw program =
     (case sw_Hostname sw of
        Inl err \<Rightarrow> Some (Inl (''unable to query hostname: '' @ err))
      | Inr host \<Rightarrow>
          (case sw_User sw of
             Inl err \<Rightarrow> Some (Inl (''unable to determine current user: '' @ err))
           | Inr u \<Rightarrow>
               (case randomID turns src 12 of
                  None \<Rightarrow> None
                | Some i \<Rightarrow>
                    Some (Inr (\<lparr>inst_Host = host, inst_User = us_Username u, inst_ID = i\<rparr>,
                               Runner_Properties sw program host u)))))"

definition Runner_init ::
  "nat \<Rightarrow> (nat \<Rightarrow> nat) \<Rightarrow> surroundings \<Rightarrow> string \<Rightarrow> (goerror + instance_t \<times> properties) option" where
  "Runner_init turns src sw program =
     (case DetectEnvironment turns src sw program of
        None \<Rightarrow> None
      | Some (Inl err) \<Rightarrow> Some (Inl (''runner: unable to detect environment: '' @ err))
      | Some (Inr found) \<Rightarrow> Some (Inr found))"

section \<open>The letters drawn\<close>

text \<open>The group of bits the loop looks at in turn \<open>t\<close>, and the letters in the first \<open>t\<close> groups.\<close>

definition group :: "(nat \<Rightarrow> nat) \<Rightarrow> nat \<Rightarrow> nat" where
  "group src t = src (t div letterIdxMax) div 64 ^ (t mod letterIdxMax) mod 64"

definition letters :: "(nat \<Rightarrow> nat) \<Rightarrow> nat \<Rightarrow> nat \<Rightarrow> string" where
  "letters src from to =
     map (\<lambda>t. letterBytes ! group src t) (filter (\<lambda>t. group src t < length letterBytes) [from..<to])"

text \<open>The state of the loop before turn \<open>t\<close>, up to the draw of the next number.\<close>

definition at_turn :: "(nat \<Rightarrow> nat) \<Rightarrow> nat \<Rightarrow> nat \<Rightarrow> nat \<Rightarrow> nat \<Rightarrow> bool" where
  "at_turn src t k cache remain \<longleftrightarrow>
     (remain = 0 \<and> k * letterIdxMax = t \<or>
      0 < remain \<and> remain \<le> letterIdxMax \<and> 0 < k \<and> t = (k - 1) * letterIdxMax + (letterIdxMax - remain) \<and>
        cache = src (k - 1) div 64 ^ (letterIdxMax - remain))"

lemma letterIdxMax_10 [simp]: "letterIdxMax = 10" by (simp add: letterIdxMax_def)

lemma at_turn_group:
  assumes "at_turn src t k cache remain"
  shows "let (k', cache', remain') = (if remain = 0 then (Suc k, src k, letterIdxMax) else (k, cache, remain)) in
    cache' mod 2 ^ 6 = group src t \<and> at_turn src (Suc t) k' (cache' div 2 ^ 6) (remain' - 1)"
proof (cases "remain = 0")
  case True
  with assms have "t = k * 10" by (simp add: at_turn_def)
  with True show ?thesis by (auto simp: at_turn_def group_def)
next
  case False
  with assms have s: "0 < remain" "remain \<le> 10" "0 < k" "t = (k - 1) * 10 + (10 - remain)" "cache = src (k - 1) div 64 ^ (10 - remain)"
    by (auto simp: at_turn_def)
  have "10 - remain < 10" using s(1) by simp
  then have t: "t div 10 = k - 1" "t mod 10 = 10 - remain" unfolding s(4) by simp_all
  have g: "cache mod 2 ^ 6 = group src t" using s(5) t by (simp add: group_def)
  show ?thesis
  proof (cases "remain = 1")
    case True
    with s(3,4) have "k * 10 = Suc t" by (cases k) auto
    with True False g show ?thesis by (simp add: at_turn_def)
  next
    case more: False
    have "10 - (remain - 1) = Suc (10 - remain)" using s(1,2) more by auto
    then have "cache div 2 ^ 6 = src (k - 1) div 64 ^ (10 - (remain - 1))" "Suc t = (k - 1) * 10 + (10 - (remain - 1))"
      using s by (simp_all add: div_mult2_eq [symmetric] mult.commute)
    moreover have "remain - 1 \<le> 10" using s(2) by simp
    ultimately show ?thesis using s more False g by (simp add: at_turn_def)
  qed
qed

text \<open>The loop prepends letters in the order of the groups, until enough have been found.\<close>

lemma randomID_loop_letters:
  assumes "at_turn src t k cache remain"
  shows "randomID_loop turns src k cache remain i b =
    (if i \<le> length (letters src t (t + turns)) then Some (rev (take i (letters src t (t + turns))) @ b) else None)"
  using assms
proof (induction turns arbitrary: t k cache remain i b)
  case 0
  then show ?case by (cases i) (simp_all add: letters_def)
next
  case (Suc turns)
  show ?case
  proof (cases i)
    case (Suc j)
    obtain k' cache' remain' where st: "(if remain = 0 then (Suc k, src k, letterIdxMax) else (k, cache, remain)) = (k', cache', remain')"
      by (metis prod_cases3)
    from at_turn_group [OF Suc.prems] have g: "cache' mod 2 ^ 6 = group src t"
      and next_turn: "at_turn src (Suc t) k' (cache' div 2 ^ 6) (remain' - 1)" unfolding st by simp_all
    have split: "letters src t (t + Suc turns) =
        (if group src t < length letterBytes then letterBytes ! group src t # letters src (Suc t) (Suc t + turns)
         else letters src (Suc t) (Suc t + turns))"
      by (simp add: letters_def upt_conv_Cons del: upt_Suc)
    have "randomID_loop (Suc turns) src k cache remain (Suc j) b =
        (if group src t < length letterBytes
         then randomID_loop turns src k' (cache' div 2 ^ 6) (remain' - 1) j (letterBytes ! group src t # b)
         else randomID_loop turns src k' (cache' div 2 ^ 6) (remain' - 1) (Suc j) b)"
      by (simp only: randomID_loop.simps st Let_def prod.case g split: if_split) simp
    with Suc.IH [OF next_turn] Suc split show ?thesis by simp
  qed simp
qed

lemma randomID_letters:
  "randomID turns src n =
     (if n \<le> length (letters src 0 turns) then Some (rev (take n (letters src 0 turns))) else None)"
  unfolding randomID_def using randomID_loop_letters [of src 0 1 "src 0" letterIdxMax turns n "[]"] by (simp add: at_turn_def)

lemma letters_infinite:
  assumes "\<forall>m. \<exists>t \<ge> m. group src t < length letterBytes"
  shows "\<exists>turns. n \<le> length (letters src 0 turns)"
proof (induction n)
  case (Suc n)
  then obtain turns where n: "n \<le> length (letters src 0 turns)" by blast
  from assms obtain t where t: "turns \<le> t" "group src t < length letterBytes" by blast
  have "[0..<Suc t] = [0..<turns] @ [turns..<t] @ [t]" using t(1) upt_add_eq_append [of 0 turns "t - turns"] by simp
  then have "length (letters src 0 (Suc t)) \<ge> length (letters src 0 turns) + 1"
    using t(2) by (simp add: letters_def del: upt_Suc)
  with n show ?case by (intro exI [of _ "Suc t"]) linarith
qed simp

lemma letters_are_letters: "set (letters src a b) \<subseteq> set letterBytes"
  by (auto simp: letters_def)

lemma letters_append: "a \<le> b \<Longrightarrow> b \<le> c \<Longrightarrow> letters src a c = letters src a b @ letters src b c"
  using upt_add_eq_append [of a b "c - b"] by (simp add: letters_def)

text \<open>With a source that keeps naming letters the loop ends, and more turns do not change the result.\<close>

lemma randomID_returns:
  assumes "\<forall>m. \<exists>t \<ge> m. group src t < length letterBytes"
  shows "\<exists>i. length i = n \<and> set i \<subseteq> set letterBytes \<and> (\<exists>N. \<forall>turns \<ge> N. randomID turns src n = Some i)"
proof -
  from letters_infinite [OF assms, of n] obtain N where N: "n \<le> length (letters src 0 N)" by blast
  let ?i = "rev (take n (letters src 0 N))"
  have "randomID turns src n = Some ?i" if "N \<le> turns" for turns
    using that N by (simp add: randomID_letters letters_append [of 0 N turns])
  moreover have "set ?i \<subseteq> set letterBytes" using letters_are_letters [of src 0 N] set_take_subset by fastforce
  ultimately show ?thesis using N by (intro exI [of _ ?i] conjI exI [of _ N]) auto
qed

end
