(* ===== verification/ViewModels.thy ===== *)
theory ViewModels
  imports LeaseUi GoTime
begin

text \<open>
  The view models of the lease dialogs (\<^verbatim>\<open>queuedmodel_windows.go\<close> and \<^verbatim>\<open>connectionmodel_windows.go\<close> of
  \<^verbatim>\<open>src/lease/leaseui/\<close>): the table of leases with its rows and cells, and the time a lease has left. The
  library \<^verbatim>\<open>walk\<close> draws them; here it is the list of the changes published to it.
\<close>

section \<open>Rounded times\<close>

definition Time_Round :: "time \<Rightarrow> duration \<Rightarrow> time" where
  "Time_Round t d = (let r = t mod d in if r + r < d then t - r else t + (d - r))"

section \<open>The table of leases\<close>

datatype tablechange = RowsReset | RowChanged nat

record queuedmodel =
  qm_Instance :: instance_t
  qm_state :: lstate
  qm_closed :: bool
  qm_published :: "tablechange list"

definition NewQueuedModel :: "instance_t \<Rightarrow> lstate \<Rightarrow> queuedmodel" where
  "NewQueuedModel inst st = \<lparr>qm_Instance = inst, qm_state = st, qm_closed = False, qm_published = [RowsReset]\<rparr>"

definition RowCount :: "queuedmodel \<Rightarrow> nat" where
  "RowCount m = length (lt_Leases (qm_state m))"

definition QueuedModel_Update :: "lstate \<Rightarrow> queuedmodel \<Rightarrow> queuedmodel" where
  "QueuedModel_Update st m =
     (let m = m\<lparr>qm_state := st\<rparr>
      in if qm_closed m then m else m\<lparr>qm_published := qm_published m @ [RowsReset]\<rparr>)"

definition QueuedModel_Refresh :: "queuedmodel \<Rightarrow> queuedmodel" where
  "QueuedModel_Refresh m =
     (if qm_closed m then m else m\<lparr>qm_published := qm_published m @ map RowChanged [0..<RowCount m]\<rparr>)"

definition QueuedModel_Close :: "queuedmodel \<Rightarrow> queuedmodel" where
  "QueuedModel_Close m = m\<lparr>qm_closed := True\<rparr>"

text \<open>A cell; \<open>None\<close> is nil, for a column that does not exist.\<close>

definition QueuedModel_Value :: "time \<Rightarrow> nat \<Rightarrow> nat \<Rightarrow> queuedmodel \<Rightarrow> string option go" where
  "QueuedModel_Value now row col m =
     (if \<not> row < length (lt_Leases (qm_state m)) then Inl IndexOutOfRange
      else
        let ls = lt_Leases (qm_state m) ! row in
        Inr (if col = 0 then Some (ls_Status ls)
             else if col = 1 then Some (props_get (ls_Properties ls) ''user.name'')
             else if col = 2 then Some (props_get (ls_Properties ls) ''host.name'')
             else if col = 3 then
               (if ls_Status ls = Released then Some ''''
                else
                  let started = Time_Round (ls_Started ls) Second; now = Time_Round now Second
                  in Some (Duration_String (Time_Sub now started)))
             else if col = 4 then
               (if ls_Decay ls = 0 then Some ''''
                else if inst_Host (ls_Instance ls) = inst_Host (qm_Instance m) \<and> inst_User (ls_Instance ls) = inst_User (qm_Instance m)
                then Some ''''
                else if ls_Status ls = Active then Some (Duration_String (ls_Decay ls))
                else if ls_Status ls = Released then
                  (let available = Time_Round (Lease_DecayTime ls) Second; now = Time_Round now Second
                   in if now < available then Some (Duration_String (Time_Sub available now)) else Some ''now'')
                else Some '''')
             else None))"

section \<open>The connection\<close>

definition ConnectionModel_TimeRemaining :: "time \<Rightarrow> lstate \<Rightarrow> duration" where
  "ConnectionModel_TimeRemaining now st =
     (let now = Time_Round now Second; expiration = Time_Round (Lease_ExpirationTime (lt_Lease st)) Second
      in if now > expiration then 0 else Time_Sub expiration now)"

section \<open>What they show\<close>

lemma Time_Round_near:
  assumes "0 < d"
  shows "d dvd Time_Round t d \<and> 2 * \<bar>Time_Round t d - t\<bar> \<le> d"
proof -
  have r: "0 \<le> t mod d" "t mod d < d" using assms by simp_all
  have "t - t mod d = d * (t div d)" by (simp add: minus_mod_eq_mult_div)
  then have "d dvd t - t mod d" by simp
  moreover have "t + (d - t mod d) = (t - t mod d) + d" by simp
  ultimately have "d dvd t - t mod d" "d dvd t + (d - t mod d)" by (metis dvd_add_right_iff dvd_refl)+
  with r show ?thesis by (auto simp: Time_Round_def Let_def)
qed

text \<open>The time shown as remaining is whole seconds, never negative, and off by at most a second.\<close>

lemma TimeRemaining_near:
  fixes now :: time and st :: lstate
  defines "left \<equiv> Lease_ExpirationTime (lt_Lease st) - now"
  assumes "\<bar>left\<bar> < maxDuration - Second"
  shows "0 \<le> ConnectionModel_TimeRemaining now st \<and> Second dvd ConnectionModel_TimeRemaining now st \<and>
    \<bar>ConnectionModel_TimeRemaining now st - max 0 left\<bar> \<le> Second"
proof -
  let ?e = "Lease_ExpirationTime (lt_Lease st)"
  have s: "0 < Second" by (simp add: Second_def)
  note n = Time_Round_near [OF s, of now] and e = Time_Round_near [OF s, of ?e]
  have eq: "(Time_Round ?e Second - Time_Round now Second) - left = (Time_Round ?e Second - ?e) - (Time_Round now Second - now)"
    by (simp add: left_def)
  have "\<bar>a - b\<bar> \<le> c" if "2 * \<bar>a\<bar> \<le> c" "2 * \<bar>b\<bar> \<le> c" for a b c :: int using that by arith
  from this [OF e [THEN conjunct2] n [THEN conjunct2]]
  have diff: "\<bar>(Time_Round ?e Second - Time_Round now Second) - left\<bar> \<le> Second" unfolding eq .
  show ?thesis
  proof (cases "Time_Round now Second > Time_Round ?e Second")
    case True
    then have "left \<le> Second" using diff by linarith
    with True less_imp_le [OF s] show ?thesis by (simp add: ConnectionModel_TimeRemaining_def Let_def)
  next
    case False
    have "Time_Sub (Time_Round ?e Second) (Time_Round now Second) = Time_Round ?e Second - Time_Round now Second"
      by (rule Time_Sub_exact) (use False diff assms(2) s in \<open>auto simp: minDuration_def maxDuration_def Second_def\<close>)
    moreover have "Second dvd Time_Round ?e Second - Time_Round now Second" using n e by (blast intro: dvd_diff)
    ultimately show ?thesis using False diff by (simp add: ConnectionModel_TimeRemaining_def Let_def)
  qed
qed

lemma QueuedModel_Value_rows:
  "(\<exists>v. QueuedModel_Value now row col m = Inr v) \<longleftrightarrow> row < RowCount m"
  by (simp add: QueuedModel_Value_def RowCount_def Let_def)

text \<open>
  The model may be updated between a call of \<^verbatim>\<open>RowCount\<close> and one of \<^verbatim>\<open>Value\<close>: a row that was there is
  then out of range.
\<close>

lemma row_can_vanish:
  "row < RowCount m \<Longrightarrow> QueuedModel_Value now row col (QueuedModel_Update (zero_lstate) m) = Inl IndexOutOfRange"
  by (simp add: QueuedModel_Value_def QueuedModel_Update_def zero_lstate_def Let_def)

text \<open>A model that is closed publishes nothing more.\<close>

lemma closed_is_silent:
  assumes "qm_closed m"
  shows "qm_published (QueuedModel_Update st m) = qm_published m" "qm_published (QueuedModel_Refresh m) = qm_published m"
  using assms by (simp_all add: QueuedModel_Update_def QueuedModel_Refresh_def Let_def)

text \<open>How long a lease has been held, and how long until it is available, is text that can be read back.\<close>

lemma Value_durations_parse:
  assumes "QueuedModel_Value now row col m = Inr (Some s)" and "col = 3" and "s \<noteq> ''''"
  shows "\<exists>d. ParseDuration fl s = Some d \<and> row < RowCount m \<and>
    d = Time_Sub (Time_Round now Second) (Time_Round (ls_Started (lt_Leases (qm_state m) ! row)) Second)"
proof -
  have row: "row < RowCount m" using assms(1) QueuedModel_Value_rows by blast
  let ?d = "Time_Sub (Time_Round now Second) (Time_Round (ls_Started (lt_Leases (qm_state m) ! row)) Second)"
  have "s = Duration_String ?d"
    using assms row by (auto simp: QueuedModel_Value_def RowCount_def Let_def split: if_splits)
  moreover have "- (2 ^ 63) \<le> ?d" "?d < 2 ^ 63" by (simp_all add: Time_Sub_def minDuration_def maxDuration_def)
  ultimately show ?thesis using row Duration_roundtrip by blast
qed

end
