(* ===== verification/Dialogs.thy ===== *)
theory Dialogs
  imports ViewModels
begin

text \<open>
  The lease dialogs of \<^verbatim>\<open>src/lease/leaseui/\<close>: the texts of \<^verbatim>\<open>startupdialog_windows.go\<close>,
  \<^verbatim>\<open>queueddialog_windows.go\<close>, \<^verbatim>\<open>connecteddialog_windows.go\<close> and \<^verbatim>\<open>disconnecteddialog_windows.go\<close>, and
  \<^verbatim>\<open>runDialog\<close> of \<^verbatim>\<open>run_windows.go\<close>, in which the thread of the form, the user and a goroutine
  that watches the context take their steps. Widgets and their places belong to the library \<^verbatim>\<open>walk\<close>.
\<close>

section \<open>Texts\<close>

definition StartupDialog_title :: "string \<Rightarrow> string" where
  "StartupDialog_title program = ''Unable to launch '' @ program"

definition StartupDialog_situation :: "string \<Rightarrow> lstate \<Rightarrow> string" where
  "StartupDialog_situation program st =
     Model_ResourceName program st @ '' could not be started because an active lease could not be acquired.''"

text \<open>How an error prints is the argument \<open>print\<close>.\<close>

definition StartupDialog_details :: "(cerr \<Rightarrow> string) \<Rightarrow> lstate \<Rightarrow> string" where
  "StartupDialog_details print st = (case lt_Err st of Some err \<Rightarrow> print err | None \<Rightarrow> '''')"

definition QueuedDialog_title :: "string \<Rightarrow> string" where
  "QueuedDialog_title program = ''Unable to launch '' @ program"

definition QueuedDialog_description :: "string \<Rightarrow> lstate \<Rightarrow> string go" where
  "QueuedDialog_description program st =
     (case QueuedModel_Consumed st of
        Inl panic \<Rightarrow> Inl panic
      | Inr consumed \<Rightarrow> Inr (Model_ResourceName program st @ '' could not be started because '' @ itoa consumed @
          '' of '' @ itoa (ls_Limit (lt_Lease st)) @ '' license(s) are in use.''))"

definition DisconnectedDialog_title :: "string \<Rightarrow> time \<Rightarrow> lstate \<Rightarrow> string" where
  "DisconnectedDialog_title program now st =
     Duration_String (ConnectionModel_TimeRemaining now st) @ '' until lease for '' @ Model_ResourceName program st @ '' expires''"

definition DisconnectedDialog_description :: "string \<Rightarrow> lstate \<Rightarrow> string" where
  "DisconnectedDialog_description program st =
     ''The lease for '' @ Model_ResourceName program st @
     '' could not be renewed. This is probably due to a network or server failure.''"

definition DisconnectedDialog_remaining :: "string \<Rightarrow> time \<Rightarrow> lstate \<Rightarrow> string" where
  "DisconnectedDialog_remaining program now st =
     program @ '' will forcibly be shut down in '' @ Duration_String (ConnectionModel_TimeRemaining now st) @
     '', when its lease expires.''"

definition DisconnectedDialog_warning :: "string \<Rightarrow> string" where
  "DisconnectedDialog_warning program =
     ''Please save your work and close '' @ program @ '' before then, or you may lose your work.''"

text \<open>
  What a disconnected dialog shows: it is set when the dialog is created and again at every refresh of
  its model; an update alone does not redraw it.
\<close>

record disconnecteddialog =
  dd_title :: string
  dd_description :: string
  dd_remaining :: string
  dd_warning :: string

definition NewDisconnectedDialog :: "string \<Rightarrow> time \<Rightarrow> lstate \<Rightarrow> disconnecteddialog" where
  "NewDisconnectedDialog program now st =
     \<lparr>dd_title = DisconnectedDialog_title program now st, dd_description = DisconnectedDialog_description program st,
      dd_remaining = DisconnectedDialog_remaining program now st, dd_warning = DisconnectedDialog_warning program\<rparr>"

definition DisconnectedDialog_refresh :: "string \<Rightarrow> time \<Rightarrow> lstate \<Rightarrow> disconnecteddialog \<Rightarrow> disconnecteddialog" where
  "DisconnectedDialog_refresh program now st dlg =
     dlg\<lparr>dd_title := DisconnectedDialog_title program now st, dd_remaining := DisconnectedDialog_remaining program now st\<rparr>"

section \<open>A dialog and its context\<close>

record dialog =
  dg_ctxDone :: bool
  dg_watcher :: bool
  dg_closing :: bool
  dg_form :: "dlgcmd option"
  dg_returned :: "dlgcmd option"

definition runDialog :: "bool \<Rightarrow> dialog" where
  "runDialog ctxDone =
     (if ctxDone
      then \<lparr>dg_ctxDone = True, dg_watcher = False, dg_closing = False, dg_form = None, dg_returned = Some DlgCmdCancel\<rparr>
      else \<lparr>dg_ctxDone = False, dg_watcher = True, dg_closing = False, dg_form = None, dg_returned = None\<rparr>)"

text \<open>
  \<open>R\<close> holds the results with which the form closes at the wish of the user. A function passed to \<^verbatim>\<open>Synchronize\<close>
  runs on the thread of the form, as long as the form is open.
\<close>

inductive dg_step :: "dlgcmd set \<Rightarrow> dialog \<Rightarrow> dialog \<Rightarrow> bool" for R where
  ctx_done: "\<not> dg_ctxDone d \<Longrightarrow> dg_step R d (d\<lparr>dg_ctxDone := True\<rparr>)"
| user_closes: "dg_form d = None \<Longrightarrow> dg_returned d = None \<Longrightarrow> r \<in> R \<Longrightarrow> dg_step R d (d\<lparr>dg_form := Some r\<rparr>)"
| watcher_cancels: "dg_watcher d \<Longrightarrow> dg_ctxDone d \<Longrightarrow> dg_step R d (d\<lparr>dg_watcher := False, dg_closing := True\<rparr>)"
| close_runs: "dg_closing d \<Longrightarrow> dg_form d = None \<Longrightarrow> dg_returned d = None \<Longrightarrow>
    dg_step R d (d\<lparr>dg_closing := False, dg_form := Some DlgCmdCancel\<rparr>)"
| returns: "dg_form d = Some r \<Longrightarrow> dg_returned d = None \<Longrightarrow> dg_step R d (d\<lparr>dg_returned := Some r\<rparr>)"
| watcher_ends: "dg_watcher d \<Longrightarrow> dg_returned d \<noteq> None \<Longrightarrow> dg_step R d (d\<lparr>dg_watcher := False\<rparr>)"

definition dg_ok :: "dlgcmd set \<Rightarrow> dialog \<Rightarrow> bool" where
  "dg_ok R d \<longleftrightarrow>
     (dg_returned d = None \<and> dg_form d = None \<longrightarrow> dg_watcher d \<or> dg_closing d) \<and>
     (dg_closing d \<longrightarrow> dg_ctxDone d) \<and>
     (\<forall>r. dg_form d = Some r \<or> dg_returned d = Some r \<longrightarrow> r \<in> R \<or> r = DlgCmdCancel \<and> dg_ctxDone d)"

lemma dg_step_ok: "dg_step R d d' \<Longrightarrow> dg_ok R d \<Longrightarrow> dg_ok R d'"
  by (induction rule: dg_step.induct) (auto simp: dg_ok_def)

lemma runDialog_ok: "dg_ok R (runDialog ctxDone)"
  by (simp add: dg_ok_def runDialog_def)

interpretation dialogInv: initial_invariant "dg_step R" "dg_ok R" "runDialog ctxDone" for R ctxDone
  by unfold_locales (rule dg_step_ok, assumption+, rule runDialog_ok)

text \<open>Every step brings the dialog nearer to its end.\<close>

definition dg_left :: "dialog \<Rightarrow> nat" where
  "dg_left d = of_bool (\<not> dg_ctxDone d) + of_bool (dg_form d = None \<and> dg_returned d = None) + 2 * of_bool (dg_watcher d) +
     of_bool (dg_closing d) + of_bool (dg_returned d = None)"

lemma dg_step_left: "dg_step R d d' \<Longrightarrow> dg_left d' < dg_left d"
  by (induction rule: dg_step.induct) (auto simp: dg_left_def)

lemma dialog_ends: "wfP (\<lambda>d' d. dg_step R d d')"
  by (rule wfp_if_convertible_to_nat [where f = dg_left]) (rule dg_step_left)

lemma stuck_dialog_has_returned:
  assumes "dg_ok R d" and "dg_ctxDone d" and "\<nexists>d'. dg_step R d d'"
  shows "dg_returned d \<noteq> None \<and> \<not> dg_watcher d"
proof -
  have "\<not> dg_watcher d" using assms(2,3) dg_step.watcher_cancels [of d R] by blast
  moreover have "dg_returned d \<noteq> None"
    using assms(1,3) calculation dg_step.close_runs [of d R] dg_step.returns [of d _ R]
    by (cases "dg_form d") (auto simp: dg_ok_def)
  ultimately show ?thesis by blast
qed

text \<open>
  So a dialog whose context is cancelled returns, and leaves no goroutine behind; its result is the user's,
  or \<^verbatim>\<open>DlgCmdCancel\<close> after a cancellation.
\<close>

lemma cancelled_dialog_returns:
  assumes "dg_ok R d" and "dg_ctxDone d"
  shows "\<exists>d' r. (dg_step R)\<^sup>*\<^sup>* d d' \<and> dg_returned d' = Some r \<and> \<not> dg_watcher d'"
  using assms
proof (induction d rule: measure_induct_rule [of dg_left])
  case (less d)
  show ?case
  proof (cases "\<exists>d'. dg_step R d d'")
    case True
    then obtain d' where d': "dg_step R d d'" by blast
    then have "dg_ctxDone d'" using less.prems(2) by (cases rule: dg_step.cases) auto
    then show ?thesis
      using less.IH [OF dg_step_left [OF d'] dg_step_ok [OF d' less.prems(1)]] d' by (meson converse_rtranclp_into_rtranclp)
  next
    case False
    then show ?thesis using stuck_dialog_has_returned [OF less.prems] by auto
  qed
qed

lemma dialog_result:
  assumes "(dg_step R)\<^sup>*\<^sup>* (runDialog ctxDone) d" and "dg_returned d = Some r"
  shows "r \<in> R \<or> r = DlgCmdCancel \<and> dg_ctxDone d"
  using dialogInv.reached_ok [OF assms(1)] assms(2) by (auto simp: dg_ok_def)

text \<open>A callback is told that the context was cancelled only when it was, if the user cannot close a form with \<^verbatim>\<open>DlgCmdCancel\<close>.\<close>

lemma context_cancelled_is_true:
  assumes "(dg_step R)\<^sup>*\<^sup>* (runDialog ctxDone) d" and "dg_returned d = Some r" and "call_result r = ContextCancelled"
    and "DlgCmdCancel \<notin> R"
  shows "dg_ctxDone d"
  using dialog_result [OF assms(1,2)] assms(3,4) by (auto simp: call_result_def split: dlgcmd.splits)

text \<open>A refresh shows what a new dialog for the same program and resource would show.\<close>

lemma refresh_shows_the_present:
  assumes "Model_ResourceName program st = Model_ResourceName program st'"
  shows "DisconnectedDialog_refresh program now st' (NewDisconnectedDialog program before st) = NewDisconnectedDialog program now st'"
  using assms by (simp add: DisconnectedDialog_refresh_def NewDisconnectedDialog_def DisconnectedDialog_description_def)

lemma QueuedDialog_description_panics:
  "(\<exists>s. QueuedDialog_description program st = Inr s) \<longleftrightarrow> (\<exists>n. QueuedModel_Consumed st = Inr n)"
  by (simp add: QueuedDialog_description_def split: sum.split)

end
