(* ===== verification/DialogForms.thy ===== *)
theory DialogForms
  imports Dialogs
begin

text \<open>
  The forms of the four lease dialogs of \<^verbatim>\<open>src/lease/leaseui/\<close>, as the trees of widgets that
  \<^verbatim>\<open>NewStartupDialog\<close>, \<^verbatim>\<open>NewQueuedDialog\<close>, \<^verbatim>\<open>NewConnectedDialog\<close> and \<^verbatim>\<open>NewDisconnectedDialog\<close> hand to the
  library \<^verbatim>\<open>walk\<close>: their texts, the places of the widgets on the grid and what their buttons do, with the
  events of the connection model that change a form that is shown. How the library draws them is not
  modelled; a span that is not given, zero, is one cell.
\<close>

section \<open>Widgets\<close>

record place =
  at_Row :: nat
  at_Column :: nat
  at_RowSpan :: nat
  at_ColumnSpan :: nat

definition on_row :: "nat \<Rightarrow> nat \<Rightarrow> nat \<Rightarrow> place" where
  "on_row row col colSpan = \<lparr>at_Row = row, at_Column = col, at_RowSpan = 0, at_ColumnSpan = colSpan\<rparr>"

record tablecolumn =
  tc_Name :: string
  tc_Title :: string
  tc_Width :: nat

datatype widget =
    Label string place
  | TextEdit string bool place
  | VSpacer nat place
  | HSpacer place
  | PushButton string dlgcmd place
  | TableView "tablecolumn list" place
  | Composite nat "widget list" place

record form =
  fm_Title :: string
  fm_MinSize :: "nat \<times> nat"
  fm_MaxSize :: "(nat \<times> nat) option"
  fm_Columns :: nat
  fm_Children :: "widget list"

section \<open>The connection model\<close>

record connectionmodel =
  cm_Program :: string
  cm_state :: lstate

definition NewConnectionModel :: "string \<Rightarrow> lstate \<Rightarrow> connectionmodel" where
  "NewConnectionModel program st = \<lparr>cm_Program = program, cm_state = st\<rparr>"

definition ConnectionModel_ResourceName :: "connectionmodel \<Rightarrow> string" where
  "ConnectionModel_ResourceName m =
     (let name = Lease_ResourceName (lt_Lease (cm_state m)) in if name \<noteq> '''' then name else cm_Program m)"

definition ConnectionModel_Error :: "connectionmodel \<Rightarrow> cerr option" where
  "ConnectionModel_Error m = lt_Err (cm_state m)"

section \<open>The forms\<close>

definition StartupDialog_cause :: string where
  "StartupDialog_cause = ''This is probably due to a network or server failure.''"

definition StartupDialog_outcome :: string where
  "StartupDialog_outcome = ''It will be started automatically once the server can be contacted and a lease has been acquired.''"

definition StartupDialog_detailsCaption :: string where
  "StartupDialog_detailsCaption = ''Error Details:''"

definition NewStartupDialog :: "(cerr \<Rightarrow> string) \<Rightarrow> connectionmodel \<Rightarrow> form" where
  "NewStartupDialog print m =
     \<lparr>fm_Title = StartupDialog_title (cm_Program m), fm_MinSize = (600, 200), fm_MaxSize = Some (600, 200), fm_Columns = 2,
      fm_Children =
        [Label (StartupDialog_situation (cm_Program m) (cm_state m)) (on_row 0 0 2),
         Label StartupDialog_cause (on_row 1 0 2),
         Label StartupDialog_outcome (on_row 2 0 2),
         Composite 2
           [Label StartupDialog_detailsCaption (on_row 0 0 0),
            TextEdit (StartupDialog_details print (cm_state m)) True ((on_row 0 1 0)\<lparr>at_RowSpan := 2\<rparr>),
            VSpacer 0 (on_row 1 0 0)] (on_row 3 0 2),
         VSpacer 0 (on_row 5 0 2),
         HSpacer (on_row 6 0 0),
         PushButton ''Close'' DlgCmdAbort (on_row 6 1 0)]\<rparr>"

definition QueuedDialog_tableCaption :: string where
  "QueuedDialog_tableCaption = ''Here's a list of everyone that's using or waiting for a license right now:''"

definition QueuedDialog_columns :: "tablecolumn list" where
  "QueuedDialog_columns =
     [\<lparr>tc_Name = ''Status'', tc_Title = '''', tc_Width = 60\<rparr>,
      \<lparr>tc_Name = '''', tc_Title = ''User'', tc_Width = 200\<rparr>,
      \<lparr>tc_Name = ''Computer'', tc_Title = '''', tc_Width = 140\<rparr>,
      \<lparr>tc_Name = ''Time'', tc_Title = '''', tc_Width = 50\<rparr>,
      \<lparr>tc_Name = ''Earliest Availability'', tc_Title = '''', tc_Width = 110\<rparr>]"

text \<open>The layout of the queued dialog gives no number of columns.\<close>

definition NewQueuedDialog :: "string \<Rightarrow> queuedmodel \<Rightarrow> form go" where
  "NewQueuedDialog program m =
     (case QueuedDialog_description program (qm_state m) of
        Inl panic \<Rightarrow> Inl panic
      | Inr description \<Rightarrow> Inr
          \<lparr>fm_Title = QueuedDialog_title program, fm_MinSize = (600, 400), fm_MaxSize = None, fm_Columns = 0,
           fm_Children =
             [Label description (on_row 0 0 2),
              VSpacer 1 (on_row 1 0 2),
              Label QueuedDialog_tableCaption (on_row 2 0 2),
              TableView QueuedDialog_columns (on_row 3 0 2),
              HSpacer (on_row 4 0 0),
              PushButton ''Cancel'' DlgCmdAbort (on_row 4 1 0)]\<rparr>)"

definition ConnectedDialog_title :: string where "ConnectedDialog_title = ''Connection Restored''"

definition ConnectedDialog_condition :: string where
  "ConnectedDialog_condition = ''The connection to the server has been restored.''"

definition ConnectedDialog_risk :: string where "ConnectedDialog_risk = ''Your work is no longer at risk.''"

definition NewConnectedDialog :: form where
  "NewConnectedDialog =
     \<lparr>fm_Title = ConnectedDialog_title, fm_MinSize = (500, 200), fm_MaxSize = Some (500, 200), fm_Columns = 2,
      fm_Children =
        [Label ConnectedDialog_condition (on_row 0 0 2),
         Label ConnectedDialog_risk (on_row 1 0 2),
         VSpacer 0 (on_row 3 0 2),
         HSpacer (on_row 4 0 0),
         PushButton ''OK'' DlgCmdAbort (on_row 4 1 0)]\<rparr>"

text \<open>The form of a disconnected dialog that shows the texts \<open>dlg\<close>.\<close>

definition DisconnectedDialog_form :: "disconnecteddialog \<Rightarrow> form" where
  "DisconnectedDialog_form dlg =
     \<lparr>fm_Title = dd_title dlg, fm_MinSize = (500, 200), fm_MaxSize = Some (500, 200), fm_Columns = 2,
      fm_Children =
        [Label (dd_description dlg) (on_row 0 0 2),
         Label (dd_remaining dlg) (on_row 1 0 2),
         Label (dd_warning dlg) (on_row 2 0 2),
         VSpacer 0 (on_row 3 0 2),
         HSpacer (on_row 4 0 0),
         PushButton ''Ignore'' DlgCmdAbort (on_row 4 1 0)]\<rparr>"

section \<open>Events\<close>

text \<open>The startup dialog listens to updates of its model and sets the text of its details box.\<close>

fun set_text :: "string \<Rightarrow> widget \<Rightarrow> widget" where
  "set_text s (TextEdit _ readOnly p) = TextEdit s readOnly p"
| "set_text s (Composite columns ws p) = Composite columns (map (set_text s) ws) p"
| "set_text s w = w"

definition StartupDialog_updated :: "(cerr \<Rightarrow> string) \<Rightarrow> connectionmodel \<Rightarrow> form \<Rightarrow> form" where
  "StartupDialog_updated print m f =
     f\<lparr>fm_Children := map (set_text (StartupDialog_details print (cm_state m))) (fm_Children f)\<rparr>"

text \<open>\<^verbatim>\<open>Update\<close> of the model publishes the event, and with it the startup dialog is redrawn.\<close>

definition ConnectionModel_Update :: "(cerr \<Rightarrow> string) \<Rightarrow> lstate \<Rightarrow> connectionmodel \<times> form \<Rightarrow> connectionmodel \<times> form" where
  "ConnectionModel_Update print st shown =
     (let (m, f) = shown; m = m\<lparr>cm_state := st\<rparr> in (m, StartupDialog_updated print m f))"

section \<open>The grid\<close>

fun widget_place :: "widget \<Rightarrow> place" where
  "widget_place (Label _ p) = p"
| "widget_place (TextEdit _ _ p) = p"
| "widget_place (VSpacer _ p) = p"
| "widget_place (HSpacer p) = p"
| "widget_place (PushButton _ _ p) = p"
| "widget_place (TableView _ p) = p"
| "widget_place (Composite _ _ p) = p"

definition cells :: "place \<Rightarrow> (nat \<times> nat) list" where
  "cells p = List.product [at_Row p..<at_Row p + max 1 (at_RowSpan p)] [at_Column p..<at_Column p + max 1 (at_ColumnSpan p)]"

definition grid_ok :: "nat \<Rightarrow> widget list \<Rightarrow> bool" where
  "grid_ok columns ws \<longleftrightarrow>
     (let cs = concat (map (cells \<circ> widget_place) ws) in distinct cs \<and> (0 < columns \<longrightarrow> list_all (\<lambda>(r, c). c < columns) cs))"

fun widget_ok :: "widget \<Rightarrow> bool" where
  "widget_ok (Composite columns ws p) \<longleftrightarrow> grid_ok columns ws \<and> list_all widget_ok ws"
| "widget_ok w \<longleftrightarrow> True"

definition form_ok :: "form \<Rightarrow> bool" where
  "form_ok f \<longleftrightarrow> grid_ok (fm_Columns f) (fm_Children f) \<and> list_all widget_ok (fm_Children f)"

text \<open>The results a user can bring about: those of the buttons, and \<^verbatim>\<open>DlgCmdNone\<close> by closing the window.\<close>

fun widget_results :: "widget \<Rightarrow> dlgcmd list" where
  "widget_results (PushButton _ r _) = [r]"
| "widget_results (Composite _ ws _) = concat (map widget_results ws)"
| "widget_results w = []"

definition form_results :: "form \<Rightarrow> dlgcmd set" where
  "form_results f = insert DlgCmdNone (set (concat (map widget_results (fm_Children f))))"

section \<open>Facts about the forms\<close>

lemma cells_on_row [simp]:
  "cells (on_row r c 0) = [(r, c)]" "cells (on_row r c 2) = [(r, c), (r, Suc c)]"
  "cells ((on_row r c 0)\<lparr>at_RowSpan := 2\<rparr>) = [(r, c), (Suc r, c)]"
  by (simp_all add: cells_def on_row_def numeral_2_eq_2)

lemmas layout_defs = form_ok_def grid_ok_def list_all_def

lemma forms_ok:
  "form_ok (NewStartupDialog print m)" "NewQueuedDialog program q = Inr f \<Longrightarrow> form_ok f"
  "form_ok NewConnectedDialog" "form_ok (DisconnectedDialog_form dlg)"
  by (auto simp: layout_defs NewStartupDialog_def NewQueuedDialog_def NewConnectedDialog_def DisconnectedDialog_form_def split: sum.splits)

lemma forms_results:
  "form_results (NewStartupDialog print m) = {DlgCmdNone, DlgCmdAbort}"
  "NewQueuedDialog program q = Inr f \<Longrightarrow> form_results f = {DlgCmdNone, DlgCmdAbort}"
  "form_results NewConnectedDialog = {DlgCmdNone, DlgCmdAbort}"
  "form_results (DisconnectedDialog_form dlg) = {DlgCmdNone, DlgCmdAbort}"
  by (auto simp: form_results_def NewStartupDialog_def NewQueuedDialog_def NewConnectedDialog_def DisconnectedDialog_form_def split: sum.splits)

text \<open>
  So for each of the four forms, the callback hears that the context was cancelled only when it was, and never of a
  success: the user closed the dialog or cancelled it.
\<close>

lemma form_outcome:
  assumes "R = {DlgCmdNone, DlgCmdAbort}" and "(dg_step R)\<^sup>*\<^sup>* (runDialog ctxDone) d" and "dg_returned d = Some r"
  shows "call_result r \<in> {UserClosed, UserCancelled, ContextCancelled} \<and> (call_result r = ContextCancelled \<longrightarrow> dg_ctxDone d)"
  using dialog_result [OF assms(2,3)] assms(1) by (auto simp: call_result_def)

text \<open>Every column of the queued dialog has a value in every row.\<close>

lemma queued_columns_have_values:
  assumes "row < RowCount q" and "col < length QueuedDialog_columns"
  shows "\<exists>s. QueuedModel_Value now row col q = Inr (Some s)"
  using assms by (auto simp: QueuedDialog_columns_def QueuedModel_Value_def RowCount_def Let_def numeral_eq_Suc less_Suc_eq)

text \<open>An updated startup dialog shows what a new one would show, for the same resource.\<close>

lemma ConnectionModel_ResourceName_eq: "ConnectionModel_ResourceName m = Model_ResourceName (cm_Program m) (cm_state m)"
  by (simp add: ConnectionModel_ResourceName_def Model_ResourceName_def)

lemma startup_update_shows_the_present:
  assumes "ConnectionModel_ResourceName (m\<lparr>cm_state := st\<rparr>) = ConnectionModel_ResourceName m"
  shows "ConnectionModel_Update print st (m, NewStartupDialog print m) =
    (m\<lparr>cm_state := st\<rparr>, NewStartupDialog print (m\<lparr>cm_state := st\<rparr>))"
  using assms
  by (simp add: ConnectionModel_Update_def StartupDialog_updated_def NewStartupDialog_def StartupDialog_situation_def
      ConnectionModel_ResourceName_eq)

text \<open>The refreshed disconnected dialog keeps its form, with the new texts.\<close>

lemma disconnected_refresh_form:
  assumes "Model_ResourceName program st = Model_ResourceName program st'"
  shows "DisconnectedDialog_form (DisconnectedDialog_refresh program now st' (NewDisconnectedDialog program before st)) =
    DisconnectedDialog_form (NewDisconnectedDialog program now st')"
  using refresh_shows_the_present [OF assms] by simp

end
