(* ===== verification/TrayRun.thy ===== *)
theory TrayRun
  imports Sessions
begin

text \<open>
  The threads of the system tray, \<^verbatim>\<open>src/enforcerui/tray.go\<close>: the thread of the window that \<^verbatim>\<open>run\<close> starts, the
  goroutine \<^verbatim>\<open>manage\<close> that serves the channels, and their end. \<open>Sessions\<close> has the tray as its users see it, in
  which a state taken from the channel is shown at once; here it passes through the functions that
  \<^verbatim>\<open>Synchronize\<close> hands to the thread of the window, and this detailed tray is shown to refine the other.
\<close>

section \<open>The objects of the library\<close>

datatype trayobject = MainWindow | NotifyIcon

text \<open>What the calls of \<^verbatim>\<open>walk\<close> answer; the first component of a result is the list of objects still alive.\<close>

record trayenv =
  te_NewMainWindow :: "goerror option"
  te_NewNotifyIcon :: "goerror option"
  te_SetIcon :: "goerror option"
  te_SetVisible :: "goerror option"

definition Dispose :: "trayobject \<Rightarrow> trayobject list \<Rightarrow> trayobject list" where
  "Dispose ob live = remove1 ob live"

definition createNotifyIcon :: "trayenv \<Rightarrow> trayobject list \<Rightarrow> trayobject list \<times> goerror option" where
  "createNotifyIcon te live =
     (case te_NewNotifyIcon te of
        Some err \<Rightarrow> (live, Some (''creation failed: '' @ err))
      | None \<Rightarrow>
          let live = NotifyIcon # live in
          case te_SetIcon te of
            Some err \<Rightarrow> (Dispose NotifyIcon live, Some (''unable to set icon: '' @ err))
          | None \<Rightarrow>
              (case te_SetVisible te of
                 Some err \<Rightarrow> (Dispose NotifyIcon live, Some (''unable to make the system tray visible: '' @ err))
               | None \<Rightarrow> (live, None)))"

definition createSystemTray :: "trayenv \<Rightarrow> trayobject list \<Rightarrow> trayobject list \<times> goerror option" where
  "createSystemTray te live =
     (case te_NewMainWindow te of
        Some err \<Rightarrow> (live, Some (''failed to create window: '' @ err))
      | None \<Rightarrow>
          (case createNotifyIcon te (MainWindow # live) of
             (live, Some err) \<Rightarrow> (Dispose MainWindow live, Some (''failed to create system tray: '' @ err))
           | (live, None) \<Rightarrow> (live, None)))"

section \<open>The threads\<close>

datatype syncfun = ShowState uistate | ShowNotice notice | CloseWindow

datatype windowphase = WindowLoop | LoopEnded | SendingResult | WindowGone

datatype managephase = Managing | AwaitingCompletion | ManageReturned

text \<open>\<open>tw_sync\<close> holds the functions given to \<^verbatim>\<open>Synchronize\<close> that have not run yet, in their order.\<close>

record traywin =
  tw_tray :: tray
  tw_sync :: "syncfun list"
  tw_cancelled :: bool
  tw_window :: windowphase
  tw_manage :: managephase

definition apply_synced :: "string \<Rightarrow> string \<Rightarrow> syncfun \<Rightarrow> tray \<Rightarrow> tray" where
  "apply_synced name version f t =
     (case f of
        ShowState s \<Rightarrow> t\<lparr>tr_tooltip := State_Summary s, tr_menu := Tray_menu name version s\<rparr>
      | ShowNotice n \<Rightarrow> t\<lparr>tr_shown := tr_shown t @ [n]\<rparr>
      | CloseWindow \<Rightarrow> t)"

text \<open>
  \<^verbatim>\<open>Start\<close>, which returns once the window exists. When the tray cannot be created, \<^verbatim>\<open>Start\<close> returns
  the error, but \<^verbatim>\<open>run\<close> goes on without a window, to send on a channel it has closed.
\<close>

datatype traystart = TrayStarted traywin | TrayFailed goerror | TrayCrashes goerror

definition Tray_begin :: "trayenv \<Rightarrow> tray \<Rightarrow> traystart" where
  "Tray_begin te t =
     (if tr_open t then TrayFailed ''the tray instance is already running''
      else case snd (createSystemTray te []) of
        Some err \<Rightarrow> TrayCrashes err
      | None \<Rightarrow> TrayStarted \<lparr>tw_tray = fst (Tray_Start None t), tw_sync = [], tw_cancelled = False,
          tw_window = WindowLoop, tw_manage = Managing\<rparr>)"

text \<open>
  \<^verbatim>\<open>Stop\<close> reads the fields under the mutex and then one of them again without it: \<open>held\<close> is what was
  read first. The result is the error, or \<open>None\<close> when the context is cancelled and the caller waits.
\<close>

definition Tray_Stop_call :: "bool \<Rightarrow> traywin \<Rightarrow> (traywin \<times> goerror option) go" where
  "Tray_Stop_call held w =
     (if \<not> tr_open (tw_tray w) then Inr (w, Some ''the tray instance is not running'')
      else if \<not> held then Inl (Panic ''invalid memory address or nil pointer dereference'')
      else Inr (w\<lparr>tw_cancelled := True\<rparr>, None))"

text \<open>A channel that is closed and empty delivers the zero value.\<close>

definition receive :: "bool \<Rightarrow> 'a \<Rightarrow> 'a list \<Rightarrow> ('a \<times> 'a list) option" where
  "receive opened zero q = (case q of x # rest \<Rightarrow> Some (x, rest) | [] \<Rightarrow> if opened then None else Some (zero, []))"

definition zero_uistate :: uistate where
  "zero_uistate = \<lparr>us_Policies = [], us_Leases = [], us_Running = []\<rparr>"

definition zero_notice :: notice where
  "zero_notice = \<lparr>no_Title = '''', no_Message = ''''\<rparr>"

definition manage_state :: "traywin \<Rightarrow> traywin option" where
  "manage_state w =
     (case receive (tr_open (tw_tray w)) zero_uistate (tr_states (tw_tray w)) of
        None \<Rightarrow> None
      | Some (s, rest) \<Rightarrow> Some (w\<lparr>tw_tray := (tw_tray w)\<lparr>tr_states := rest\<rparr>, tw_sync := tw_sync w @ [ShowState s]\<rparr>))"

definition manage_notice :: "traywin \<Rightarrow> traywin option" where
  "manage_notice w =
     (case receive (tr_open (tw_tray w)) zero_notice (tr_notices (tw_tray w)) of
        None \<Rightarrow> None
      | Some (n, rest) \<Rightarrow> Some (w\<lparr>tw_tray := (tw_tray w)\<lparr>tr_notices := rest\<rparr>, tw_sync := tw_sync w @ [ShowNotice n]\<rparr>))"

definition window_sync :: "string \<Rightarrow> string \<Rightarrow> traywin \<Rightarrow> traywin option" where
  "window_sync name version w =
     (case tw_sync w of
        [] \<Rightarrow> None
      | f # rest \<Rightarrow> Some (w\<lparr>tw_tray := apply_synced name version f (tw_tray w), tw_sync := rest,
          tw_window := (if f = CloseWindow then LoopEnded else tw_window w)\<rparr>))"

text \<open>The steps of the two threads, and those of the rest of the world: calls of the tray, and a window that ends.\<close>

inductive tw_work :: "string \<Rightarrow> string \<Rightarrow> traywin \<Rightarrow> traywin \<Rightarrow> bool" for name version where
  state: "tw_manage w = Managing \<Longrightarrow> manage_state w = Some w' \<Longrightarrow> tw_work name version w w'"
| notice: "tw_manage w = Managing \<Longrightarrow> manage_notice w = Some w' \<Longrightarrow> tw_work name version w w'"
| cancel: "tw_manage w = Managing \<Longrightarrow> tw_cancelled w \<Longrightarrow>
    tw_work name version w (w\<lparr>tw_sync := tw_sync w @ [CloseWindow], tw_manage := AwaitingCompletion\<rparr>)"
| sync: "tw_window w = WindowLoop \<Longrightarrow> window_sync name version w = Some w' \<Longrightarrow> tw_work name version w w'"
| reset: "tw_window w = LoopEnded \<Longrightarrow>
    tw_work name version w (w\<lparr>tw_tray := (tw_tray w)\<lparr>tr_open := False\<rparr>, tw_window := SendingResult\<rparr>)"
| complete: "tw_window w = SendingResult \<Longrightarrow> tw_manage w \<noteq> ManageReturned \<Longrightarrow>
    tw_work name version w (w\<lparr>tw_window := WindowGone, tw_manage := ManageReturned\<rparr>)"

inductive tw_step :: "string \<Rightarrow> string \<Rightarrow> traywin \<Rightarrow> traywin \<Rightarrow> bool" for name version where
  work: "tw_work name version w w' \<Longrightarrow> tw_step name version w w'"
| update: "tw_step name version w (w\<lparr>tw_tray := Tray_Update s (tw_tray w)\<rparr>)"
| notify: "tw_step name version w (w\<lparr>tw_tray := Tray_Notify n (tw_tray w)\<rparr>)"
| stop: "Tray_Stop_call True w = Inr (w', None) \<Longrightarrow> tw_step name version w w'"
| quit: "tw_window w = WindowLoop \<Longrightarrow> tw_step name version w (w\<lparr>tw_window := LoopEnded\<rparr>)"

section \<open>The invariant\<close>

definition tw_ok :: "traywin \<Rightarrow> bool" where
  "tw_ok w \<longleftrightarrow>
     (tr_open (tw_tray w) \<longleftrightarrow> tw_window w = WindowLoop \<or> tw_window w = LoopEnded) \<and>
     (tw_window w = WindowGone \<longleftrightarrow> tw_manage w = ManageReturned) \<and>
     (tw_manage w = Managing \<longrightarrow> CloseWindow \<notin> set (tw_sync w)) \<and>
     (tw_manage w = AwaitingCompletion \<and> tw_window w = WindowLoop \<longrightarrow> CloseWindow \<in> set (tw_sync w)) \<and>
     length (tr_states (tw_tray w)) \<le> trayBuffer \<and> length (tr_notices (tw_tray w)) \<le> trayBuffer"

lemma tray_operations [simp]:
  "tr_open (Tray_Update s t) = tr_open t" "tr_open (Tray_Notify n t) = tr_open t"
  "tr_open (apply_synced name version f t) = tr_open t"
  "tr_states (apply_synced name version f t) = tr_states t" "tr_notices (apply_synced name version f t) = tr_notices t"
  "tr_notices (Tray_Update s t) = tr_notices t" "tr_states (Tray_Notify n t) = tr_states t"
  by (simp_all add: Tray_Update_def Tray_Notify_def apply_synced_def split: syncfun.split)

lemma tray_buffers:
  "length (tr_states t) \<le> trayBuffer \<Longrightarrow> length (tr_states (Tray_Update s t)) \<le> trayBuffer"
  "length (tr_notices t) \<le> trayBuffer \<Longrightarrow> length (tr_notices (Tray_Notify n t)) \<le> trayBuffer"
  by (simp_all add: Tray_Update_def Tray_Notify_def)

lemma receive_length: "receive b z q = Some (x, rest) \<Longrightarrow> length rest \<le> length q"
  by (auto simp: receive_def split: list.splits if_splits)

lemma tw_work_ok: "tw_work name version w w' \<Longrightarrow> tw_ok w \<Longrightarrow> tw_ok w'"
proof (induction rule: tw_work.induct)
  case (state w w')
  then show ?case by (auto simp: tw_ok_def manage_state_def dest!: receive_length split: option.splits)
next
  case (notice w w')
  then show ?case by (auto simp: tw_ok_def manage_notice_def dest!: receive_length split: option.splits)
next
  case (sync w w')
  then show ?case by (auto simp: tw_ok_def window_sync_def split: list.splits if_splits)
qed (auto simp: tw_ok_def)

lemma tw_step_ok: "tw_step name version w w' \<Longrightarrow> tw_ok w \<Longrightarrow> tw_ok w'"
proof (induction rule: tw_step.induct)
  case (work w w')
  then show ?case by (rule tw_work_ok)
qed (auto simp: tw_ok_def tray_buffers Tray_Stop_call_def split: if_splits)

interpretation trayInv: inductive_invariant "tw_step name version" tw_ok for name version
  by unfold_locales (rule tw_step_ok)

lemma Tray_begin_ok: "Tray_begin te t = TrayStarted w \<Longrightarrow> tw_ok w"
  by (auto simp: Tray_begin_def Tray_Start_def tw_ok_def split: if_splits option.splits)

section \<open>Closing the tray\<close>

text \<open>
  A caller of \<^verbatim>\<open>Stop\<close> does not wait for ever: the functions before the one that closes the window run, the
  window ends, and \<^verbatim>\<open>manage\<close> returns, after the fields of the tray have been reset.
\<close>

lemma sync_reaches_close:
  assumes "tw_window w = WindowLoop" and "CloseWindow \<in> set (tw_sync w)"
  shows "\<exists>w'. (tw_work name version)\<^sup>*\<^sup>* w w' \<and> tw_window w' = LoopEnded \<and> tw_manage w' = tw_manage w"
  using assms
proof (induction "tw_sync w" arbitrary: w)
  case (Cons f rest)
  let ?w = "w\<lparr>tw_tray := apply_synced name version f (tw_tray w), tw_sync := rest,
    tw_window := (if f = CloseWindow then LoopEnded else tw_window w)\<rparr>"
  have step: "tw_work name version w ?w"
    by (rule tw_work.sync [OF Cons.prems(1)]) (simp add: window_sync_def Cons.hyps(2) [symmetric])
  show ?case
  proof (cases "f = CloseWindow")
    case True
    then show ?thesis using step by (intro exI [of _ ?w]) auto
  next
    case False
    then have "\<exists>w'. (tw_work name version)\<^sup>*\<^sup>* ?w w' \<and> tw_window w' = LoopEnded \<and> tw_manage w' = tw_manage ?w"
      using Cons.prems by (intro Cons.hyps(1)) (auto simp: Cons.hyps(2) [symmetric])
    then show ?thesis using step by (auto intro: converse_rtranclp_into_rtranclp)
  qed
qed simp

lemma ended_window_completes:
  assumes "tw_window w \<noteq> WindowLoop" and "tw_window w = WindowGone \<longleftrightarrow> tw_manage w = ManageReturned"
  shows "\<exists>w'. (tw_work name version)\<^sup>*\<^sup>* w w' \<and> tw_manage w' = ManageReturned"
proof -
  have sending: "\<exists>w'. (tw_work name version)\<^sup>*\<^sup>* v w' \<and> tw_manage w' = ManageReturned"
    if "tw_window v = SendingResult" "tw_manage v \<noteq> ManageReturned" for v
    by (intro exI conjI, rule r_into_rtranclp, rule tw_work.complete [OF that]) simp
  show ?thesis
  proof (cases "tw_window w")
    case LoopEnded
    then have "\<exists>w'. (tw_work name version)\<^sup>*\<^sup>* (w\<lparr>tw_tray := (tw_tray w)\<lparr>tr_open := False\<rparr>, tw_window := SendingResult\<rparr>) w' \<and>
        tw_manage w' = ManageReturned"
      using assms(2) by (intro sending) auto
    then show ?thesis using tw_work.reset [OF LoopEnded, of name version] by (meson converse_rtranclp_into_rtranclp)
  qed (use assms sending in auto)
qed

lemma tray_can_stop:
  assumes "tw_ok w" and "tw_cancelled w"
  shows "\<exists>w'. (tw_work name version)\<^sup>*\<^sup>* w w' \<and> tw_manage w' = ManageReturned \<and> \<not> tr_open (tw_tray w')"
proof -
  have manage: "\<exists>v. (tw_work name version)\<^sup>*\<^sup>* w v \<and> tw_ok v \<and> tw_manage v \<noteq> Managing"
  proof (cases "tw_manage w = Managing")
    case True
    from tw_work.cancel [OF this assms(2), of name version] show ?thesis
      using tw_work_ok [OF _ assms(1)] by (intro exI conjI r_into_rtranclp) auto
  qed (use assms in auto)
  then obtain v where v: "(tw_work name version)\<^sup>*\<^sup>* w v" "tw_ok v" "tw_manage v \<noteq> Managing" by blast
  have "\<exists>u. (tw_work name version)\<^sup>*\<^sup>* v u \<and> tw_window u \<noteq> WindowLoop"
  proof (cases "tw_window v = WindowLoop")
    case True
    with v(2,3) have "CloseWindow \<in> set (tw_sync v)" by (cases "tw_manage v") (auto simp: tw_ok_def)
    from sync_reaches_close [OF True this, of name version] show ?thesis by auto
  qed auto
  then obtain u where u: "(tw_work name version)\<^sup>*\<^sup>* v u" "tw_window u \<noteq> WindowLoop" by blast
  have keep: "tw_ok y" if "(tw_work name version)\<^sup>*\<^sup>* x y" "tw_ok x" for x y
    using that by (induction rule: rtranclp_induct) (auto dest: tw_work_ok)
  have "tw_ok u" using keep [OF u(1) v(2)] .
  then obtain w' where w': "(tw_work name version)\<^sup>*\<^sup>* u w'" "tw_manage w' = ManageReturned"
    using ended_window_completes [OF u(2), of name version] by (auto simp: tw_ok_def)
  moreover have "\<not> tr_open (tw_tray w')" using keep [OF w'(1) \<open>tw_ok u\<close>] w'(2) by (auto simp: tw_ok_def)
  ultimately show ?thesis using v(1) u(1) by (meson rtranclp_trans)
qed

section \<open>The detailed tray refines the simple one\<close>

inductive tray_step :: "string \<Rightarrow> string \<Rightarrow> tray \<Rightarrow> tray \<Rightarrow> bool" for name version where
  "tray_step name version t (Tray_Update s t)"
| "tray_step name version t (Tray_Notify n t)"
| "Tray_manage_state name version t = Some t' \<Longrightarrow> tray_step name version t t'"
| "Tray_manage_notice t = Some t' \<Longrightarrow> tray_step name version t t'"

text \<open>What the tray shows once the functions under way have run.\<close>

definition tw_abs :: "string \<Rightarrow> string \<Rightarrow> traywin \<Rightarrow> tray" where
  "tw_abs name version w = foldl (\<lambda>t f. apply_synced name version f t) (tw_tray w) (tw_sync w)"

lemma apply_synced_simps:
  "apply_synced name version (ShowState s) t = t\<lparr>tr_tooltip := State_Summary s, tr_menu := Tray_menu name version s\<rparr>"
  "apply_synced name version (ShowNotice n) t = t\<lparr>tr_shown := tr_shown t @ [n]\<rparr>"
  "apply_synced name version CloseWindow t = t"
  by (simp_all add: apply_synced_def)

lemma apply_synced_commutes:
  "apply_synced name version f (Tray_Update s t) = Tray_Update s (apply_synced name version f t)"
  "apply_synced name version f (Tray_Notify n t) = Tray_Notify n (apply_synced name version f t)"
  "apply_synced name version f (t\<lparr>tr_states := q\<rparr>) = (apply_synced name version f t)\<lparr>tr_states := q\<rparr>"
  "apply_synced name version f (t\<lparr>tr_notices := r\<rparr>) = (apply_synced name version f t)\<lparr>tr_notices := r\<rparr>"
  by (simp_all add: apply_synced_def Tray_Update_def Tray_Notify_def split: syncfun.split)

lemma foldl_commutes: "(\<And>t f. g f (h t) = h (g f t)) \<Longrightarrow> foldl (\<lambda>t f. g f t) (h t) fs = h (foldl (\<lambda>t f. g f t) t fs)"
  by (induction fs arbitrary: t) simp_all

lemma tw_abs_commutes:
  "tw_abs name version (w\<lparr>tw_tray := Tray_Update s (tw_tray w)\<rparr>) = Tray_Update s (tw_abs name version w)"
  "tw_abs name version (w\<lparr>tw_tray := Tray_Notify n (tw_tray w)\<rparr>) = Tray_Notify n (tw_abs name version w)"
  "foldl (\<lambda>t f. apply_synced name version f t) (tw_tray w\<lparr>tr_states := q\<rparr>) fs =
    foldl (\<lambda>t f. apply_synced name version f t) (tw_tray w) fs\<lparr>tr_states := q\<rparr>"
  "foldl (\<lambda>t f. apply_synced name version f t) (tw_tray w\<lparr>tr_notices := r\<rparr>) fs =
    foldl (\<lambda>t f. apply_synced name version f t) (tw_tray w) fs\<lparr>tr_notices := r\<rparr>"
  by (simp_all add: tw_abs_def foldl_commutes apply_synced_commutes)

lemma tw_abs_channels [simp]:
  "tr_states (foldl (\<lambda>t f. apply_synced name version f t) t fs) = tr_states t"
  "tr_notices (foldl (\<lambda>t f. apply_synced name version f t) t fs) = tr_notices t"
  by (induction fs arbitrary: t) simp_all

lemma tw_work_refines:
  assumes "tw_work name version w w'" and "tw_ok w" and "tw_window w' = WindowLoop"
  shows "(tray_step name version)\<^sup>=\<^sup>= (tw_abs name version w) (tw_abs name version w')"
  using assms
proof (cases rule: tw_work.cases)
  case state
  with assms(2,3) have "tr_open (tw_tray w)" by (auto simp: tw_ok_def manage_state_def split: option.splits)
  with state have "Tray_manage_state name version (tw_abs name version w) = Some (tw_abs name version w')"
    by (auto simp: manage_state_def receive_def Tray_manage_state_def tw_abs_def tw_abs_commutes apply_synced_simps split: list.splits)
  then show ?thesis by (auto intro: tray_step.intros)
next
  case notice
  with assms(2,3) have "tr_open (tw_tray w)" by (auto simp: tw_ok_def manage_notice_def split: option.splits)
  with notice have "Tray_manage_notice (tw_abs name version w) = Some (tw_abs name version w')"
    by (auto simp: manage_notice_def receive_def Tray_manage_notice_def tw_abs_def tw_abs_commutes apply_synced_simps split: list.splits)
  then show ?thesis by (auto intro: tray_step.intros)
qed (use assms(3) in \<open>auto simp: tw_abs_def window_sync_def apply_synced_simps split: list.splits if_splits\<close>)

lemma tw_step_refines:
  assumes "tw_step name version w w'" and "tw_ok w" and "tw_window w' = WindowLoop"
  shows "(tray_step name version)\<^sup>=\<^sup>= (tw_abs name version w) (tw_abs name version w')"
  using assms
proof (cases rule: tw_step.cases)
  case work
  then show ?thesis using tw_work_refines assms by blast
next
  case (stop)
  then show ?thesis by (auto simp: Tray_Stop_call_def tw_abs_def split: if_splits)
qed (auto simp: tw_abs_commutes intro: tray_step.intros)

text \<open>The loop of the window, once ended, does not start again.\<close>

lemma window_loop_before: "tw_step name version w w' \<Longrightarrow> tw_window w' = WindowLoop \<Longrightarrow> tw_window w = WindowLoop"
  by (auto elim!: tw_step.cases tw_work.cases
    simp: manage_state_def manage_notice_def window_sync_def Tray_Stop_call_def split: option.splits list.splits if_splits)

lemma tray_refines:
  assumes "(tw_step name version)\<^sup>*\<^sup>* w w'" and "tw_ok w" and "tw_window w' = WindowLoop"
  shows "(tray_step name version)\<^sup>*\<^sup>* (tw_abs name version w) (tw_abs name version w')"
  using assms(1,3)
proof (induction rule: rtranclp_induct)
  case (step y z)
  then have "tw_window y = WindowLoop" using window_loop_before by blast
  with step have "(tray_step name version)\<^sup>*\<^sup>* (tw_abs name version w) (tw_abs name version y)" by blast
  moreover have "(tray_step name version)\<^sup>=\<^sup>= (tw_abs name version y) (tw_abs name version z)"
    using tw_step_refines [OF step.hyps(2) trayInv.run_keeps [OF step.hyps(1) assms(2)] step.prems] .
  ultimately show ?case by (auto intro: rtranclp.rtrancl_into_rtrancl)
qed simp

section \<open>Errors\<close>

text \<open>A tray that cannot be created leaves no object of the library behind; one that can be has both.\<close>

lemma createSystemTray_objects:
  "createSystemTray te live = (live', err) \<Longrightarrow> live' = (if err = None then [NotifyIcon, MainWindow] @ live else live)"
  by (auto simp: createSystemTray_def createNotifyIcon_def Dispose_def Let_def split: option.splits)

text \<open>An end of the channels does not end \<^verbatim>\<open>manage\<close>: it takes the zero state from them, any number of times.\<close>

lemma closed_channel_delivers_zero:
  assumes "tw_manage w = Managing" and "\<not> tr_open (tw_tray w)" and "tr_states (tw_tray w) = []"
  shows "tw_work name version w (w\<lparr>tw_sync := tw_sync w @ [ShowState zero_uistate]\<rparr>)"
proof (rule tw_work.state [OF assms(1)])
  have "(tw_tray w)\<lparr>tr_states := []\<rparr> = tw_tray w" using assms(3) by (cases "tw_tray w") simp
  moreover have "w\<lparr>tw_tray := tw_tray w, tw_sync := q\<rparr> = w\<lparr>tw_sync := q\<rparr>" for q by (cases w) simp
  ultimately show "manage_state w = Some (w\<lparr>tw_sync := tw_sync w @ [ShowState zero_uistate]\<rparr>)"
    by (simp add: manage_state_def receive_def assms(2,3))
qed

end
