(* ===== verification/Progress.thy ===== *)
theory Progress
  imports Prelude
begin

text \<open>
  Two contracts shared by the threads of the clients. A system can wind down when, in every state that keeps
  its invariant and is not final, one of its own threads has a step towards the end, by a measure. A detailed
  step relation refines an abstract one when every step is zero or more steps there.
\<close>

locale winding_down =
  fixes work :: "'s \<Rightarrow> 's \<Rightarrow> bool" and ok :: "'s \<Rightarrow> bool" and final :: "'s \<Rightarrow> bool" and left :: "'s \<Rightarrow> nat"
  assumes work_keeps: "work s s' \<Longrightarrow> ok s \<Longrightarrow> ok s'"
    and progress: "ok s \<Longrightarrow> \<not> final s \<Longrightarrow> \<exists>s'. work s s' \<and> left s' < left s"
begin

lemma reaches_final: "ok s \<Longrightarrow> \<exists>s'. work\<^sup>*\<^sup>* s s' \<and> ok s' \<and> final s'"
proof (induction s rule: measure_induct_rule [of left])
  case (less s)
  show ?case
  proof (cases "final s")
    case False
    from progress [OF less.prems False] obtain s' where s': "work s s'" "left s' < left s" by blast
    from less.IH [OF s'(2) work_keeps [OF s'(1) less.prems]] s'(1) show ?thesis
      by (meson converse_rtranclp_into_rtranclp)
  qed (use less.prems in blast)
qed

lemma stuck_is_final: "ok s \<Longrightarrow> \<nexists>s'. work s s' \<Longrightarrow> final s"
  using progress by blast

end

locale step_refinement = inductive_invariant step ok
  for step :: "'s \<Rightarrow> 's \<Rightarrow> bool" and ok :: "'s \<Rightarrow> bool" +
  fixes spec :: "'a \<Rightarrow> 'a \<Rightarrow> bool" and view :: "'s \<Rightarrow> 'a"
  assumes step_refines: "step s s' \<Longrightarrow> ok s \<Longrightarrow> spec\<^sup>*\<^sup>* (view s) (view s')"
begin

lemma run_refines: "step\<^sup>*\<^sup>* s s' \<Longrightarrow> ok s \<Longrightarrow> spec\<^sup>*\<^sup>* (view s) (view s')"
proof (induction rule: rtranclp_induct)
  case (step y z)
  with run_keeps step_refines [of y z] show ?case by (meson rtranclp_trans)
qed simp

end

end
