(* ===== verification/InvocationRun.thy ===== *)
theory InvocationRun
  imports Enforcer Progress
begin

text \<open>
  The threads around an invocation, \<^verbatim>\<open>src/enforcer/invocation_windows.go\<close>: the caller of \<^verbatim>\<open>Absorb\<close> and
  \<^verbatim>\<open>Stop\<close>, which holds the mutex of the invocation until it returns (the process manager is the only
  one), the goroutine \<^verbatim>\<open>manage\<close>, the goroutine of its lease maintainer with the channel of states between
  them, and the goroutine that releases and closes the maintainer in the end. \<open>Enforcer\<close> has what the loops
  of \<^verbatim>\<open>manage\<close> do with an event, \<open>Maintainer\<close> what the maintainer does when it is called; here are the waits.
\<close>

section \<open>States\<close>

datatype managethread = MtStarting | MtLoop phase | MtDraining | MtReturned | MtBlocked

datatype maintainthread = RunWaiting | RunSending lstate | RunStopped

datatype cleanupthread = CleanupIdle | CleanupReleasing | CleanupClosing | CleanupDone

datatype callerthread = CallerFree | CallerAbsorbing | CallerStopping

text \<open>
  \<open>ir_states\<close> is the buffer of the channel of states, \<open>ir_requests\<close> that of the absorption channel, \<open>ir_answer\<close> that of
  the answer to the request. \<open>ir_stop\<close> and \<open>ir_absorption\<close> tell that the fields \<^verbatim>\<open>stop\<close> and \<^verbatim>\<open>absorption\<close> are not
  nil. \<open>ir_events\<close> records the events \<^verbatim>\<open>manage\<close> has acted on, \<open>ir_drained\<close> the states it took after that.
\<close>

record 'w invrun =
  ir_inv :: invocation
  ir_manage :: managethread
  ir_lm :: maintainer
  ir_world :: 'w
  ir_run :: maintainthread
  ir_states :: "lstate list"
  ir_closed :: bool
  ir_shutdown :: bool
  ir_cleanup :: cleanupthread
  ir_ctx :: bool
  ir_caller :: callerthread
  ir_stop :: bool
  ir_absorption :: bool
  ir_requests :: "procdata list"
  ir_answer :: "bool option"
  ir_events :: "maintain_event list"
  ir_drained :: "lstate list"

definition invocationRetry :: duration where "invocationRetry = 5 * Second"

definition NewInvocation_run ::
  "client \<Rightarrow> (string \<times> string) list \<Rightarrow> instance_t \<Rightarrow> procdata \<Rightarrow> bool \<Rightarrow> 'w \<Rightarrow> 'w invrun" where
  "NewInvocation_run c props inst process session w =
     \<lparr>ir_inv = NewInvocation inst process session, ir_manage = MtStarting,
      ir_lm = fst (Maintainer_Acquire (NewLeaseMaintainer c inst props invocationRetry)), ir_world = w,
      ir_run = RunWaiting, ir_states = [], ir_closed = False, ir_shutdown = False, ir_cleanup = CleanupIdle,
      ir_ctx = False, ir_caller = CallerFree, ir_stop = True, ir_absorption = True, ir_requests = [], ir_answer = None,
      ir_events = [], ir_drained = []\<rparr>"

section \<open>The goroutine of the maintainer\<close>

definition statesBuffer :: nat where "statesBuffer = 1"

definition run_acquire :: "'w network \<Rightarrow> 'w resolver \<Rightarrow> 'w invrun \<Rightarrow> 'w invrun option" where
  "run_acquire net resolve r =
     (if ir_run r = RunWaiting then
        let (w, lm, state) = Maintainer_acquire net resolve (ir_lm r) (ir_world r)
        in Some (r\<lparr>ir_world := w, ir_lm := lm, ir_run := (if lm_listeners lm = [] then RunWaiting else RunSending state)\<rparr>)
      else None)"

definition run_send :: "'w invrun \<Rightarrow> 'w invrun option" where
  "run_send r =
     (case ir_run r of
        RunSending state \<Rightarrow>
          if length (ir_states r) < statesBuffer then Some (r\<lparr>ir_states := ir_states r @ [state], ir_run := RunWaiting\<rparr>) else None
      | _ \<Rightarrow> None)"

definition run_shutdown :: "'w network \<Rightarrow> 'w resolver \<Rightarrow> 'w invrun \<Rightarrow> 'w invrun option" where
  "run_shutdown net resolve r =
     (if ir_run r = RunWaiting \<and> ir_shutdown r then
        let (w, lm, err) = Maintainer_stop net resolve True (ir_lm r) (ir_world r)
        in Some (r\<lparr>ir_world := w, ir_lm := lm, ir_run := RunStopped\<rparr>)
      else None)"

section \<open>The goroutine of the invocation\<close>

text \<open>\<^verbatim>\<open>Listen\<close> waits for the mutex that an acquisition holds.\<close>

definition manage_listen :: "'w invrun \<Rightarrow> 'w invrun option" where
  "manage_listen r =
     (if ir_manage r = MtStarting \<and> ir_run r = RunWaiting then
        let (lm, l) = Maintainer_Listen (ir_lm r)
        in Some (r\<lparr>ir_lm := lm, ir_states := li_received l, ir_manage := MtLoop Maintaining\<rparr>)
      else None)"

text \<open>The event that a channel has for a phase, with what is left in the channel.\<close>

definition event_ready :: "phase \<Rightarrow> maintain_event \<Rightarrow> 'w invrun \<Rightarrow> 'w invrun option" where
  "event_ready ph e r =
     (case e of
        AbsorptionRequest p \<Rightarrow>
          (case ir_requests r of
             q # rest \<Rightarrow> if q = p then Some (r\<lparr>ir_requests := rest,
               ir_answer := Some (case ph of Absorbing pid \<Rightarrow> pd_ID p = pid | _ \<Rightarrow> False)\<rparr>) else None
           | [] \<Rightarrow> None)
      | ContextDone running \<Rightarrow> if ir_ctx r then Some r else None
      | StatesClosed \<Rightarrow> if ph \<in> {Maintaining, Acquiring} \<and> ir_closed r \<and> ir_states r = [] then Some r else None
      | LeaseState s now t la \<Rightarrow>
          (case ir_states r of
             q # rest \<Rightarrow> if q = s \<and> ph \<in> {Maintaining, Acquiring} then Some (r\<lparr>ir_states := rest\<rparr>) else None
           | [] \<Rightarrow> None)
      | AbsorptionTimeout \<Rightarrow> if ph \<notin> {Maintaining, Acquiring} then Some r else None)"

definition manage_turn :: "maintain_event \<Rightarrow> 'w invrun \<Rightarrow> 'w invrun option" where
  "manage_turn e r =
     (case ir_manage r of
        MtLoop ph \<Rightarrow>
          (case event_ready ph e r of
             None \<Rightarrow> None
           | Some r \<Rightarrow>
               (let (iv, outcome) = manage_event ph e (ir_inv r);
                    r = r\<lparr>ir_inv := iv, ir_events := ir_events r @ [e]\<rparr>
                in Some (case outcome of
                     GoesOn ph \<Rightarrow> r\<lparr>ir_manage := MtLoop ph\<rparr>
                   | Returns \<Rightarrow> r\<lparr>ir_manage := MtDraining, ir_cleanup := CleanupReleasing\<rparr>
                   | Blocks \<Rightarrow> r\<lparr>ir_manage := MtBlocked\<rparr>)))
      | _ \<Rightarrow> None)"

definition manage_drain :: "'w invrun \<Rightarrow> 'w invrun option" where
  "manage_drain r =
     (if ir_manage r = MtDraining then
        (case ir_states r of
           s # rest \<Rightarrow> Some (r\<lparr>ir_states := rest, ir_drained := ir_drained r @ [s]\<rparr>)
         | [] \<Rightarrow> if ir_closed r then Some (r\<lparr>ir_manage := MtReturned, ir_inv := (ir_inv r)\<lparr>iv_finished := True\<rparr>\<rparr>) else None)
      else None)"

section \<open>The goroutine that cleans up\<close>

definition cleanup_step :: "'w network \<Rightarrow> 'w resolver \<Rightarrow> 'w invrun \<Rightarrow> 'w invrun option" where
  "cleanup_step net resolve r =
     (case ir_cleanup r of
        CleanupIdle \<Rightarrow> None
      | CleanupReleasing \<Rightarrow>
          if \<not> ir_shutdown r then Some (r\<lparr>ir_shutdown := True\<rparr>)
          else if ir_run r = RunStopped then Some (r\<lparr>ir_cleanup := CleanupClosing\<rparr>)
          else None
      | CleanupClosing \<Rightarrow>
          (let (w, lm, ls) = Maintainer_Close net resolve (ir_lm r) (ir_world r)
           in Some (r\<lparr>ir_world := w, ir_lm := lm, ir_closed := True, ir_cleanup := CleanupDone\<rparr>))
      | CleanupDone \<Rightarrow> None)"

section \<open>The caller\<close>

definition Absorb_call :: "procdata \<Rightarrow> 'w invrun \<Rightarrow> 'w invrun option" where
  "Absorb_call p r =
     (if ir_caller r \<noteq> CallerFree then None
      else if \<not> ir_absorption r then Some r
      else Some (r\<lparr>ir_requests := ir_requests r @ [p], ir_caller := CallerAbsorbing\<rparr>))"

definition Stop_call :: "'w invrun \<Rightarrow> 'w invrun option" where
  "Stop_call r =
     (if ir_caller r \<noteq> CallerFree then None
      else if ir_stop r then Some (r\<lparr>ir_ctx := True, ir_caller := CallerStopping\<rparr>)
      else Some (r\<lparr>ir_requests := [], ir_absorption := False\<rparr>))"

definition caller_step :: "'w invrun \<Rightarrow> 'w invrun option" where
  "caller_step r =
     (case ir_caller r of
        CallerFree \<Rightarrow> None
      | CallerAbsorbing \<Rightarrow>
          (case ir_answer r of Some b \<Rightarrow> Some (r\<lparr>ir_answer := None, ir_caller := CallerFree\<rparr>) | None \<Rightarrow> None)
      | CallerStopping \<Rightarrow>
          if ir_manage r = MtReturned
          then Some (r\<lparr>ir_stop := False, ir_requests := [], ir_absorption := False, ir_caller := CallerFree\<rparr>)
          else None)"

section \<open>Steps\<close>

text \<open>The steps of the threads, and those of the rest of the world: calls, and what happens on the network.\<close>

inductive ir_work :: "'w network \<Rightarrow> 'w resolver \<Rightarrow> 'w invrun \<Rightarrow> 'w invrun \<Rightarrow> bool" for net resolve where
  acquire: "run_acquire net resolve r = Some r' \<Longrightarrow> ir_work net resolve r r'"
| send: "run_send r = Some r' \<Longrightarrow> ir_work net resolve r r'"
| shutdown: "run_shutdown net resolve r = Some r' \<Longrightarrow> ir_work net resolve r r'"
| listen: "manage_listen r = Some r' \<Longrightarrow> ir_work net resolve r r'"
| turn: "manage_turn e r = Some r' \<Longrightarrow> ir_work net resolve r r'"
| drain: "manage_drain r = Some r' \<Longrightarrow> ir_work net resolve r r'"
| cleanup: "cleanup_step net resolve r = Some r' \<Longrightarrow> ir_work net resolve r r'"
| caller: "caller_step r = Some r' \<Longrightarrow> ir_work net resolve r r'"

inductive ir_step :: "'w network \<Rightarrow> 'w resolver \<Rightarrow> 'w invrun \<Rightarrow> 'w invrun \<Rightarrow> bool" for net resolve where
  work: "ir_work net resolve r r' \<Longrightarrow> ir_step net resolve r r'"
| absorb: "Absorb_call p r = Some r' \<Longrightarrow> ir_step net resolve r r'"
| stop: "Stop_call r = Some r' \<Longrightarrow> ir_step net resolve r r'"
| world: "ir_step net resolve r (r\<lparr>ir_world := w\<rparr>)"

section \<open>The invariant\<close>

lemmas ir_ops = run_acquire_def run_send_def run_shutdown_def manage_listen_def manage_drain_def cleanup_step_def
  caller_step_def Absorb_call_def Stop_call_def

lemma Maintainer_simps:
  "Maintainer_acquire net resolve lm w = (w', lm', s) \<Longrightarrow>
     lm_running lm' = lm_running lm \<and> lm_listeners lm' = broadcast s (lm_listeners lm)"
  "Maintainer_stop net resolve rel lm w = (w', lm', err) \<Longrightarrow> \<not> lm_running lm' \<and> lm_listeners lm' = lm_listeners lm"
  "Maintainer_Listen lm = (lm', l) \<Longrightarrow> lm_running lm' = lm_running lm \<and>
     (lm_running lm \<longrightarrow> lm_listeners lm' = lm_listeners lm @ [l] \<and> length (li_received l) \<le> 1)"
  by (auto simp: Maintainer_acquire_def Maintainer_stop_def Maintainer_release_def Maintainer_Listen_def Let_def
      split: prod.splits if_splits)

lemma Maintainer_Close_stopped:
  "\<not> lm_running lm \<Longrightarrow> Maintainer_Close net resolve lm w = (w', lm', ls) \<Longrightarrow>
     w' = w \<and> lm' = lm\<lparr>lm_listeners := []\<rparr>"
  by (auto simp: Maintainer_Close_def Maintainer_stop_def)

lemma Maintainer_stop_released:
  assumes "Maintainer_stop net resolve True lm w = (w', lm', None)"
  shows "\<not> lt_Online (lm_state lm') \<and> (lt_Err (lm_state lm') = None \<longrightarrow> \<not> lt_Acquired (lm_state lm'))"
  using assms by (auto simp: Maintainer_stop_def Maintainer_release_def Let_def split: prod.splits if_splits sum.splits)

lemma manage_event_simps:
  assumes "manage_event Maintaining e iv = (iv', outcome)"
  shows "iv_finished iv' = iv_finished iv" "outcome = GoesOn Maintaining \<or> outcome = Returns"
  using assms maintain_never_respawns [of e iv]
  by (auto simp: manage_event_def maintain_def recordState_def Let_def split: prod.splits option.splits maintain_event.splits if_splits)

lemma event_ready_frame:
  assumes "event_ready ph e r = Some q"
  shows "ir_inv q = ir_inv r" "ir_manage q = ir_manage r" "ir_lm q = ir_lm r" "ir_world q = ir_world r" "ir_run q = ir_run r"
    "ir_closed q = ir_closed r" "ir_shutdown q = ir_shutdown r" "ir_cleanup q = ir_cleanup r" "ir_ctx q = ir_ctx r"
    "ir_caller q = ir_caller r" "ir_stop q = ir_stop r" "ir_absorption q = ir_absorption r" "ir_events q = ir_events r"
    "ir_drained q = ir_drained r" "length (ir_states q) \<le> length (ir_states r)"
  using assms by (auto simp: event_ready_def split: maintain_event.splits list.splits if_splits)

lemma manage_turn_cases:
  assumes "manage_turn e r = Some r'" and "ir_manage r = MtLoop Maintaining"
  obtains (on) q iv where "event_ready Maintaining e r = Some q" "manage_event Maintaining e (ir_inv r) = (iv, GoesOn Maintaining)"
      "r' = q\<lparr>ir_inv := iv, ir_events := ir_events r @ [e], ir_manage := MtLoop Maintaining\<rparr>"
  | (ends) q iv where "event_ready Maintaining e r = Some q" "manage_event Maintaining e (ir_inv r) = (iv, Returns)"
      "r' = q\<lparr>ir_inv := iv, ir_events := ir_events r @ [e], ir_manage := MtDraining, ir_cleanup := CleanupReleasing\<rparr>"
proof -
  from assms obtain q where q: "event_ready Maintaining e r = Some q" by (auto simp: manage_turn_def split: option.splits)
  obtain iv outcome where run: "manage_event Maintaining e (ir_inv r) = (iv, outcome)" by fastforce
  have r': "r' = (let r = q\<lparr>ir_inv := iv, ir_events := ir_events r @ [e]\<rparr> in case outcome of
      GoesOn ph \<Rightarrow> r\<lparr>ir_manage := MtLoop ph\<rparr>
    | Returns \<Rightarrow> r\<lparr>ir_manage := MtDraining, ir_cleanup := CleanupReleasing\<rparr>
    | Blocks \<Rightarrow> r\<lparr>ir_manage := MtBlocked\<rparr>)"
    using assms q run by (simp add: manage_turn_def event_ready_frame [OF q] Let_def)
  from manage_event_simps(2) [OF run] show ?thesis
  proof
    assume "outcome = GoesOn Maintaining"
    with run r' show ?thesis by (intro on [OF q]) simp_all
  next
    assume "outcome = Returns"
    with run r' show ?thesis by (intro ends [OF q]) simp_all
  qed
qed

lemma cleanup_step_cases:
  assumes "cleanup_step net resolve r = Some r'" and "ir_cleanup r = CleanupClosing \<longrightarrow> \<not> lm_running (ir_lm r)"
  shows "ir_cleanup r = CleanupReleasing \<and> \<not> ir_shutdown r \<and> r' = r\<lparr>ir_shutdown := True\<rparr> \<or>
    ir_cleanup r = CleanupReleasing \<and> ir_run r = RunStopped \<and> ir_shutdown r \<and> r' = r\<lparr>ir_cleanup := CleanupClosing\<rparr> \<or>
    ir_cleanup r = CleanupClosing \<and>
      r' = r\<lparr>ir_lm := (ir_lm r)\<lparr>lm_listeners := []\<rparr>, ir_closed := True, ir_cleanup := CleanupDone\<rparr>"
proof (cases "ir_cleanup r")
  case CleanupClosing
  obtain w lm ls where m: "Maintainer_Close net resolve (ir_lm r) (ir_world r) = (w, lm, ls)" by (metis prod_cases3)
  have "\<not> lm_running (ir_lm r)" using assms(2) CleanupClosing by simp
  from Maintainer_Close_stopped [OF this m] CleanupClosing assms(1) show ?thesis by (simp add: cleanup_step_def m)
qed (use assms(1) in \<open>auto simp: cleanup_step_def split: if_splits\<close>)

lemma caller_step_cases:
  "caller_step r = Some r' \<Longrightarrow> r' = r\<lparr>ir_answer := None, ir_caller := CallerFree\<rparr> \<or> ir_manage r = MtReturned \<and>
      r' = r\<lparr>ir_stop := False, ir_requests := [], ir_absorption := False, ir_caller := CallerFree\<rparr>"
  by (auto simp: caller_step_def split: callerthread.splits if_splits option.splits)

lemma manage_drain_cases:
  "manage_drain r = Some r' \<Longrightarrow> ir_manage r = MtDraining \<and>
     ((\<exists>s rest. ir_states r = s # rest \<and> r' = r\<lparr>ir_states := rest, ir_drained := ir_drained r @ [s]\<rparr>) \<or>
      ir_states r = [] \<and> ir_closed r \<and> r' = r\<lparr>ir_manage := MtReturned, ir_inv := (ir_inv r)\<lparr>iv_finished := True\<rparr>\<rparr>)"
  by (auto simp: manage_drain_def split: if_splits list.splits)

definition threads_ok :: "'w invrun \<Rightarrow> bool" where
  "threads_ok r \<longleftrightarrow>
     (ir_cleanup r = CleanupIdle \<longrightarrow> ir_manage r = MtStarting \<or> ir_manage r = MtLoop Maintaining) \<and>
     (ir_cleanup r \<noteq> CleanupIdle \<longrightarrow> ir_manage r = MtDraining \<or> ir_manage r = MtReturned) \<and>
     (ir_shutdown r \<longrightarrow> ir_cleanup r \<noteq> CleanupIdle) \<and> (ir_run r = RunStopped \<longrightarrow> ir_shutdown r) \<and>
     (ir_cleanup r = CleanupClosing \<or> ir_cleanup r = CleanupDone \<longrightarrow> ir_run r = RunStopped) \<and>
     (ir_closed r \<longleftrightarrow> ir_cleanup r = CleanupDone) \<and> (ir_manage r = MtReturned \<longrightarrow> ir_closed r \<and> ir_states r = []) \<and>
     (iv_finished (ir_inv r) \<longleftrightarrow> ir_manage r = MtReturned) \<and> (lm_running (ir_lm r) \<longleftrightarrow> ir_run r \<noteq> RunStopped) \<and>
     (ir_caller r = CallerStopping \<longrightarrow> ir_ctx r \<and> ir_stop r) \<and> (\<not> ir_stop r \<longrightarrow> ir_manage r = MtReturned)"

lemma manage_turn_loop:
  assumes "manage_turn e r = Some r'" and "threads_ok r"
  shows "ir_manage r = MtLoop Maintaining"
proof -
  have "ir_manage r \<in> {MtStarting, MtLoop Maintaining, MtDraining, MtReturned}"
    using assms(2) unfolding threads_ok_def by blast
  with assms(1) show ?thesis by (auto simp: manage_turn_def)
qed

lemma threads_ok_loop:
  assumes "threads_ok r" and "ir_manage r = MtLoop Maintaining"
  shows "ir_cleanup r = CleanupIdle" "\<not> ir_shutdown r" "\<not> ir_closed r" "ir_run r \<noteq> RunStopped"
proof -
  have "ir_cleanup r \<noteq> CleanupIdle \<longrightarrow> ir_manage r = MtDraining \<or> ir_manage r = MtReturned"
    using assms(1) unfolding threads_ok_def by (elim conjE)
  with assms(2) show idle: "ir_cleanup r = CleanupIdle" by auto
  have "(ir_shutdown r \<longrightarrow> ir_cleanup r \<noteq> CleanupIdle) \<and> (ir_closed r \<longleftrightarrow> ir_cleanup r = CleanupDone) \<and>
      (ir_run r = RunStopped \<longrightarrow> ir_shutdown r)"
    using assms(1) unfolding threads_ok_def by (elim conjE) (intro conjI; assumption)
  with idle show "\<not> ir_shutdown r" "\<not> ir_closed r" "ir_run r \<noteq> RunStopped" by auto
qed

lemma threads_ok_work: "ir_work net resolve r r' \<Longrightarrow> threads_ok r \<Longrightarrow> threads_ok r'"
proof (induction rule: ir_work.induct)
  case (acquire r r')
  obtain w lm s where m: "Maintainer_acquire net resolve (ir_lm r) (ir_world r) = (w, lm, s)" by (metis prod_cases3)
  from acquire Maintainer_simps(1) [OF m] show ?case by (clarsimp simp: run_acquire_def m threads_ok_def split: if_splits)
next
  case (send r r')
  then show ?case by (clarsimp simp: run_send_def threads_ok_def split: maintainthread.splits if_splits)
next
  case (shutdown r r')
  obtain w lm s where m: "Maintainer_stop net resolve True (ir_lm r) (ir_world r) = (w, lm, s)" by (metis prod_cases3)
  from shutdown Maintainer_simps(2) [OF m] show ?case by (clarsimp simp: run_shutdown_def m threads_ok_def split: if_splits)
next
  case (listen r r')
  obtain lm l where m: "Maintainer_Listen (ir_lm r) = (lm, l)" by fastforce
  from listen Maintainer_simps(3) [OF m] show ?case by (clarsimp simp: manage_listen_def m threads_ok_def split: if_splits)
next
  case (turn e r r')
  note loop = manage_turn_loop [OF turn]
  from turn(1) loop show ?case
  proof (cases rule: manage_turn_cases)
    case (on q iv)
    from turn(2) loop show ?thesis
      unfolding on(3) threads_ok_def by (elim conjE) (simp add: event_ready_frame [OF on(1)] manage_event_simps(1) [OF on(2)])
  next
    case (ends q iv)
    from turn(2) loop show ?thesis
      unfolding ends(3) threads_ok_def by (elim conjE) (simp add: event_ready_frame [OF ends(1)] manage_event_simps(1) [OF ends(2)])
  qed
next
  case (drain r r')
  from manage_drain_cases [OF drain(1)] drain(2) show ?case unfolding threads_ok_def by (elim disjE conjE exE) simp_all
next
  case (cleanup r r')
  then have stopped: "ir_cleanup r = CleanupClosing \<longrightarrow> \<not> lm_running (ir_lm r)" by (simp add: threads_ok_def)
  from cleanup(2) cleanup_step_cases [OF cleanup(1) stopped] show ?case
    unfolding threads_ok_def by (elim disjE conjE) simp_all
next
  case (caller r r')
  from caller_step_cases [OF caller(1)] caller(2) show ?case unfolding threads_ok_def by (elim disjE conjE) simp_all
qed

text \<open>
  What the maintainer has sent is what \<^verbatim>\<open>manage\<close> has acted on, what it has drained, what the channel holds and
  what is being sent, in this order.
\<close>

definition seen :: "maintain_event list \<Rightarrow> lstate list" where
  "seen es = concat (map (\<lambda>e. case e of LeaseState s now t la \<Rightarrow> [s] | _ \<Rightarrow> []) es)"

definition in_flight :: "'w invrun \<Rightarrow> lstate list" where
  "in_flight r = (case ir_run r of RunSending s \<Rightarrow> [s] | _ \<Rightarrow> [])"

definition channel_ok :: "'w invrun \<Rightarrow> bool" where
  "channel_ok r \<longleftrightarrow>
     (ir_manage r = MtStarting \<longrightarrow> lm_listeners (ir_lm r) = [] \<and> ir_states r = [] \<and> ir_run r = RunWaiting) \<and>
     (ir_manage r = MtStarting \<or> ir_manage r = MtLoop Maintaining \<longrightarrow> ir_drained r = []) \<and>
     (ir_manage r = MtStarting \<longrightarrow> ir_events r = []) \<and>
     length (ir_states r) \<le> statesBuffer \<and>
     (ir_manage r \<noteq> MtStarting \<and> \<not> ir_closed r \<longrightarrow>
       (\<exists>l. lm_listeners (ir_lm r) = [l] \<and> li_received l = seen (ir_events r) @ ir_drained r @ ir_states r @ in_flight r)) \<and>
     (ir_run r = RunStopped \<longrightarrow>
       \<not> lt_Online (lm_state (ir_lm r)) \<and> (lt_Err (lm_state (ir_lm r)) = None \<longrightarrow> \<not> lt_Acquired (lm_state (ir_lm r))))"

lemma seen_simps [simp]: "seen [] = []" "seen (es @ es') = seen es @ seen es'"
  by (simp_all add: seen_def)

lemma event_ready_states: "event_ready Maintaining e r = Some q \<Longrightarrow> seen [e] @ ir_states q = ir_states r"
  by (auto simp: event_ready_def seen_def split: maintain_event.splits list.splits if_splits)

lemma channel_ok_turn:
  assumes turn: "manage_turn e r = Some r'" and ok: "channel_ok r" "threads_ok r"
  shows "channel_ok r'"
proof -
  note loop = manage_turn_loop [OF turn ok(2)]
  note th = threads_ok_loop [OF ok(2) loop]
  obtain l where l: "lm_listeners (ir_lm r) = [l]" "li_received l = seen (ir_events r) @ ir_states r @ in_flight r"
    and r: "ir_drained r = []" "length (ir_states r) \<le> statesBuffer" "ir_run r \<noteq> RunStopped"
    using ok(1) loop th(3,4) by (auto simp: channel_ok_def)
  have q: "li_received l = seen (ir_events r) @ seen [e] @ ir_states q @ in_flight r" if "event_ready Maintaining e r = Some q" for q
    using l(2) event_ready_states [OF that] by (metis append.assoc)
  from turn loop show ?thesis
  proof (cases rule: manage_turn_cases)
    case (on q iv)
    from q [OF on(1)] l(1) r event_ready_frame(15) [OF on(1)] show ?thesis
      unfolding on(3) channel_ok_def in_flight_def by (simp add: event_ready_frame(1-14) [OF on(1)])
  next
    case (ends q iv)
    from q [OF ends(1)] l(1) r event_ready_frame(15) [OF ends(1)] show ?thesis
      unfolding ends(3) channel_ok_def in_flight_def by (simp add: event_ready_frame(1-14) [OF ends(1)])
  qed
qed

lemma channel_ok_work: "ir_work net resolve r r' \<Longrightarrow> channel_ok r \<Longrightarrow> threads_ok r \<Longrightarrow> channel_ok r'"
proof (induction rule: ir_work.induct)
  case (acquire r r')
  obtain w lm s where m: "Maintainer_acquire net resolve (ir_lm r) (ir_world r) = (w, lm, s)" by (metis prod_cases3)
  have run: "ir_run r = RunWaiting"
      and r': "r' = r\<lparr>ir_world := w, ir_lm := lm, ir_run := (if lm_listeners lm = [] then RunWaiting else RunSending s)\<rparr>"
    using acquire(1) by (simp_all add: run_acquire_def m split: if_splits)
  show ?case
  proof (cases "ir_manage r \<noteq> MtStarting \<and> \<not> ir_closed r")
    case True
    then obtain l where "lm_listeners (ir_lm r) = [l]" "li_received l = seen (ir_events r) @ ir_drained r @ ir_states r"
      using acquire(2) run by (auto simp: channel_ok_def in_flight_def)
    with True run acquire(2) Maintainer_simps(1) [OF m] show ?thesis
      unfolding r' channel_ok_def by (simp add: in_flight_def broadcast_def)
  next
    case False
    then have "ir_manage r = MtStarting \<or> ir_closed r" by blast
    with run acquire(2) Maintainer_simps(1) [OF m] show ?thesis
      unfolding r' channel_ok_def by (elim disjE conjE) (simp_all add: in_flight_def broadcast_def)
  qed
next
  case (send r r')
  then show ?case
    by (auto simp: run_send_def channel_ok_def in_flight_def statesBuffer_def split: maintainthread.splits if_splits)
next
  case (shutdown r r')
  obtain w lm err where m: "Maintainer_stop net resolve True (ir_lm r) (ir_world r) = (w, lm, err)" by (metis prod_cases3)
  have run: "ir_run r = RunWaiting" "ir_shutdown r" and r': "r' = r\<lparr>ir_world := w, ir_lm := lm, ir_run := RunStopped\<rparr>"
    using shutdown(1) by (simp_all add: run_shutdown_def m split: if_splits)
  have th: "lm_running (ir_lm r)" "ir_manage r \<noteq> MtStarting" "ir_manage r \<noteq> MtLoop Maintaining"
    using shutdown(3) run unfolding threads_ok_def by (elim conjE; auto)+
  then have "err = None" using m by (auto simp: Maintainer_stop_def split: prod.splits if_splits)
  from Maintainer_stop_released [OF m [unfolded this]] Maintainer_simps(2) [OF m] shutdown(2) th run show ?case
    unfolding r' by (simp add: channel_ok_def in_flight_def)
next
  case (listen r r')
  obtain lm l where m: "Maintainer_Listen (ir_lm r) = (lm, l)" by fastforce
  have run: "ir_manage r = MtStarting" "ir_run r = RunWaiting"
      and r': "r' = r\<lparr>ir_lm := lm, ir_states := li_received l, ir_manage := MtLoop Maintaining\<rparr>"
    using listen(1) by (simp_all add: manage_listen_def m split: if_splits)
  have "lm_running (ir_lm r)" using listen(3) run(2) unfolding threads_ok_def by simp
  with Maintainer_simps(3) [OF m] run listen(2) show ?case
    unfolding r' by (simp add: channel_ok_def in_flight_def statesBuffer_def)
next
  case (turn e r r')
  then show ?case by (rule channel_ok_turn)
next
  case (drain r r')
  from manage_drain_cases [OF drain(1)] drain(2) show ?case
    unfolding channel_ok_def by (elim disjE conjE exE) (simp_all add: in_flight_def)
next
  case (cleanup r r')
  then have stopped: "ir_cleanup r = CleanupClosing \<longrightarrow> \<not> lm_running (ir_lm r)" by (simp add: threads_ok_def)
  have "ir_manage r \<noteq> MtStarting" if "ir_cleanup r \<noteq> CleanupIdle"
    using cleanup(3) that unfolding threads_ok_def by auto
  with cleanup(2) cleanup_step_cases [OF cleanup(1) stopped] show ?case
    by (elim disjE conjE) (simp_all add: channel_ok_def in_flight_def)
next
  case (caller r r')
  from caller_step_cases [OF caller(1)] caller(2) show ?case
    unfolding channel_ok_def by (elim disjE conjE) (simp_all add: in_flight_def)
qed

text \<open>The invocation is what the loop of \<^verbatim>\<open>manage\<close> makes of the events, whatever events are still to come.\<close>

definition events_ok :: "invocation \<Rightarrow> 'w invrun \<Rightarrow> bool" where
  "events_ok iv r \<longleftrightarrow> (\<forall>es. manage Maintaining (ir_events r @ es) iv =
     (if ir_manage r = MtStarting \<or> ir_manage r = MtLoop Maintaining then manage Maintaining es (ir_inv r)
      else (ir_inv r)\<lparr>iv_finished := True\<rparr>))"

lemma events_ok_frame:
  "events_ok iv r \<Longrightarrow> ir_events r' = ir_events r \<Longrightarrow> ir_inv r' = ir_inv r \<Longrightarrow> ir_manage r' = ir_manage r \<Longrightarrow> events_ok iv r'"
  by (simp add: events_ok_def)

lemma events_ok_work: "ir_work net resolve r r' \<Longrightarrow> events_ok iv r \<Longrightarrow> threads_ok r \<Longrightarrow> events_ok iv r'"
proof (induction rule: ir_work.induct)
  case (acquire r r')
  then show ?case by (auto simp: run_acquire_def Let_def split: if_splits prod.splits intro: events_ok_frame)
next
  case (send r r')
  then show ?case by (auto simp: run_send_def split: maintainthread.splits if_splits intro: events_ok_frame)
next
  case (shutdown r r')
  then show ?case by (auto simp: run_shutdown_def Let_def split: if_splits prod.splits intro: events_ok_frame)
next
  case (listen r r')
  then show ?case by (auto simp: manage_listen_def events_ok_def Let_def split: if_splits prod.splits)
next
  case (turn e r r')
  note loop = manage_turn_loop [OF turn(1,3)]
  have step: "manage Maintaining (ir_events r @ e # es) iv = manage Maintaining (e # es) (ir_inv r)" for es
    using turn(2) loop by (simp only: events_ok_def) simp
  from turn(1) loop show ?case
    by (cases rule: manage_turn_cases) (simp_all add: events_ok_def step)
next
  case (drain r r')
  from manage_drain_cases [OF drain(1)] drain(2) show ?case
    unfolding events_ok_def by (elim disjE conjE exE) simp_all
next
  case (cleanup r r')
  then have stopped: "ir_cleanup r = CleanupClosing \<longrightarrow> \<not> lm_running (ir_lm r)" by (simp add: threads_ok_def)
  from cleanup(2) cleanup_step_cases [OF cleanup(1) stopped] show ?case
    by (elim disjE conjE) (simp_all add: events_ok_def)
next
  case (caller r r')
  from caller_step_cases [OF caller(1)] caller(2) show ?case by (elim disjE conjE) (simp_all add: events_ok_def)
qed

definition ir_ok :: "invocation \<Rightarrow> 'w invrun \<Rightarrow> bool" where
  "ir_ok iv r \<longleftrightarrow> threads_ok r \<and> channel_ok r \<and> events_ok iv r"

lemma ir_work_ok: "ir_work net resolve r r' \<Longrightarrow> ir_ok iv r \<Longrightarrow> ir_ok iv r'"
  unfolding ir_ok_def using threads_ok_work channel_ok_work events_ok_work by blast

lemma ir_calls:
  "Absorb_call p r = Some r' \<Longrightarrow> r' = r \<or> r' = r\<lparr>ir_requests := ir_requests r @ [p], ir_caller := CallerAbsorbing\<rparr>"
  "Stop_call r = Some r' \<Longrightarrow> r' = r\<lparr>ir_ctx := True, ir_caller := CallerStopping\<rparr> \<and> ir_stop r \<or> r' = r\<lparr>ir_requests := [], ir_absorption := False\<rparr>"
  by (auto simp: Absorb_call_def Stop_call_def split: if_splits)

lemma ir_ok_frame:
  assumes "ir_ok iv r" and "ir_caller r' = CallerStopping \<longrightarrow> ir_ctx r' \<and> ir_stop r'"
    and "ir_inv r' = ir_inv r" "ir_manage r' = ir_manage r" "ir_lm r' = ir_lm r" "ir_run r' = ir_run r" "ir_states r' = ir_states r"
      "ir_closed r' = ir_closed r" "ir_shutdown r' = ir_shutdown r" "ir_cleanup r' = ir_cleanup r" "ir_stop r' = ir_stop r"
      "ir_events r' = ir_events r" "ir_drained r' = ir_drained r"
  shows "ir_ok iv r'"
  using assms(1,2) unfolding ir_ok_def threads_ok_def channel_ok_def events_ok_def in_flight_def assms(3-13)
  by (elim conjE) (intro conjI; assumption)

lemma ir_ok_caller: "ir_ok iv r \<Longrightarrow> ir_caller r = CallerStopping \<longrightarrow> ir_ctx r \<and> ir_stop r"
  unfolding ir_ok_def threads_ok_def by (elim conjE)

lemma ir_step_ok: "ir_step net resolve r r' \<Longrightarrow> ir_ok iv r \<Longrightarrow> ir_ok iv r'"
proof (induction rule: ir_step.induct)
  case (work r r')
  then show ?case by (rule ir_work_ok)
next
  case (absorb p r r')
  from ir_calls(1) [OF absorb(1)] show ?case
  proof
    assume "r' = r\<lparr>ir_requests := ir_requests r @ [p], ir_caller := CallerAbsorbing\<rparr>"
    then show ?thesis by (intro ir_ok_frame [OF absorb(2)]) simp_all
  qed (use absorb(2) in simp)
next
  case (stop r r')
  from ir_calls(2) [OF stop(1)] show ?case
  proof
    assume "r' = r\<lparr>ir_ctx := True, ir_caller := CallerStopping\<rparr> \<and> ir_stop r"
    then show ?thesis by (intro ir_ok_frame [OF stop(2)]) simp_all
  next
    assume "r' = r\<lparr>ir_requests := [], ir_absorption := False\<rparr>"
    with ir_ok_caller [OF stop(2)] show ?thesis by (intro ir_ok_frame [OF stop(2)]) simp_all
  qed
next
  case (world r w)
  then show ?case using ir_ok_caller [OF world] by (intro ir_ok_frame [OF world]) simp_all
qed

lemma NewInvocation_run_ok: "ir_ok (NewInvocation inst process session) (NewInvocation_run c props inst process session w)"
  by (simp add: ir_ok_def threads_ok_def channel_ok_def events_ok_def in_flight_def statesBuffer_def NewInvocation_run_def
      NewInvocation_def Maintainer_Acquire_def NewLeaseMaintainer_def)

interpretation invocationInv: initial_invariant "ir_step net resolve" "ir_ok (NewInvocation inst process session)"
    "NewInvocation_run c props inst process session w" for net resolve inst process session c props w
  by unfold_locales (rule ir_step_ok, assumption+, rule NewInvocation_run_ok)

section \<open>Stopping an invocation\<close>

text \<open>
  The threads of an invocation that is being stopped. \<open>ir_left\<close> measures what they have still to do, when the
  maintainer starts no further acquisition and the loop of \<^verbatim>\<open>manage\<close> notices the cancellation.
\<close>

definition stopping :: "invocation \<Rightarrow> 'w invrun \<Rightarrow> bool" where
  "stopping iv r \<longleftrightarrow> ir_ok iv r \<and> ir_ctx r \<and> ir_caller r \<noteq> CallerAbsorbing \<and> (ir_stop r \<longleftrightarrow> ir_caller r = CallerStopping)"

definition manage_left :: "managethread \<Rightarrow> nat" where
  "manage_left m = (case m of MtStarting \<Rightarrow> 300 | MtLoop ph \<Rightarrow> 200 | MtDraining \<Rightarrow> 100 | _ \<Rightarrow> 0)"

definition run_left :: "maintainthread \<Rightarrow> nat" where
  "run_left m = (case m of RunSending s \<Rightarrow> 5 | RunWaiting \<Rightarrow> 3 | RunStopped \<Rightarrow> 0)"

definition cleanup_left :: "cleanupthread \<Rightarrow> nat" where
  "cleanup_left c = (case c of CleanupIdle \<Rightarrow> 30 | CleanupReleasing \<Rightarrow> 20 | CleanupClosing \<Rightarrow> 10 | CleanupDone \<Rightarrow> 0)"

definition ir_left :: "'w invrun \<Rightarrow> nat" where
  "ir_left r = manage_left (ir_manage r) + run_left (ir_run r) + cleanup_left (ir_cleanup r) + length (ir_states r) +
     (if ir_shutdown r then 0 else 1) + (if ir_caller r = CallerStopping then 1 else 0)"

lemmas left_defs = ir_left_def manage_left_def run_left_def cleanup_left_def

lemma event_ready_caller: "event_ready ph e r = Some q \<Longrightarrow> ir_ctx q = ir_ctx r \<and> ir_caller q = ir_caller r \<and> ir_stop q = ir_stop r"
  by (simp add: event_ready_frame)

lemma ir_work_caller:
  assumes "ir_work net resolve r r'" and "ir_caller r \<noteq> CallerAbsorbing"
  shows "ir_ctx r' = ir_ctx r \<and> (ir_caller r' = ir_caller r \<and> ir_stop r' = ir_stop r \<or> ir_caller r' = CallerFree \<and> \<not> ir_stop r')"
  using assms(1)
proof cases
  case (turn e)
  then obtain ph q where "ir_manage r = MtLoop ph" "event_ready ph e r = Some q"
    by (auto simp: manage_turn_def split: managethread.splits option.splits)
  note q = this
  obtain iv outcome where "manage_event ph e (ir_inv q) = (iv, outcome)" by fastforce
  with turn q event_ready_caller [OF q(2)] show ?thesis by (cases outcome) (auto simp: manage_turn_def Let_def)
next
  case caller
  with assms(2) show ?thesis by (auto simp: caller_step_def split: callerthread.splits if_splits)
next
  case cleanup
  then show ?thesis by (auto simp: cleanup_step_def Let_def split: cleanupthread.splits prod.splits if_splits)
next
  case drain
  from manage_drain_cases [OF drain] show ?thesis by auto
qed (auto simp: run_acquire_def run_send_def run_shutdown_def manage_listen_def Let_def
    split: prod.splits maintainthread.splits if_splits)

lemma stopping_keeps:
  assumes "ir_work net resolve r r'" and "stopping iv r"
  shows "stopping iv r'"
proof -
  have "ir_ok iv r" "ir_ctx r" "ir_caller r \<noteq> CallerAbsorbing" "ir_stop r \<longleftrightarrow> ir_caller r = CallerStopping"
    using assms(2) by (simp_all add: stopping_def)
  with ir_work_ok [OF assms(1) this(1)] ir_work_caller [OF assms(1) this(3)] show ?thesis by (auto simp: stopping_def)
qed

definition ir_stopped :: "'w invrun \<Rightarrow> bool" where
  "ir_stopped r \<longleftrightarrow> ir_caller r = CallerFree \<and> \<not> ir_stop r"

lemma draining_progress:
  assumes ok: "ir_ok iv r" and d: "ir_manage r = MtDraining"
  shows "\<exists>r'. ir_work net resolve r r' \<and> ir_left r' < ir_left r"
proof -
  have cl: "ir_cleanup r \<noteq> CleanupIdle" and closed: "ir_closed r \<longleftrightarrow> ir_cleanup r = CleanupDone"
    using ok d unfolding ir_ok_def threads_ok_def by auto
  have drain: "\<exists>r'. ir_work net resolve r r' \<and> ir_left r' < ir_left r" if "ir_states r \<noteq> [] \<or> ir_closed r"
  proof (cases "ir_states r")
    case Nil
    with that d have "manage_drain r = Some (r\<lparr>ir_manage := MtReturned, ir_inv := (ir_inv r)\<lparr>iv_finished := True\<rparr>\<rparr>)"
      by (simp add: manage_drain_def)
    from ir_work.drain [OF this] d show ?thesis by (intro exI conjI) (auto simp: left_defs)
  next
    case (Cons s rest)
    with d have "manage_drain r = Some (r\<lparr>ir_states := rest, ir_drained := ir_drained r @ [s]\<rparr>)" by (simp add: manage_drain_def)
    from ir_work.drain [OF this] Cons show ?thesis by (intro exI conjI) (auto simp: ir_left_def)
  qed
  show ?thesis
  proof (cases "ir_cleanup r")
    case CleanupReleasing
    show ?thesis
    proof (cases "ir_shutdown r")
      case False
      with CleanupReleasing have "cleanup_step net resolve r = Some (r\<lparr>ir_shutdown := True\<rparr>)" by (simp add: cleanup_step_def)
      from ir_work.cleanup [OF this] False show ?thesis by (intro exI conjI) (auto simp: ir_left_def)
    next
      case True
      show ?thesis
      proof (cases "ir_run r")
        case RunStopped
        with True CleanupReleasing have "cleanup_step net resolve r = Some (r\<lparr>ir_cleanup := CleanupClosing\<rparr>)"
          by (simp add: cleanup_step_def)
        from ir_work.cleanup [OF this] CleanupReleasing show ?thesis by (intro exI conjI) (auto simp: left_defs)
      next
        case RunWaiting
        obtain w lm err where "Maintainer_stop net resolve True (ir_lm r) (ir_world r) = (w, lm, err)" by (metis prod_cases3)
        with True RunWaiting have "run_shutdown net resolve r = Some (r\<lparr>ir_world := w, ir_lm := lm, ir_run := RunStopped\<rparr>)"
          by (simp add: run_shutdown_def)
        from ir_work.shutdown [OF this] RunWaiting show ?thesis by (intro exI conjI) (auto simp: left_defs)
      next
        case (RunSending s)
        show ?thesis
        proof (cases "ir_states r = []")
          case True
          with RunSending have "run_send r = Some (r\<lparr>ir_states := ir_states r @ [s], ir_run := RunWaiting\<rparr>)"
            by (simp add: run_send_def statesBuffer_def)
          from ir_work.send [OF this] RunSending show ?thesis by (intro exI conjI) (auto simp: left_defs)
        qed (use drain in blast)
      qed
    qed
  next
    case CleanupClosing
    obtain w lm ls where "Maintainer_Close net resolve (ir_lm r) (ir_world r) = (w, lm, ls)" by (metis prod_cases3)
    with CleanupClosing have "cleanup_step net resolve r =
        Some (r\<lparr>ir_world := w, ir_lm := lm, ir_closed := True, ir_cleanup := CleanupDone\<rparr>)"
      by (simp add: cleanup_step_def)
    from ir_work.cleanup [OF this] CleanupClosing show ?thesis by (intro exI conjI) (auto simp: left_defs)
  qed (use cl closed drain in auto)
qed

lemma stopping_progress:
  assumes "stopping iv r" and "\<not> ir_stopped r"
  shows "\<exists>r'. ir_work net resolve r r' \<and> ir_left r' < ir_left r"
proof -
  have ok: "ir_ok iv r" and ctx: "ir_ctx r" and caller: "ir_caller r = CallerStopping"
    using assms by (auto simp: stopping_def ir_stopped_def intro: callerthread.exhaust)
  have "ir_manage r \<in> {MtStarting, MtLoop Maintaining, MtDraining, MtReturned}"
    using ok unfolding ir_ok_def threads_ok_def by blast
  then consider "ir_manage r = MtStarting" | "ir_manage r = MtLoop Maintaining" | "ir_manage r = MtDraining" | "ir_manage r = MtReturned"
    by blast
  then show ?thesis
  proof cases
    case 1
    obtain lm l where m: "Maintainer_Listen (ir_lm r) = (lm, l)" by fastforce
    have run: "ir_run r = RunWaiting" "ir_states r = []" using ok 1 by (simp_all add: ir_ok_def channel_ok_def)
    have "lm_running (ir_lm r)" using ok run unfolding ir_ok_def threads_ok_def by simp
    with m have "length (li_received l) \<le> 1" using Maintainer_simps(3) by blast
    moreover have "manage_listen r = Some (r\<lparr>ir_lm := lm, ir_states := li_received l, ir_manage := MtLoop Maintaining\<rparr>)"
      using 1 run m by (simp add: manage_listen_def)
    from ir_work.listen [OF this] calculation 1 run show ?thesis by (intro exI conjI) (auto simp: left_defs)
  next
    case 2
    have idle: "ir_cleanup r = CleanupIdle" using ok 2 threads_ok_loop(1) by (auto simp: ir_ok_def)
    have "manage_turn (ContextDone False) r = Some (r\<lparr>ir_events := ir_events r @ [ContextDone False],
        ir_manage := MtDraining, ir_cleanup := CleanupReleasing\<rparr>)"
      using 2 ctx by (simp add: manage_turn_def event_ready_def manage_event_def maintain_def Let_def)
    from ir_work.turn [OF this] 2 idle show ?thesis by (intro exI conjI) (auto simp: left_defs)
  next
    case 3
    with ok show ?thesis by (rule draining_progress)
  next
    case 4
    with caller have "caller_step r = Some (r\<lparr>ir_stop := False, ir_requests := [], ir_absorption := False, ir_caller := CallerFree\<rparr>)"
      by (simp add: caller_step_def)
    from ir_work.caller [OF this] caller show ?thesis by (intro exI conjI) (auto simp: ir_left_def)
  qed
qed

interpretation invocationStop: winding_down "ir_work net resolve" "stopping iv" ir_stopped ir_left for net resolve iv
  by unfold_locales (rule stopping_keeps, assumption+, rule stopping_progress)

text \<open>When \<^verbatim>\<open>Stop\<close> has returned, the maintainer has stopped, and has released its lease unless that failed.\<close>

lemma ir_stopped_state:
  assumes "ir_ok iv r" and "ir_stopped r"
  shows "Invocation_Done (ir_inv r) \<and> ir_closed r \<and> \<not> lm_running (ir_lm r) \<and>
    (lt_Err (lm_state (ir_lm r)) = None \<longrightarrow> \<not> lt_Acquired (lm_state (ir_lm r)))"
proof -
  have th: "(\<not> ir_stop r \<longrightarrow> ir_manage r = MtReturned) \<and> (ir_manage r = MtReturned \<longrightarrow> ir_closed r \<and> ir_states r = []) \<and>
      (iv_finished (ir_inv r) \<longleftrightarrow> ir_manage r = MtReturned) \<and> (ir_closed r \<longleftrightarrow> ir_cleanup r = CleanupDone) \<and>
      (ir_cleanup r = CleanupClosing \<or> ir_cleanup r = CleanupDone \<longrightarrow> ir_run r = RunStopped) \<and>
      (lm_running (ir_lm r) \<longleftrightarrow> ir_run r \<noteq> RunStopped)"
    using assms(1) unfolding ir_ok_def threads_ok_def by (elim conjE) (intro conjI; assumption)
  with assms(2) have "ir_manage r = MtReturned" "ir_closed r" "ir_run r = RunStopped" by (auto simp: ir_stopped_def)
  with th assms(1) show ?thesis by (simp add: Invocation_Done_def ir_ok_def channel_ok_def)
qed

text \<open>A call of \<^verbatim>\<open>Stop\<close> returns by the steps of the threads alone, and the invocation is then what \<open>manage\<close> makes of its events.\<close>

lemma stop_completes:
  assumes "ir_ok iv r" and "ir_stop r" and "Stop_call r = Some r1"
  shows "\<exists>r'. (ir_work net resolve)\<^sup>*\<^sup>* r1 r' \<and> ir_ok iv r' \<and> ir_stopped r' \<and> ir_inv r' = manage Maintaining (ir_events r') iv"
proof -
  have "r1 = r\<lparr>ir_ctx := True, ir_caller := CallerStopping\<rparr>"
    using assms(2,3) by (auto simp: Stop_call_def split: if_splits)
  then have "stopping iv r1" using ir_step_ok [OF ir_step.stop [OF assms(3)] assms(1)] assms(2) by (simp add: stopping_def)
  from invocationStop.reaches_final [OF this] obtain r' where r': "(ir_work net resolve)\<^sup>*\<^sup>* r1 r'" "ir_ok iv r'" "ir_stopped r'"
    by (auto simp: stopping_def)
  have "iv_finished (ir_inv r')" using ir_stopped_state [OF r'(2,3)] by (simp add: Invocation_Done_def)
  moreover have "ir_manage r' = MtReturned" using calculation r'(2) unfolding ir_ok_def threads_ok_def by (elim conjE) simp
  moreover have "\<forall>es. manage Maintaining (ir_events r' @ es) iv =
     (if ir_manage r' = MtStarting \<or> ir_manage r' = MtLoop Maintaining then manage Maintaining es (ir_inv r')
      else (ir_inv r')\<lparr>iv_finished := True\<rparr>)"
    using r'(2) by (simp add: ir_ok_def events_ok_def)
  from this [rule_format, of "[]"] have "manage Maintaining (ir_events r') iv = (ir_inv r')\<lparr>iv_finished := True\<rparr>"
    using calculation by simp
  ultimately have "ir_inv r' = manage Maintaining (ir_events r') iv" by simp
  with r' show ?thesis by blast
qed

section \<open>The maintainer of an invocation is a maintainer\<close>

lemma ir_step_refines:
  assumes "ir_step net resolve r r'" and "ir_ok iv r"
  shows "(lm_step net resolve)\<^sup>*\<^sup>* (ir_lm r, ir_world r) (ir_lm r', ir_world r')"
  using assms(1)
proof cases
  case work
  then show ?thesis
  proof cases
    case acquire
    then have "lm_running (ir_lm r)" using assms(2) by (simp add: run_acquire_def ir_ok_def threads_ok_def split: if_splits)
    moreover obtain w lm st where m: "Maintainer_acquire net resolve (ir_lm r) (ir_world r) = (w, lm, st)" by (metis prod_cases3)
    ultimately have "lm_step net resolve (ir_lm r, ir_world r) (lm, w)" by (intro lm_step.timer) (simp_all add: tick_def m)
    with acquire show ?thesis by (auto simp: run_acquire_def m split: if_splits)
  next
    case shutdown
    obtain w lm err where m: "Maintainer_stop net resolve True (ir_lm r) (ir_world r) = (w, lm, err)" by (metis prod_cases3)
    from shutdown lm_step.stop [OF m] show ?thesis by (auto simp: run_shutdown_def m split: if_splits)
  next
    case listen
    obtain lm l where m: "Maintainer_Listen (ir_lm r) = (lm, l)" by fastforce
    from listen lm_step.listen [OF m, of net resolve "ir_world r"] show ?thesis by (auto simp: manage_listen_def m split: if_splits)
  next
    case cleanup
    obtain w lm ls where m: "Maintainer_Close net resolve (ir_lm r) (ir_world r) = (w, lm, ls)" by (metis prod_cases3)
    from cleanup lm_step.close [OF m] show ?thesis
      by (cases "ir_cleanup r") (auto simp: cleanup_step_def m split: if_splits)
  next
    case (turn e)
    then have "threads_ok r" using assms(2) by (simp add: ir_ok_def)
    from turn manage_turn_loop [OF turn this] show ?thesis
      by (cases rule: manage_turn_cases) (simp_all add: event_ready_frame)
  next
    case drain
    from manage_drain_cases [OF drain] show ?thesis by auto
  next
    case caller
    from caller_step_cases [OF caller] show ?thesis by auto
  qed (auto simp: run_send_def split: maintainthread.splits if_splits)
next
  case (absorb p)
  from ir_calls(1) [OF absorb] show ?thesis by auto
next
  case stop
  from ir_calls(2) [OF stop] show ?thesis by auto
next
  case (world w)
  then show ?thesis using lm_step.world by fastforce
qed

interpretation invocationLease: step_refinement "ir_step net resolve" "ir_ok iv" "lm_step net resolve" "\<lambda>r. (ir_lm r, ir_world r)"
  for net resolve iv
  by unfold_locales (rule ir_step_ok, assumption+, rule ir_step_refines)

section \<open>Absorption can block\<close>

text \<open>
  A caller of \<^verbatim>\<open>Absorb\<close> that comes after the loop of \<^verbatim>\<open>manage\<close> has ended, and before \<^verbatim>\<open>Stop\<close>, waits for an answer that
  nobody gives, with the mutex held. And a caller of \<^verbatim>\<open>Stop\<close> waits for good when \<^verbatim>\<open>manage\<close> is blocked on the timer
  of \<^verbatim>\<open>waitForAbsorption\<close>.
\<close>

definition caller_stuck :: "'w invrun \<Rightarrow> bool" where
  "caller_stuck r \<longleftrightarrow>
     ir_caller r = CallerAbsorbing \<and> ir_answer r = None \<and> (ir_manage r = MtDraining \<or> ir_manage r = MtReturned \<or> ir_manage r = MtBlocked) \<or>
     ir_caller r = CallerStopping \<and> ir_manage r = MtBlocked"

lemma caller_stuck_step:
  assumes "ir_step net resolve r r'" and "caller_stuck r"
  shows "caller_stuck r'"
  using assms(1)
proof cases
  case work
  then show ?thesis
  proof cases
    case (turn e)
    with assms(2) show ?thesis by (auto simp: manage_turn_def caller_stuck_def)
  next
    case drain
    from manage_drain_cases [OF drain] assms(2) show ?thesis by (auto simp: caller_stuck_def)
  next
    case cleanup
    with assms(2) show ?thesis
      by (cases "ir_cleanup r") (auto simp: cleanup_step_def caller_stuck_def Let_def split: if_splits prod.splits)
  next
    case caller
    with assms(2) show ?thesis by (auto simp: caller_step_def caller_stuck_def split: if_splits option.splits)
  next
    case send
    with assms(2) show ?thesis by (auto simp: run_send_def caller_stuck_def split: maintainthread.splits if_splits)
  next
    case acquire
    with assms(2) show ?thesis by (auto simp: run_acquire_def caller_stuck_def Let_def split: prod.splits if_splits)
  next
    case shutdown
    with assms(2) show ?thesis by (auto simp: run_shutdown_def caller_stuck_def Let_def split: prod.splits if_splits)
  next
    case listen
    with assms(2) show ?thesis by (auto simp: manage_listen_def caller_stuck_def Let_def split: prod.splits if_splits)
  qed
qed (use assms(2) in \<open>auto simp: Absorb_call_def Stop_call_def caller_stuck_def split: if_splits\<close>)

interpretation callerStuck: inductive_invariant "ir_step net resolve" caller_stuck for net resolve
  by unfold_locales (rule caller_stuck_step)

lemma absorb_can_block:
  assumes m: "Maintainer_acquire net resolve (ir_lm (NewInvocation_run c props inst process session w)) w = (w', lm, s)"
    and s: "\<not> lt_Acquired s" "lt_LeaseNotRequired s"
  shows "\<exists>r. (ir_step net resolve)\<^sup>*\<^sup>* (NewInvocation_run c props inst process session w) r \<and> caller_stuck r"
proof -
  let ?r0 = "NewInvocation_run c props inst process session w"
  let ?step = "ir_step net resolve"
  have lm: "lm_listeners lm = []" "lm_running lm" "lm_state lm = s"
    using m Maintainer_simps(1) [OF m]
    by (auto simp: NewInvocation_run_def NewLeaseMaintainer_def Maintainer_Acquire_def broadcast_def Maintainer_acquire_def Let_def
        split: prod.splits)
  define r1 where "r1 = ?r0\<lparr>ir_world := w', ir_lm := lm\<rparr>"
  define r2 where "r2 = r1\<lparr>ir_lm := fst (Maintainer_Listen lm), ir_states := [s], ir_manage := MtLoop Maintaining\<rparr>"
  define r3 where "r3 la = r2\<lparr>ir_states := [], ir_inv := recordState s (ir_inv r2), ir_events := [LeaseState s 0 None la],
    ir_manage := MtDraining, ir_cleanup := CleanupReleasing\<rparr>" for la
  define r4 where "r4 la = (r3 la)\<lparr>ir_requests := [process], ir_caller := CallerAbsorbing\<rparr>" for la
  have zero: "\<not> State_IsZero s" using s(2) by (simp add: State_IsZero_def)
  have "run_acquire net resolve ?r0 = Some r1"
    using m lm(1) by (simp add: run_acquire_def NewInvocation_run_def r1_def)
  then have 1: "?step ?r0 r1" by (intro ir_step.work ir_work.acquire)
  have "manage_listen r1 = Some r2"
    using lm zero by (simp add: manage_listen_def r1_def r2_def NewInvocation_run_def Maintainer_Listen_def Let_def)
  then have 2: "?step r1 r2" by (intro ir_step.work ir_work.listen)
  have "manage_turn (LeaseState s 0 None la) r2 = Some (r3 la)" for la
    using s by (simp add: manage_turn_def r3_def r2_def r1_def NewInvocation_run_def event_ready_def manage_event_def maintain_def
        recordState_def Let_def)
  then have 3: "?step r2 (r3 la)" for la by (intro ir_step.work ir_work.turn)
  have "Absorb_call process (r3 la) = Some (r4 la)" for la
    by (simp add: Absorb_call_def r4_def r3_def r2_def r1_def NewInvocation_run_def)
  then have 4: "?step (r3 la) (r4 la)" for la by (rule ir_step.absorb)
  have "caller_stuck (r4 la)" for la
    by (simp add: caller_stuck_def r4_def r3_def r2_def r1_def NewInvocation_run_def)
  moreover have "?step\<^sup>*\<^sup>* ?r0 (r4 la)" for la
    using 1 2 3 [of la] 4 [of la] by (meson converse_rtranclp_into_rtranclp r_into_rtranclp)
  ultimately show ?thesis by blast
qed

text \<open>The timer: an invocation that waits for absorption, times out and is then stopped is never done.\<close>

lemma timeout_blocks_stop:
  assumes "ir_manage r = MtLoop (Absorbing pid)" and "ir_caller r = CallerFree" and "ir_stop r"
  shows "\<exists>r'. (ir_step net resolve)\<^sup>*\<^sup>* r r' \<and> (\<forall>r''. (ir_step net resolve)\<^sup>*\<^sup>* r' r'' \<longrightarrow> ir_caller r'' \<noteq> CallerFree)"
proof -
  let ?r1 = "r\<lparr>ir_events := ir_events r @ [AbsorptionTimeout], ir_manage := MtBlocked\<rparr>"
  let ?r2 = "?r1\<lparr>ir_ctx := True, ir_caller := CallerStopping\<rparr>"
  have "manage_turn AbsorptionTimeout r = Some ?r1"
    using assms(1) by (simp add: manage_turn_def event_ready_def manage_event_def waitForAbsorption_def Let_def)
  then have "ir_step net resolve r ?r1" by (intro ir_step.work ir_work.turn)
  moreover have "ir_step net resolve ?r1 ?r2" using assms(2,3) by (intro ir_step.stop) (simp add: Stop_call_def)
  ultimately have run: "(ir_step net resolve)\<^sup>*\<^sup>* r ?r2" by (meson converse_rtranclp_into_rtranclp r_into_rtranclp)
  have "caller_stuck ?r2" by (simp add: caller_stuck_def)
  then have "ir_caller r'' \<noteq> CallerFree" if "(ir_step net resolve)\<^sup>*\<^sup>* ?r2 r''" for r''
    using callerStuck.run_keeps [OF that] by (auto simp: caller_stuck_def)
  with run show ?thesis by blast
qed

end
