(* ===== verification/ServiceRun.thy ===== *)
theory ServiceRun
  imports Service Progress
begin

text \<open>
  The goroutines of \<^verbatim>\<open>Service.run\<close> in \<^verbatim>\<open>src/enforcer/service_windows.go\<close>: the one that cancels the context, the three
  that work on their timers, the one that waits for the four and then stops the managers, and the caller of
  \<^verbatim>\<open>Stop\<close>, which waits for that with the mutex of the service held. In \<open>Service\<close> a stop is a single step; here
  the goroutines notice the shutdown one after the other, and may take another turn before they do. The
  detailed service is shown to refine the other.
\<close>

section \<open>States\<close>

datatype gothread = NotStarted | Live | Ended

datatype runthread = NotRunning | Loading | WaitingForGroup | RunDone

record servicerun =
  sx_service :: service
  sx_shutdown :: bool
  sx_canceller :: gothread
  sx_policy :: gothread
  sx_enforce :: gothread
  sx_session :: gothread
  sx_run :: runthread
  sx_stopping :: bool

definition servicerun_New :: servicerun where
  "servicerun_New = \<lparr>sx_service = Service_New, sx_shutdown = False, sx_canceller = NotStarted, sx_policy = NotStarted,
     sx_enforce = NotStarted, sx_session = NotStarted, sx_run = NotRunning, sx_stopping = False\<rparr>"

section \<open>Operations\<close>

text \<open>\<^verbatim>\<open>Start\<close> makes the channels anew and starts \<^verbatim>\<open>run\<close>, which begins with the goroutine that cancels the context.\<close>

definition Start_call :: "servicerun \<Rightarrow> (servicerun \<times> goerror option) option" where
  "Start_call x =
     (if sx_stopping x then None
      else case Service_Start (sx_service x) of
        (s, Some err) \<Rightarrow> Some (x\<lparr>sx_service := s\<rparr>, Some err)
      | (s, None) \<Rightarrow> Some (x\<lparr>sx_service := s, sx_shutdown := False, sx_run := Loading, sx_canceller := Live,
          sx_policy := NotStarted, sx_enforce := NotStarted, sx_session := NotStarted\<rparr>, None))"

definition run_load ::
  "'r senv \<Rightarrow> (policies option \<times> goerror option) option \<Rightarrow> bool \<Rightarrow> cerr + policies option \<Rightarrow> servicerun \<Rightarrow> servicerun option" where
  "run_load E cache cached response x =
     (if sx_run x = Loading
      then Some (x\<lparr>sx_service := Service_load E cache cached response (sx_service x), sx_run := WaitingForGroup,
        sx_policy := Live, sx_enforce := Live, sx_session := Live\<rparr>)
      else None)"

text \<open>The ends of the four goroutines; that of the sessions looks at the channel only after its first scan.\<close>

definition canceller_end :: "servicerun \<Rightarrow> servicerun option" where
  "canceller_end x = (if sx_canceller x = Live \<and> sx_shutdown x then Some (x\<lparr>sx_canceller := Ended\<rparr>) else None)"

definition policy_end :: "servicerun \<Rightarrow> servicerun option" where
  "policy_end x = (if sx_policy x = Live \<and> sx_shutdown x then Some (x\<lparr>sx_policy := Ended\<rparr>) else None)"

definition enforce_end :: "servicerun \<Rightarrow> servicerun option" where
  "enforce_end x = (if sx_enforce x = Live \<and> sx_shutdown x then Some (x\<lparr>sx_enforce := Ended\<rparr>) else None)"

definition session_end :: "servicerun \<Rightarrow> servicerun option" where
  "session_end x =
     (if sx_session x = Live \<and> sv_primed (sx_service x) \<and> sx_shutdown x then Some (x\<lparr>sx_session := Ended\<rparr>) else None)"

definition run_finish :: "servicerun \<Rightarrow> servicerun option" where
  "run_finish x =
     (if sx_run x = WaitingForGroup \<and> sx_canceller x = Ended \<and> sx_policy x = Ended \<and> sx_enforce x = Ended \<and> sx_session x = Ended
      then Some (x\<lparr>sx_service := Service_shutdown (sx_service x), sx_run := RunDone\<rparr>) else None)"

definition Service_Stop_call :: "servicerun \<Rightarrow> servicerun option" where
  "Service_Stop_call x =
     (if sx_stopping x then None
      else if \<not> sv_running (sx_service x) then Some x
      else Some (x\<lparr>sx_shutdown := True, sx_stopping := True\<rparr>))"

definition Stop_return :: "servicerun \<Rightarrow> servicerun option" where
  "Stop_return x =
     (if sx_stopping x \<and> sx_run x = RunDone
      then Some (x\<lparr>sx_service := (sx_service x)\<lparr>sv_running := False\<rparr>, sx_run := NotRunning, sx_stopping := False\<rparr>) else None)"

section \<open>Steps\<close>

definition on_service :: "service \<Rightarrow> servicerun \<Rightarrow> servicerun" where
  "on_service s x = x\<lparr>sx_service := s\<rparr>"

inductive sx_work :: "'r senv \<Rightarrow> servicerun \<Rightarrow> servicerun \<Rightarrow> bool" for E where
  load: "run_load E cache cached response x = Some x' \<Longrightarrow> sx_work E x x'"
| update: "sx_policy x = Live \<Longrightarrow> sx_work E x (on_service (Service_update E cached response (sx_service x)) x)"
| enforce: "sx_enforce x = Live \<Longrightarrow> (\<And>f procs. list f = Inr procs \<Longrightarrow> distinct (map pd_UniqueID procs)) \<Longrightarrow>
    sx_work E x (on_service (Service_enforce E list now (sx_service x)) x)"
| prime_read: "sx_session x = Live \<Longrightarrow> \<not> sv_primed (sx_service x) \<Longrightarrow> sv_prime (sx_service x) = None \<Longrightarrow>
    sx_work E x (on_service ((sx_service x)\<lparr>sv_prime := Some (PolicyManager_Policies (sv_policies (sx_service x)))\<rparr>) x)"
| prime: "sx_session x = Live \<Longrightarrow> sv_prime (sx_service x) = Some pols \<Longrightarrow>
    sx_work E x (on_service (Service_prime pols found now (sx_service x)) x)"
| scan: "sx_session x = Live \<Longrightarrow> sv_primed (sx_service x) \<Longrightarrow> sx_work E x (on_service (Service_scan found now (sx_service x)) x)"
| canceller_ends: "canceller_end x = Some x' \<Longrightarrow> sx_work E x x'"
| policy_ends: "policy_end x = Some x' \<Longrightarrow> sx_work E x x'"
| enforce_ends: "enforce_end x = Some x' \<Longrightarrow> sx_work E x x'"
| session_ends: "session_end x = Some x' \<Longrightarrow> sx_work E x x'"
| finish: "run_finish x = Some x' \<Longrightarrow> sx_work E x x'"
| returns: "Stop_return x = Some x' \<Longrightarrow> sx_work E x x'"

text \<open>The calls, and the goroutines of the sessions and of the invocations.\<close>

inductive sx_step :: "'r senv \<Rightarrow> servicerun \<Rightarrow> servicerun \<Rightarrow> bool" for E where
  work: "sx_work E x x' \<Longrightarrow> sx_step E x x'"
| start: "Start_call x = Some (x', err) \<Longrightarrow> sx_step E x x'"
| stop: "Service_Stop_call x = Some x' \<Longrightarrow> sx_step E x x'"
| session: "sm_step (sv_sessions (sx_service x)) m \<Longrightarrow> sm_pols m = sm_pols (sv_sessions (sx_service x)) \<Longrightarrow>
    sx_step E x (on_service ((sx_service x)\<lparr>sv_sessions := m\<rparr>) x)"
| invocation: "map_of (pm_invocations (sv_procs (sx_service x))) inst = Some iv \<Longrightarrow>
    sx_step E x (on_service ((sx_service x)\<lparr>sv_procs := (sv_procs (sx_service x))\<lparr>pm_invocations :=
      gm_put (pm_invocations (sv_procs (sx_service x))) inst (manage ph es iv)\<rparr>\<rparr>) x)"

section \<open>The invariant\<close>

definition group_ended :: "servicerun \<Rightarrow> bool" where
  "group_ended x \<longleftrightarrow> sx_canceller x = Ended \<and> sx_policy x = Ended \<and> sx_enforce x = Ended \<and> sx_session x = Ended"

definition sx_ok :: "servicerun \<Rightarrow> bool" where
  "sx_ok x \<longleftrightarrow> (case sx_run x of
     NotRunning \<Rightarrow> \<not> sv_running (sx_service x) \<and> \<not> sv_loaded (sx_service x) \<and> \<not> sx_stopping x \<and> sx_canceller x \<noteq> Live \<and>
       sx_policy x \<noteq> Live \<and> sx_enforce x \<noteq> Live \<and> sx_session x \<noteq> Live
   | Loading \<Rightarrow> sv_running (sx_service x) \<and> \<not> sv_loaded (sx_service x) \<and> sx_stopping x = sx_shutdown x \<and>
       sx_canceller x \<noteq> NotStarted \<and> sx_policy x = NotStarted \<and> sx_enforce x = NotStarted \<and> sx_session x = NotStarted \<and>
       (sx_canceller x = Ended \<longrightarrow> sx_shutdown x)
   | WaitingForGroup \<Rightarrow> sv_running (sx_service x) \<and> sv_loaded (sx_service x) \<and> sx_stopping x = sx_shutdown x \<and>
       sx_canceller x \<noteq> NotStarted \<and> sx_policy x \<noteq> NotStarted \<and> sx_enforce x \<noteq> NotStarted \<and> sx_session x \<noteq> NotStarted \<and>
       (sx_canceller x = Ended \<or> sx_policy x = Ended \<or> sx_enforce x = Ended \<or> sx_session x = Ended \<longrightarrow> sx_shutdown x)
   | RunDone \<Rightarrow> sv_running (sx_service x) \<and> \<not> sv_loaded (sx_service x) \<and> sx_stopping x \<and> sx_shutdown x \<and> group_ended x)"

lemma service_flags [simp]:
  "sv_running (Service_update E cached response s) = sv_running s" "sv_loaded (Service_update E cached response s) = sv_loaded s"
  "sv_running (Service_enforce E list now s) = sv_running s" "sv_loaded (Service_enforce E list now s) = sv_loaded s"
  "sv_running (Service_prime pols found now s) = sv_running s" "sv_loaded (Service_prime pols found now s) = sv_loaded s"
  "sv_running (Service_scan found now s) = sv_running s" "sv_loaded (Service_scan found now s) = sv_loaded s"
  "sv_running (Service_load E cache cached response s) = sv_running s" "sv_loaded (Service_load E cache cached response s)"
  "sv_running (Service_shutdown s) = sv_running s" "\<not> sv_loaded (Service_shutdown s)"
  by (simp_all add: Service_update_def Service_enforce_def Service_prime_def Service_scan_def Service_load_def
      Service_shutdown_def Let_def split: prod.split)

lemma on_service_simps [simp]:
  "sx_service (on_service s x) = s" "sx_shutdown (on_service s x) = sx_shutdown x" "sx_canceller (on_service s x) = sx_canceller x"
  "sx_policy (on_service s x) = sx_policy x" "sx_enforce (on_service s x) = sx_enforce x" "sx_session (on_service s x) = sx_session x"
  "sx_run (on_service s x) = sx_run x" "sx_stopping (on_service s x) = sx_stopping x"
  by (simp_all add: on_service_def)

lemma on_service_ok:
  "sx_ok x \<Longrightarrow> sv_running s = sv_running (sx_service x) \<Longrightarrow> sv_loaded s = sv_loaded (sx_service x) \<Longrightarrow> sx_ok (on_service s x)"
  by (cases "sx_run x") (simp_all add: sx_ok_def group_ended_def)

lemma sx_work_ok: "sx_work E x x' \<Longrightarrow> sx_ok x \<Longrightarrow> sx_ok x'"
proof (induction rule: sx_work.induct)
  case (load cache cached response x x')
  then show ?case by (cases "sx_run x") (auto simp: run_load_def sx_ok_def group_ended_def split: if_splits)
next
  case (canceller_ends x x')
  then show ?case by (cases "sx_run x") (auto simp: canceller_end_def sx_ok_def group_ended_def split: if_splits)
next
  case (policy_ends x x')
  then show ?case by (cases "sx_run x") (auto simp: policy_end_def sx_ok_def group_ended_def split: if_splits)
next
  case (enforce_ends x x')
  then show ?case by (cases "sx_run x") (auto simp: enforce_end_def sx_ok_def group_ended_def split: if_splits)
next
  case (session_ends x x')
  then show ?case by (cases "sx_run x") (auto simp: session_end_def sx_ok_def group_ended_def split: if_splits)
next
  case (finish x x')
  then show ?case by (cases "sx_run x") (auto simp: run_finish_def sx_ok_def group_ended_def split: if_splits)
next
  case (returns x x')
  then show ?case by (cases "sx_run x") (auto simp: Stop_return_def sx_ok_def group_ended_def split: if_splits)
qed (simp_all add: on_service_ok)

lemma sx_step_ok: "sx_step E x x' \<Longrightarrow> sx_ok x \<Longrightarrow> sx_ok x'"
proof (induction rule: sx_step.induct)
  case (work x x')
  then show ?case by (rule sx_work_ok)
next
  case (start x x' err)
  then show ?case
    by (cases "sx_run x") (auto simp: Start_call_def Service_Start_def sx_ok_def group_ended_def split: if_splits)
next
  case (stop x x')
  then show ?case by (cases "sx_run x") (auto simp: Service_Stop_call_def sx_ok_def group_ended_def split: if_splits)
qed (simp_all add: on_service_ok)

lemma servicerun_New_ok: "sx_ok servicerun_New"
  by (simp add: sx_ok_def servicerun_New_def Service_New_def)

interpretation serviceInv: initial_invariant "sx_step E" sx_ok servicerun_New for E
  by unfold_locales (rule sx_step_ok, assumption+, rule servicerun_New_ok)

section \<open>The detailed service refines the service\<close>

text \<open>In the view of its users the service stops when \<^verbatim>\<open>run\<close> has stopped the managers.\<close>

definition sx_view :: "servicerun \<Rightarrow> service" where
  "sx_view x = (if sx_run x = RunDone then (sx_service x)\<lparr>sv_running := False\<rparr> else sx_service x)"

lemma sx_work_refines:
  assumes "sx_work E x x'" and "sx_ok x"
  shows "(sv_step E)\<^sup>=\<^sup>= (sx_view x) (sx_view x')"
  using assms(1)
proof cases
  case (load cache cached response)
  with assms(2) have "sv_step E (sx_service x) (Service_load E cache cached response (sx_service x))"
    by (intro sv_step.load) (auto simp: run_load_def sx_ok_def split: if_splits)
  with load show ?thesis by (auto simp: run_load_def sx_view_def split: if_splits)
next
  case (update cached response)
  with assms(2) have "sx_run x = WaitingForGroup" "sv_loaded (sx_service x)"
    by (auto simp: sx_ok_def group_ended_def split: runthread.splits)
  with update show ?thesis by (auto simp: sx_view_def intro: sv_step.update)
next
  case (enforce list now)
  with assms(2) have "sx_run x = WaitingForGroup" "sv_loaded (sx_service x)"
    by (auto simp: sx_ok_def group_ended_def split: runthread.splits)
  with enforce show ?thesis by (auto simp: sx_view_def intro: sv_step.enforce)
next
  case prime_read
  with assms(2) have "sx_run x = WaitingForGroup" "sv_loaded (sx_service x)"
    by (auto simp: sx_ok_def group_ended_def split: runthread.splits)
  with prime_read show ?thesis by (auto simp: sx_view_def intro: sv_step.prime_read)
next
  case (prime pols found now)
  with assms(2) have "sx_run x = WaitingForGroup" by (auto simp: sx_ok_def group_ended_def split: runthread.splits)
  with prime show ?thesis by (auto simp: sx_view_def intro: sv_step.prime)
next
  case (scan found now)
  with assms(2) have "sx_run x = WaitingForGroup" by (auto simp: sx_ok_def group_ended_def split: runthread.splits)
  with scan show ?thesis by (auto simp: sx_view_def intro: sv_step.scan)
next
  case finish
  then have x: "sx_run x = WaitingForGroup" "x' = x\<lparr>sx_service := Service_shutdown (sx_service x), sx_run := RunDone\<rparr>"
    by (simp_all add: run_finish_def split: if_splits)
  with assms(2) have "sx_view x' = Service_Stop (sx_view x)"
    by (simp add: sx_view_def Service_Stop_def sx_ok_def)
  then show ?thesis using sv_step.stop [of E "sx_view x"] by simp
qed (auto simp: sx_view_def canceller_end_def policy_end_def enforce_end_def session_end_def Stop_return_def split: if_splits)

lemma sx_step_refines:
  assumes "sx_step E x x'" and "sx_ok x"
  shows "(sv_step E)\<^sup>*\<^sup>* (sx_view x) (sx_view x')"
  using assms(1)
proof cases
  case work
  from sx_work_refines [OF work assms(2)] show ?thesis by auto
next
  case (start err)
  then have "x' = x \<or> sv_step E (sx_service x) (sx_service x') \<and> sx_run x = NotRunning \<and> sx_run x' = Loading"
    using assms(2) by (auto simp: Start_call_def Service_Start_def sx_ok_def split: if_splits runthread.splits intro: sv_step.start)
  then show ?thesis by (auto simp: sx_view_def)
next
  case stop
  then show ?thesis by (auto simp: Service_Stop_call_def sx_view_def split: if_splits)
next
  case (session m)
  have "sm_step (sv_sessions (sx_view x)) m" "sm_pols m = sm_pols (sv_sessions (sx_view x))"
    using session by (simp_all add: sx_view_def)
  moreover have "sx_view x' = (sx_view x)\<lparr>sv_sessions := m\<rparr>"
    using session by (cases "sx_service x") (simp add: sx_view_def on_service_def)
  ultimately show ?thesis using sv_step.session [where E = E] by (metis r_into_rtranclp)
next
  case (invocation inst iv ph es)
  have "map_of (pm_invocations (sv_procs (sx_view x))) inst = Some iv" using invocation by (simp add: sx_view_def)
  moreover have "sx_view x' = (sx_view x)\<lparr>sv_procs := (sv_procs (sx_view x))\<lparr>pm_invocations :=
      gm_put (pm_invocations (sv_procs (sx_view x))) inst (manage ph es iv)\<rparr>\<rparr>"
    using invocation by (cases "sx_service x") (simp add: sx_view_def on_service_def)
  ultimately show ?thesis using sv_step.invocation [where E = E] by (metis r_into_rtranclp)
qed

interpretation serviceThreads: step_refinement "sx_step E" sx_ok "sv_step E" sx_view for E
  by unfold_locales (rule sx_step_ok, assumption+, rule sx_step_refines)

section \<open>Stopping the service\<close>

definition managers_stopped :: "service \<Rightarrow> bool" where
  "managers_stopped s \<longleftrightarrow> pm_invocations (sv_procs s) = [] \<and> pm_managed (sv_procs s) = [] \<and> sm_managed (sv_sessions s) = []"

definition sx_closing :: "servicerun \<Rightarrow> bool" where
  "sx_closing x \<longleftrightarrow> sx_ok x \<and> (sx_stopping x \<or> sx_run x = NotRunning) \<and>
     (sx_run x = RunDone \<or> sx_run x = NotRunning \<longrightarrow> managers_stopped (sx_service x))"

definition live_left :: "gothread \<Rightarrow> nat" where
  "live_left g = (if g = Live then 1 else 0)"

definition sx_left :: "servicerun \<Rightarrow> nat" where
  "sx_left x = (case sx_run x of NotRunning \<Rightarrow> 0 | Loading \<Rightarrow> 30 | WaitingForGroup \<Rightarrow> 10 | RunDone \<Rightarrow> 1) +
     live_left (sx_canceller x) + live_left (sx_policy x) + live_left (sx_enforce x) + live_left (sx_session x) +
     (if sv_primed (sx_service x) then 0 else if sv_prime (sx_service x) = None then 2 else 1)"

lemma live_left_simps [simp]: "live_left Live = 1" "live_left Ended = 0"
  by (simp_all add: live_left_def)

lemma live_threads:
  assumes "sx_ok x" and "sx_policy x = Live \<or> sx_enforce x = Live \<or> sx_session x = Live"
  shows "sx_run x = WaitingForGroup"
  using assms by (cases "sx_run x") (auto simp: sx_ok_def group_ended_def)

lemma shutdown_stops: "managers_stopped (Service_shutdown s)"
  by (simp add: managers_stopped_def Service_shutdown_def ProcessManager_Stop_def SessionManager_Stop_def)

lemma closing_keeps:
  assumes "sx_work E x x'" and "sx_closing x"
  shows "sx_closing x'"
proof -
  have ok: "sx_ok x" "sx_ok x'" using assms sx_work_ok by (auto simp: sx_closing_def)
  from assms(1) have "(sx_stopping x' \<or> sx_run x' = NotRunning) \<and>
    (sx_run x' = RunDone \<or> sx_run x' = NotRunning \<longrightarrow> managers_stopped (sx_service x'))"
  proof cases
    case finish
    then show ?thesis using assms(2) shutdown_stops by (auto simp: run_finish_def sx_closing_def split: if_splits)
  next
    case returns
    then show ?thesis using assms(2) by (auto simp: Stop_return_def sx_closing_def managers_stopped_def split: if_splits)
  qed (use assms(2) live_threads [OF ok(1)] in \<open>auto simp: sx_closing_def run_load_def canceller_end_def policy_end_def
    enforce_end_def session_end_def split: if_splits\<close>)
  with ok(2) show ?thesis by (simp add: sx_closing_def)
qed

lemma closing_progress:
  assumes "sx_closing x" and "sx_run x \<noteq> NotRunning"
  shows "\<exists>x'. sx_work E x x' \<and> sx_left x' < sx_left x"
proof -
  have ok: "sx_ok x" and st: "sx_stopping x" using assms by (auto simp: sx_closing_def)
  show ?thesis
  proof (cases "sx_run x")
    case Loading
    obtain x' where l: "run_load E None False (Inr None) x = Some x'" using Loading by (simp add: run_load_def)
    then have "sx_run x' = WaitingForGroup" by (auto simp: run_load_def split: if_splits)
    moreover have "live_left g \<le> 1" for g by (simp add: live_left_def)
    from this [of "sx_canceller x'"] this [of "sx_policy x'"] this [of "sx_enforce x'"] this [of "sx_session x'"] calculation
    have "sx_left x' \<le> 16" by (simp add: sx_left_def)
    moreover have "30 \<le> sx_left x" using Loading by (simp add: sx_left_def)
    ultimately have "sx_left x' < sx_left x" by simp
    with sx_work.load [OF l] show ?thesis by blast
  next
    case RunDone
    obtain x' where l: "Stop_return x = Some x'" using RunDone st by (simp add: Stop_return_def)
    with RunDone st have "sx_left x' < sx_left x" by (auto simp: Stop_return_def sx_left_def)
    with sx_work.returns [OF l] show ?thesis by blast
  next
    case WaitingForGroup
    with ok st have sh: "sx_shutdown x" by (simp add: sx_ok_def)
    have "g = Live \<or> g = Ended" if "g \<noteq> NotStarted" for g using that by (cases g) simp_all
    moreover have "sx_canceller x \<noteq> NotStarted" "sx_policy x \<noteq> NotStarted" "sx_enforce x \<noteq> NotStarted" "sx_session x \<noteq> NotStarted"
      using ok WaitingForGroup by (simp_all add: sx_ok_def)
    ultimately have ended: "sx_canceller x = Live \<or> sx_canceller x = Ended" "sx_policy x = Live \<or> sx_policy x = Ended"
      "sx_enforce x = Live \<or> sx_enforce x = Ended" "sx_session x = Live \<or> sx_session x = Ended" by simp_all
    consider "sx_canceller x = Live" | "sx_policy x = Live" | "sx_enforce x = Live" | "sx_session x = Live" | "group_ended x"
      using ended unfolding group_ended_def by blast
    then show ?thesis
    proof cases
      case 1
      with sh have "canceller_end x = Some (x\<lparr>sx_canceller := Ended\<rparr>)" by (simp add: canceller_end_def)
      moreover have "sx_left (x\<lparr>sx_canceller := Ended\<rparr>) < sx_left x" using 1 by (simp add: sx_left_def)
      ultimately show ?thesis using sx_work.canceller_ends by blast
    next
      case 2
      with sh have "policy_end x = Some (x\<lparr>sx_policy := Ended\<rparr>)" by (simp add: policy_end_def)
      moreover have "sx_left (x\<lparr>sx_policy := Ended\<rparr>) < sx_left x" using 2 by (simp add: sx_left_def)
      ultimately show ?thesis using sx_work.policy_ends by blast
    next
      case 3
      with sh have "enforce_end x = Some (x\<lparr>sx_enforce := Ended\<rparr>)" by (simp add: enforce_end_def)
      moreover have "sx_left (x\<lparr>sx_enforce := Ended\<rparr>) < sx_left x" using 3 by (simp add: sx_left_def)
      ultimately show ?thesis using sx_work.enforce_ends by blast
    next
      case 4
      consider "sv_primed (sx_service x)" | "\<not> sv_primed (sx_service x)" "sv_prime (sx_service x) = None"
        | pols where "\<not> sv_primed (sx_service x)" "sv_prime (sx_service x) = Some pols" by blast
      then show ?thesis
      proof cases
        case 1
        with 4 sh have "session_end x = Some (x\<lparr>sx_session := Ended\<rparr>)" by (simp add: session_end_def)
        moreover have "sx_left (x\<lparr>sx_session := Ended\<rparr>) < sx_left x" using 4 by (simp add: sx_left_def)
        ultimately show ?thesis using sx_work.session_ends by blast
      next
        case 2
        then have "sx_left (on_service ((sx_service x)\<lparr>sv_prime := Some (PolicyManager_Policies (sv_policies (sx_service x)))\<rparr>) x) < sx_left x"
          by (simp add: sx_left_def)
        with sx_work.prime_read [OF 4 2] show ?thesis by blast
      next
        case (3 pols)
        then have "sx_left (on_service (Service_prime pols (Inr []) 0 (sx_service x)) x) < sx_left x"
          by (simp add: sx_left_def Service_prime_def)
        with sx_work.prime [OF 4 3(2)] show ?thesis by blast
      qed
    next
      case 5
      obtain x' where l: "run_finish x = Some x'" using 5 WaitingForGroup by (simp add: run_finish_def group_ended_def)
      with WaitingForGroup have "sx_left x' < sx_left x" by (auto simp: run_finish_def sx_left_def Service_shutdown_def split: if_splits)
      with sx_work.finish [OF l] show ?thesis by blast
    qed
  qed (use assms(2) in simp)
qed

interpretation serviceStop: winding_down "sx_work E" sx_closing "\<lambda>x. sx_run x = NotRunning" sx_left for E
  by unfold_locales (rule closing_keeps, assumption+, rule closing_progress)

lemma Service_Stop_call_closing:
  "sx_ok x \<Longrightarrow> sv_running (sx_service x) \<Longrightarrow> Service_Stop_call x = Some x' \<Longrightarrow> sx_closing x'"
  using sx_step_ok [OF sx_step.stop, of x x']
  by (cases "sx_run x") (auto simp: Service_Stop_call_def sx_closing_def sx_ok_def split: if_splits)

text \<open>When \<^verbatim>\<open>Stop\<close> has returned, none of the goroutines of \<^verbatim>\<open>run\<close> is left.\<close>

lemma not_running_state:
  "sx_closing x \<Longrightarrow> sx_run x = NotRunning \<Longrightarrow> \<not> sv_running (sx_service x) \<and> managers_stopped (sx_service x) \<and>
    sx_canceller x \<noteq> Live \<and> sx_policy x \<noteq> Live \<and> sx_enforce x \<noteq> Live \<and> sx_session x \<noteq> Live"
  by (auto simp: sx_closing_def sx_ok_def)

lemma service_stop_completes:
  assumes "sx_ok x" and "sv_running (sx_service x)" and "Service_Stop_call x = Some x1"
  shows "\<exists>x'. (sx_work E)\<^sup>*\<^sup>* x1 x' \<and> sx_run x' = NotRunning \<and> \<not> sv_running (sx_service x') \<and> managers_stopped (sx_service x') \<and>
    sx_canceller x' \<noteq> Live \<and> sx_policy x' \<noteq> Live \<and> sx_enforce x' \<noteq> Live \<and> sx_session x' \<noteq> Live"
  using serviceStop.reaches_final [OF Service_Stop_call_closing [OF assms]] not_running_state by blast

end
