(* ===== verification/SessionRun.thy ===== *)
theory SessionRun
  imports Commands Progress "HOL-Library.Sublist"
begin

text \<open>
  The connection of a session with its user interface process: the message stream
  (\<^verbatim>\<open>src/enforcerui/writer.go\<close>, \<^verbatim>\<open>src/enforcerui/reader.go\<close>), the goroutines that \<^verbatim>\<open>Session.Connect\<close> starts
  (\<^verbatim>\<open>src/enforcer/session_windows.go\<close>) and the loop of the \<^verbatim>\<open>ui\<close> command at the other end of the pipe. A session may
  be connected more than once; the goroutines of an earlier connection can still be there when the next one begins. The
  text of a message, which \<^verbatim>\<open>encoding/json\<close> writes and reads, is the parameter \<open>msgcodec\<close>, over any type of symbols.
\<close>

section \<open>The message stream\<close>

text \<open>A decoder that needs more input answers \<open>None\<close>.\<close>

record 'b msgcodec =
  mc_Encode :: "message \<Rightarrow> goerror + 'b list"
  mc_Decode :: "'b list \<Rightarrow> (goerror + message \<times> 'b list) option"

definition stream_codec :: "'b msgcodec \<Rightarrow> bool" where
  "stream_codec mc \<longleftrightarrow> mc_Decode mc [] = None \<and>
     (\<forall>msg b rest. mc_Encode mc msg = Inr b \<longrightarrow> mc_Decode mc (b @ rest) = Some (Inr (msg, rest)))"

definition Writer_Write :: "'b msgcodec \<Rightarrow> message \<Rightarrow> 'b list \<Rightarrow> 'b list \<times> goerror option" where
  "Writer_Write mc msg pipe = (case mc_Encode mc msg of Inl err \<Rightarrow> (pipe, Some err) | Inr b \<Rightarrow> (pipe @ b, None))"

definition Reader_Read :: "'b msgcodec \<Rightarrow> bool \<Rightarrow> 'b list \<Rightarrow> ((readError + message) \<times> 'b list) option" where
  "Reader_Read mc eof pipe =
     (case mc_Decode mc pipe of
        Some (Inr (msg, rest)) \<Rightarrow> Some (Inr msg, rest)
      | Some (Inl err) \<Rightarrow> Some (Inl (ReadError err), pipe)
      | None \<Rightarrow> if \<not> eof then None else if pipe = [] then Some (Inl EOF, []) else Some (Inl (ReadError ''unexpected EOF''), pipe))"

section \<open>States\<close>

text \<open>
  A connection: the context that kills its process, the goroutine that writes, the pipe (what is in it and whether it
  is closed), the process with its user interface, and the goroutine that waits for the process. \<open>cn_written\<close> are
  the messages that went into the pipe, \<open>cn_read\<close> those that the process has handled.
\<close>

datatype waiterthread = CnWaiting | CnUnlocked | CnStopped

record 'b conn =
  cn_ctx :: bool
  cn_writer :: bool
  cn_pipe :: "'b list"
  cn_eof :: bool
  cn_process :: bool
  cn_ui :: ui
  cn_waiter :: waiterthread
  cn_written :: "message list"
  cn_read :: "message list"

text \<open>
  \<open>sn_accepted\<close> are the messages \<^verbatim>\<open>Send\<close> has accepted, \<open>sn_taken\<close> those taken from the channel, with the connection whose
  goroutine took them; \<open>sn_waiting\<close> is the connection a caller of \<^verbatim>\<open>Disconnect\<close> waits for.
\<close>

record 'b sessionrun =
  sn_session :: session
  sn_conns :: "'b conn list"
  sn_accepted :: "message list"
  sn_taken :: "(nat \<times> message) list"
  sn_waiting :: "nat option"

definition ui_start :: ui where
  "ui_start = (case UI_New None of Inr u \<Rightarrow> u | Inl err \<Rightarrow> \<lparr>ui_state = \<lparr>us_Policies = [], us_Leases = [], us_Running = []\<rparr>, ui_tray = None\<rparr>)"

definition new_conn :: "'b conn" where
  "new_conn = \<lparr>cn_ctx = False, cn_writer = True, cn_pipe = [], cn_eof = False, cn_process = True, cn_ui = ui_start,
     cn_waiter = CnWaiting, cn_written = [], cn_read = []\<rparr>"

definition sessionrun_New :: "nat \<Rightarrow> string \<Rightarrow> string \<Rightarrow> 'b sessionrun" where
  "sessionrun_New key user domain = \<lparr>sn_session = NewSession key user domain, sn_conns = [], sn_accepted = [], sn_taken = [],
     sn_waiting = None\<rparr>"

section \<open>Operations\<close>

definition sn_send :: "message \<Rightarrow> 'b sessionrun \<Rightarrow> 'b sessionrun" where
  "sn_send msg x =
     (case Session_Send msg (sn_session x) of
        (s, True) \<Rightarrow> x\<lparr>sn_session := s, sn_accepted := sn_accepted x @ [msg]\<rparr>
      | (s, False) \<Rightarrow> x\<lparr>sn_session := s\<rparr>)"

definition sn_connect :: "launch \<Rightarrow> 'b sessionrun \<Rightarrow> 'b sessionrun" where
  "sn_connect la x =
     (case Session_Connect la (sn_session x) of
        (s, None) \<Rightarrow> x\<lparr>sn_session := s, sn_conns := sn_conns x @ [new_conn]\<rparr>
      | (s, Some err) \<Rightarrow> x\<lparr>sn_session := s\<rparr>)"

definition conn_at :: "nat \<Rightarrow> 'b sessionrun \<Rightarrow> 'b conn option" where
  "conn_at i x = (if i < length (sn_conns x) then Some (sn_conns x ! i) else None)"

definition put_conn :: "nat \<Rightarrow> 'b conn \<Rightarrow> 'b sessionrun \<Rightarrow> 'b sessionrun" where
  "put_conn i c x = x\<lparr>sn_conns := (sn_conns x)[i := c]\<rparr>"

text \<open>The goroutine that writes: a message for a process that has gone is lost, and so is one that cannot be encoded.\<close>

definition conn_write :: "'b msgcodec \<Rightarrow> message \<Rightarrow> 'b conn \<Rightarrow> 'b conn" where
  "conn_write mc msg c =
     (if \<not> cn_process c then c
      else case Writer_Write mc msg (cn_pipe c) of
        (pipe, None) \<Rightarrow> c\<lparr>cn_pipe := pipe, cn_written := cn_written c @ [msg]\<rparr>
      | (pipe, Some err) \<Rightarrow> c)"

definition writer_take :: "'b msgcodec \<Rightarrow> nat \<Rightarrow> 'b sessionrun \<Rightarrow> 'b sessionrun option" where
  "writer_take mc i x =
     (case (conn_at i x, Session_deliver (sn_session x)) of
        (Some c, Some (msg, s)) \<Rightarrow>
          if cn_writer c then Some ((put_conn i (conn_write mc msg c) x)\<lparr>sn_session := s, sn_taken := sn_taken x @ [(i, msg)]\<rparr>) else None
      | _ \<Rightarrow> None)"

definition conn_writer_end :: "'b conn \<Rightarrow> 'b conn option" where
  "conn_writer_end c = (if cn_writer c \<and> cn_ctx c then Some (c\<lparr>cn_writer := False, cn_eof := True\<rparr>) else None)"

text \<open>A turn of the process: it reads a message and handles it, or it ends.\<close>

definition conn_read :: "'b msgcodec \<Rightarrow> 'b conn \<Rightarrow> 'b conn option" where
  "conn_read mc c =
     (if \<not> cn_process c then None
      else case Reader_Read mc (cn_eof c) (cn_pipe c) of
        None \<Rightarrow> None
      | Some (r, rest) \<Rightarrow>
          (case UICmd_loop [r] (cn_ui c) of
             (u, None) \<Rightarrow> Some (c\<lparr>cn_pipe := rest, cn_ui := u, cn_read := cn_read c @ (case r of Inr msg \<Rightarrow> [msg] | Inl err \<Rightarrow> [])\<rparr>)
           | (u, Some code) \<Rightarrow> Some (c\<lparr>cn_ui := u, cn_process := False\<rparr>)))"

definition conn_exit :: "'b conn \<Rightarrow> 'b conn" where
  "conn_exit c = c\<lparr>cn_process := False\<rparr>"

text \<open>The goroutine that waits for the process: it resets the fields of the session, and then cancels the context.\<close>

definition conn_reset :: "'b conn \<Rightarrow> 'b conn option" where
  "conn_reset c = (if cn_waiter c = CnWaiting \<and> \<not> cn_process c then Some (c\<lparr>cn_waiter := CnUnlocked\<rparr>) else None)"

definition conn_stopped :: "'b conn \<Rightarrow> 'b conn option" where
  "conn_stopped c = (if cn_waiter c = CnUnlocked then Some (c\<lparr>cn_waiter := CnStopped, cn_ctx := True\<rparr>) else None)"

definition Disconnect_call :: "'b sessionrun \<Rightarrow> 'b sessionrun option" where
  "Disconnect_call x =
     (if sn_waiting x \<noteq> None then None
      else if \<not> ss_connected (sn_session x) then Some x
      else let i = length (sn_conns x) - 1
           in Some ((put_conn i ((sn_conns x ! i)\<lparr>cn_ctx := True\<rparr>) x)\<lparr>sn_waiting := Some i\<rparr>))"

definition Disconnect_return :: "'b sessionrun \<Rightarrow> 'b sessionrun option" where
  "Disconnect_return x =
     (case sn_waiting x of
        Some i \<Rightarrow> if cn_waiter (sn_conns x ! i) = CnStopped then Some (x\<lparr>sn_waiting := None\<rparr>) else None
      | None \<Rightarrow> None)"

section \<open>Steps\<close>

inductive sn_work :: "'b msgcodec \<Rightarrow> 'b sessionrun \<Rightarrow> 'b sessionrun \<Rightarrow> bool" for mc where
  take: "writer_take mc i x = Some x' \<Longrightarrow> sn_work mc x x'"
| writer_end: "conn_at i x = Some c \<Longrightarrow> conn_writer_end c = Some c' \<Longrightarrow> sn_work mc x (put_conn i c' x)"
| read: "conn_at i x = Some c \<Longrightarrow> conn_read mc c = Some c' \<Longrightarrow> sn_work mc x (put_conn i c' x)"
| killed: "conn_at i x = Some c \<Longrightarrow> cn_process c \<Longrightarrow> cn_ctx c \<Longrightarrow> sn_work mc x (put_conn i (conn_exit c) x)"
| reset: "conn_at i x = Some c \<Longrightarrow> conn_reset c = Some c' \<Longrightarrow>
    sn_work mc x ((put_conn i c' x)\<lparr>sn_session := (sn_session x)\<lparr>ss_connected := False\<rparr>\<rparr>)"
| stopped: "conn_at i x = Some c \<Longrightarrow> conn_stopped c = Some c' \<Longrightarrow> sn_work mc x (put_conn i c' x)"
| returns: "Disconnect_return x = Some x' \<Longrightarrow> sn_work mc x x'"

text \<open>The calls of the session, and a process that ends for reasons of its own.\<close>

inductive sn_step :: "'b msgcodec \<Rightarrow> 'b sessionrun \<Rightarrow> 'b sessionrun \<Rightarrow> bool" for mc where
  work: "sn_work mc x x' \<Longrightarrow> sn_step mc x x'"
| send: "sn_step mc x (sn_send msg x)"
| connect: "sn_step mc x (sn_connect la x)"
| disconnect: "Disconnect_call x = Some x' \<Longrightarrow> sn_step mc x x'"
| exit: "conn_at i x = Some c \<Longrightarrow> sn_step mc x (put_conn i (conn_exit c) x)"

section \<open>What is in a pipe\<close>

fun encodes :: "'b msgcodec \<Rightarrow> message list \<Rightarrow> 'b list option" where
  "encodes mc [] = Some []"
| "encodes mc (msg # msgs) =
     (case mc_Encode mc msg of Inl err \<Rightarrow> None | Inr b \<Rightarrow> (case encodes mc msgs of None \<Rightarrow> None | Some bs \<Rightarrow> Some (b @ bs)))"

lemma encodes_snoc: "encodes mc msgs = Some pipe \<Longrightarrow> mc_Encode mc msg = Inr b \<Longrightarrow> encodes mc (msgs @ [msg]) = Some (pipe @ b)"
  by (induction msgs arbitrary: pipe) (auto split: sum.splits option.splits)

lemma encodes_read:
  assumes "stream_codec mc" and "encodes mc (msg # msgs) = Some pipe"
  shows "\<exists>rest. Reader_Read mc eof pipe = Some (Inr msg, rest) \<and> encodes mc msgs = Some rest"
  using assms by (fastforce simp: Reader_Read_def stream_codec_def split: sum.splits option.splits)

lemma empty_read: "stream_codec mc \<Longrightarrow> Reader_Read mc eof [] = (if eof then Some (Inl EOF, []) else None)"
  by (simp add: Reader_Read_def stream_codec_def)

text \<open>A stream of messages that were written is read back, one by one.\<close>

fun read_all :: "'b msgcodec \<Rightarrow> nat \<Rightarrow> 'b list \<Rightarrow> message list" where
  "read_all mc 0 pipe = []"
| "read_all mc (Suc n) pipe = (case Reader_Read mc True pipe of Some (Inr msg, rest) \<Rightarrow> msg # read_all mc n rest | _ \<Rightarrow> [])"

lemma stream_roundtrip: "stream_codec mc \<Longrightarrow> encodes mc msgs = Some pipe \<Longrightarrow> read_all mc (length msgs) pipe = msgs"
proof (induction msgs arbitrary: pipe)
  case (Cons msg msgs)
  from encodes_read [OF Cons.prems, of True] Cons.IH [OF Cons.prems(1)] show ?case by auto
qed simp

section \<open>The invariant\<close>

definition taken_by :: "nat \<Rightarrow> (nat \<times> message) list \<Rightarrow> message list" where
  "taken_by i taken = map snd (filter (\<lambda>p. fst p = i) taken)"

abbreviation handled :: "message list \<Rightarrow> ui" where
  "handled msgs \<equiv> foldl (\<lambda>u msg. UI_Handle msg u) ui_start msgs"

definition conn_ok :: "'b msgcodec \<Rightarrow> message list \<Rightarrow> 'b conn \<Rightarrow> bool" where
  "conn_ok mc taken c \<longleftrightarrow>
     (\<exists>msgs. cn_written c = cn_read c @ msgs \<and> encodes mc msgs = Some (cn_pipe c)) \<and>
     (cn_process c \<longrightarrow> cn_ui c = handled (cn_read c) \<and> cn_waiter c = CnWaiting) \<and>
     subseq (cn_written c) taken \<and>
     (cn_process c \<and> (\<forall>msg \<in> set taken. \<exists>b. mc_Encode mc msg = Inr b) \<longrightarrow> cn_written c = taken)"

definition waiters_ok :: "'b sessionrun \<Rightarrow> bool" where
  "waiters_ok x \<longleftrightarrow>
     (\<forall>i < length (sn_conns x). cn_waiter (sn_conns x ! i) = CnWaiting \<longrightarrow> Suc i = length (sn_conns x) \<and> ss_connected (sn_session x)) \<and>
     (ss_connected (sn_session x) \<longrightarrow> sn_conns x \<noteq> [] \<and> cn_waiter (sn_conns x ! (length (sn_conns x) - 1)) = CnWaiting) \<and>
     (\<forall>i. sn_waiting x = Some i \<longrightarrow> i < length (sn_conns x) \<and> cn_ctx (sn_conns x ! i))"

definition sn_ok :: "'b msgcodec \<Rightarrow> 'b sessionrun \<Rightarrow> bool" where
  "sn_ok mc x \<longleftrightarrow>
     (\<forall>i < length (sn_conns x). conn_ok mc (taken_by i (sn_taken x)) (sn_conns x ! i)) \<and> waiters_ok x \<and>
     sn_accepted x = map snd (sn_taken x) @ ss_outbound (sn_session x) \<and>
     list_all (\<lambda>p. fst p < length (sn_conns x)) (sn_taken x)"

lemma taken_by_snoc [simp]: "taken_by i (taken @ [(j, msg)]) = taken_by i taken @ (if i = j then [msg] else [])"
  by (simp add: taken_by_def)

lemma taken_by_subseq: "subseq (taken_by i taken) (map snd taken)"
  unfolding taken_by_def by (rule subseq_map) (rule subseq_filter_left)

lemma conn_at_iff: "conn_at i x = Some c \<longleftrightarrow> i < length (sn_conns x) \<and> sn_conns x ! i = c"
  by (auto simp: conn_at_def)

lemma put_conn_simps [simp]:
  "sn_session (put_conn i c x) = sn_session x" "sn_accepted (put_conn i c x) = sn_accepted x" "sn_taken (put_conn i c x) = sn_taken x"
  "sn_waiting (put_conn i c x) = sn_waiting x" "sn_conns (put_conn i c x) = (sn_conns x)[i := c]"
  by (simp_all add: put_conn_def)

lemma put_conn_ok:
  assumes "sn_ok mc x" and "conn_at i x = Some c" and "conn_ok mc (taken_by i (sn_taken x)) c'"
    and "cn_waiter c' = cn_waiter c \<or> cn_waiter c \<noteq> CnWaiting \<and> cn_waiter c' \<noteq> CnWaiting" and "cn_ctx c \<longrightarrow> cn_ctx c'"
  shows "sn_ok mc (put_conn i c' x)"
  using assms by (auto simp: sn_ok_def waiters_ok_def conn_at_iff nth_list_update)

lemma sn_ok_waiting:
  "sn_ok mc x \<Longrightarrow> i < length (sn_conns x) \<Longrightarrow> cn_ctx (sn_conns x ! i) \<Longrightarrow> sn_ok mc (x\<lparr>sn_waiting := Some i\<rparr>)"
  "sn_ok mc x \<Longrightarrow> sn_ok mc (x\<lparr>sn_waiting := None\<rparr>)"
  by (simp_all add: sn_ok_def waiters_ok_def)

lemma conn_write_ok:
  assumes "conn_ok mc taken c"
  shows "conn_ok mc (taken @ [msg]) (conn_write mc msg c)"
proof (cases "cn_process c")
  case True
  show ?thesis
  proof (cases "mc_Encode mc msg")
    case (Inr b)
    from assms obtain msgs where "cn_written c = cn_read c @ msgs" "encodes mc msgs = Some (cn_pipe c)" by (auto simp: conn_ok_def)
    with encodes_snoc [OF this(2) Inr] have "\<exists>ms. cn_written c @ [msg] = cn_read c @ ms \<and> encodes mc ms = Some (cn_pipe c @ b)"
      by (intro exI [of _ "msgs @ [msg]"]) simp
    with assms True Inr show ?thesis
      by (simp add: conn_ok_def conn_write_def Writer_Write_def list_emb_append_mono)
  next
    case (Inl err)
    with assms True show ?thesis
      by (simp add: conn_ok_def conn_write_def Writer_Write_def subseq_rev_drop_many)
  qed
qed (use assms in \<open>simp add: conn_ok_def conn_write_def subseq_rev_drop_many\<close>)

lemma conn_read_ok:
  assumes "stream_codec mc" and "conn_ok mc taken c" and "conn_read mc c = Some c'"
  shows "conn_ok mc taken c' \<and> cn_waiter c' = cn_waiter c \<and> cn_ctx c' = cn_ctx c"
proof -
  have run: "cn_process c" using assms(3) by (simp add: conn_read_def split: if_splits)
  from assms(2) obtain msgs where m: "cn_written c = cn_read c @ msgs" "encodes mc msgs = Some (cn_pipe c)" by (auto simp: conn_ok_def)
  show ?thesis
  proof (cases msgs)
    case Nil
    with m assms(3) run empty_read [OF assms(1), of "cn_eof c"] have "c' = c\<lparr>cn_process := False\<rparr>"
      by (auto simp: conn_read_def split: if_splits)
    with assms(2) show ?thesis by (simp add: conn_ok_def)
  next
    case (Cons msg rest)
    from encodes_read [OF assms(1) m(2) [unfolded Cons], of "cn_eof c"] obtain pipe where
      "Reader_Read mc (cn_eof c) (cn_pipe c) = Some (Inr msg, pipe)" "encodes mc rest = Some pipe" by blast
    with assms(2,3) run m Cons show ?thesis by (auto simp: conn_read_def conn_ok_def)
  qed
qed

lemma sn_work_ok:
  assumes "stream_codec mc" and "sn_work mc x x'" and "sn_ok mc x"
  shows "sn_ok mc x'"
  using assms(2)
proof cases
  case (take i)
  then obtain c msg rest where c: "conn_at i x = Some c" "ss_outbound (sn_session x) = msg # rest"
    and x': "x' = (put_conn i (conn_write mc msg c) x)\<lparr>sn_session := (sn_session x)\<lparr>ss_outbound := rest\<rparr>, sn_taken := sn_taken x @ [(i, msg)]\<rparr>"
    by (auto simp: writer_take_def Session_deliver_def split: option.splits list.splits if_splits)
  have w: "cn_waiter (conn_write mc msg c) = cn_waiter c" "cn_ctx (conn_write mc msg c) = cn_ctx c"
    by (simp_all add: conn_write_def split: prod.split option.split)
  have "conn_ok mc (taken_by i (sn_taken x)) c" using assms(3) c(1) by (auto simp: sn_ok_def conn_at_iff)
  from conn_write_ok [OF this] assms(3) c(1,2) w show ?thesis
    unfolding x' by (auto simp: sn_ok_def waiters_ok_def conn_at_iff nth_list_update)
next
  case (writer_end i c c')
  then show ?thesis unfolding writer_end(1) using assms(3)
    by (intro put_conn_ok [OF assms(3) writer_end(2)]) (auto simp: conn_writer_end_def sn_ok_def conn_at_iff conn_ok_def split: if_splits)
next
  case (read i c c')
  have "conn_ok mc (taken_by i (sn_taken x)) c" using assms(3) read(2) by (auto simp: sn_ok_def conn_at_iff)
  from conn_read_ok [OF assms(1) this read(3)] show ?thesis unfolding read(1) by (intro put_conn_ok [OF assms(3) read(2)]) simp_all
next
  case (killed i c)
  then show ?thesis unfolding killed(1) using assms(3)
    by (intro put_conn_ok [OF assms(3) killed(2)]) (auto simp: conn_exit_def sn_ok_def conn_at_iff conn_ok_def)
next
  case (stopped i c c')
  then show ?thesis unfolding stopped(1) using assms(3)
    by (intro put_conn_ok [OF assms(3) stopped(2)]) (auto simp: conn_stopped_def sn_ok_def conn_at_iff conn_ok_def split: if_splits)
next
  case (reset i c c')
  then have c: "i < length (sn_conns x)" "sn_conns x ! i = c" "cn_waiter c = CnWaiting" "\<not> cn_process c" "c' = c\<lparr>cn_waiter := CnUnlocked\<rparr>"
    by (auto simp: conn_reset_def conn_at_iff split: if_splits)
  then have "conn_ok mc (taken_by i (sn_taken x)) c'" using assms(3) by (auto simp: sn_ok_def conn_ok_def)
  moreover have "cn_waiter (sn_conns x ! j) \<noteq> CnWaiting" if "j < length (sn_conns x)" "j \<noteq> i" for j
    using assms(3) c(1-3) that unfolding sn_ok_def waiters_ok_def by (metis Suc_inject)
  ultimately show ?thesis using c assms(3) unfolding reset(1) by (auto simp: sn_ok_def waiters_ok_def nth_list_update)
next
  case returns
  then show ?thesis using assms(3)
    by (auto simp: Disconnect_return_def sn_ok_waiting split: option.splits if_splits)
qed

lemma sn_step_ok:
  assumes "stream_codec mc" and "sn_step mc x x'" and "sn_ok mc x"
  shows "sn_ok mc x'"
  using assms(2)
proof cases
  case work
  then show ?thesis using sn_work_ok assms by blast
next
  case (send msg)
  with assms(3) show ?thesis by (auto simp: sn_send_def Session_Send_def sn_ok_def waiters_ok_def split: if_splits)
next
  case (connect la)
  show ?thesis
  proof (cases "Session_Connect la (sn_session x)")
    case (Pair s err)
    show ?thesis
    proof (cases err)
      case None
      with Pair have s: "\<not> ss_connected (sn_session x)" "s = (sn_session x)\<lparr>ss_connected := True\<rparr>"
        by (auto simp: Session_Connect_def split: if_splits sum.splits option.splits)
      have new: "conn_ok mc [] new_conn" by (simp add: conn_ok_def new_conn_def)
      have "taken_by (length (sn_conns x)) (sn_taken x) = []"
        using assms(3) by (auto simp: sn_ok_def taken_by_def filter_empty_conv list_all_iff)
      moreover have "list_all (\<lambda>p. fst p < Suc (length (sn_conns x))) (sn_taken x)"
        using assms(3) by (auto simp: sn_ok_def list_all_iff)
      ultimately show ?thesis using new s Pair None connect assms(3)
        by (auto simp: sn_connect_def sn_ok_def waiters_ok_def nth_append less_Suc_eq new_conn_def)
    next
      case (Some e)
      with Pair have "s = sn_session x" by (auto simp: Session_Connect_def split: if_splits sum.splits option.splits)
      with Some Pair connect assms(3) show ?thesis by (simp add: sn_connect_def)
    qed
  qed
next
  case disconnect
  let ?i = "length (sn_conns x) - 1"
  let ?c = "sn_conns x ! ?i"
  show ?thesis
  proof (cases "ss_connected (sn_session x)")
    case True
    with assms(3) have len: "?i < length (sn_conns x)" by (auto simp: sn_ok_def waiters_ok_def)
    then have "conn_ok mc (taken_by ?i (sn_taken x)) (?c\<lparr>cn_ctx := True\<rparr>)" using assms(3) by (simp add: sn_ok_def conn_ok_def)
    with len have "sn_ok mc (put_conn ?i (?c\<lparr>cn_ctx := True\<rparr>) x)"
      by (intro put_conn_ok [OF assms(3)]) (auto simp: conn_at_iff)
    moreover have "x' = (put_conn ?i (?c\<lparr>cn_ctx := True\<rparr>) x)\<lparr>sn_waiting := Some ?i\<rparr>"
      using disconnect True by (simp add: Disconnect_call_def Let_def split: if_splits)
    ultimately show ?thesis using len by (simp add: sn_ok_waiting)
  qed (use disconnect assms(3) in \<open>simp add: Disconnect_call_def split: if_splits\<close>)
next
  case (exit i c)
  then show ?thesis unfolding exit(1) using assms(3)
    by (intro put_conn_ok [OF assms(3) exit(2)]) (auto simp: conn_exit_def sn_ok_def conn_at_iff conn_ok_def)
qed

lemma sessionrun_New_ok: "sn_ok mc (sessionrun_New key user domain)"
  by (simp add: sn_ok_def waiters_ok_def sessionrun_New_def NewSession_def)

lemma reached_session_ok:
  assumes "stream_codec mc" and "(sn_step mc)\<^sup>*\<^sup>* (sessionrun_New key user domain) x"
  shows "sn_ok mc x"
  using assms(2) by (induction rule: rtranclp_induct) (use sessionrun_New_ok sn_step_ok [OF assms(1)] in blast)+

section \<open>Messages arrive in order\<close>

lemma messages_in_order:
  assumes "sn_ok mc x" and "conn_at i x = Some c"
  shows "prefix (cn_read c) (cn_written c) \<and> subseq (cn_written c) (sn_accepted x) \<and> (cn_process c \<longrightarrow> cn_ui c = handled (cn_read c))"
proof -
  have ok: "conn_ok mc (taken_by i (sn_taken x)) c" using assms by (auto simp: sn_ok_def conn_at_iff)
  then have "subseq (cn_written c) (taken_by i (sn_taken x))" by (simp add: conn_ok_def)
  with taken_by_subseq have "subseq (cn_written c) (map snd (sn_taken x))" by (rule subseq_order.order_trans [rotated])
  moreover have "subseq (map snd (sn_taken x)) (sn_accepted x)" using assms(1) by (simp add: sn_ok_def subseq_rev_drop_many)
  ultimately have "subseq (cn_written c) (sn_accepted x)" by (rule subseq_order.order_trans)
  with ok show ?thesis by (auto simp: conn_ok_def)
qed

text \<open>As long as the first connection lasts nothing is lost.\<close>

lemma nothing_lost:
  assumes "sn_ok mc x" and "sn_conns x = [c]" and "cn_process c" and "\<forall>msg \<in> set (sn_accepted x). \<exists>b. mc_Encode mc msg = Inr b"
  shows "\<exists>msgs. sn_accepted x = cn_read c @ msgs @ ss_outbound (sn_session x) \<and> encodes mc msgs = Some (cn_pipe c)"
proof -
  have ok: "conn_ok mc (taken_by 0 (sn_taken x)) c" using assms(1,2) by (auto simp: sn_ok_def)
  have "filter (\<lambda>p. fst p = 0) (sn_taken x) = sn_taken x" using assms(1,2) by (auto simp: sn_ok_def filter_id_conv list_all_iff)
  then have all: "taken_by 0 (sn_taken x) = map snd (sn_taken x)" by (simp add: taken_by_def)
  have acc: "sn_accepted x = map snd (sn_taken x) @ ss_outbound (sn_session x)" using assms(1) by (simp add: sn_ok_def)
  with assms(3,4) ok all have "cn_written c = map snd (sn_taken x)" by (auto simp: conn_ok_def)
  with ok acc show ?thesis by (auto simp: conn_ok_def)
qed

section \<open>Disconnecting\<close>

text \<open>A caller of \<^verbatim>\<open>Disconnect\<close> does not wait for ever: the process is killed, its end is noticed, and the channel is closed.\<close>

definition sn_disconnecting :: "'b msgcodec \<Rightarrow> 'b sessionrun \<Rightarrow> bool" where
  "sn_disconnecting mc x \<longleftrightarrow> stream_codec mc \<and> sn_ok mc x"

definition sn_left :: "'b sessionrun \<Rightarrow> nat" where
  "sn_left x = (case sn_waiting x of None \<Rightarrow> 0 | Some i \<Rightarrow>
     1 + of_bool (cn_process (sn_conns x ! i)) + (case cn_waiter (sn_conns x ! i) of CnWaiting \<Rightarrow> 2 | CnUnlocked \<Rightarrow> 1 | CnStopped \<Rightarrow> 0))"

lemma disconnecting_progress:
  assumes "sn_disconnecting mc x" and "sn_waiting x \<noteq> None"
  shows "\<exists>x'. sn_work mc x x' \<and> sn_left x' < sn_left x"
proof -
  from assms(2) obtain i where i: "sn_waiting x = Some i" by blast
  with assms(1) have len: "i < length (sn_conns x)" and ctx: "cn_ctx (sn_conns x ! i)"
    by (auto simp: sn_disconnecting_def sn_ok_def waiters_ok_def)
  let ?c = "sn_conns x ! i"
  have at: "conn_at i x = Some ?c" using len by (simp add: conn_at_iff)
  show ?thesis
  proof (cases "cn_process ?c")
    case True
    from sn_work.killed [OF at True ctx] show ?thesis
      by (intro exI conjI) (use i len True in \<open>auto simp: sn_left_def conn_exit_def split: waiterthread.split\<close>)
  next
    case False
    show ?thesis
    proof (cases "cn_waiter ?c")
      case CnWaiting
      with False have "conn_reset ?c = Some (?c\<lparr>cn_waiter := CnUnlocked\<rparr>)" by (simp add: conn_reset_def)
      from sn_work.reset [OF at this] show ?thesis
        by (intro exI conjI) (use i len CnWaiting in \<open>auto simp: sn_left_def\<close>)
    next
      case CnUnlocked
      then have "conn_stopped ?c = Some (?c\<lparr>cn_waiter := CnStopped, cn_ctx := True\<rparr>)" by (simp add: conn_stopped_def)
      from sn_work.stopped [OF at this] show ?thesis
        by (intro exI conjI) (use i len CnUnlocked in \<open>auto simp: sn_left_def\<close>)
    next
      case CnStopped
      with i have "Disconnect_return x = Some (x\<lparr>sn_waiting := None\<rparr>)" by (simp add: Disconnect_return_def)
      from sn_work.returns [OF this] i show ?thesis by (intro exI conjI) (auto simp: sn_left_def)
    qed
  qed
qed

interpretation sessionStop: winding_down "sn_work mc" "sn_disconnecting mc" "\<lambda>x. sn_waiting x = None" sn_left for mc
proof unfold_locales
  show "sn_disconnecting mc x'" if "sn_work mc x x'" "sn_disconnecting mc x" for x x'
    using that sn_work_ok by (auto simp: sn_disconnecting_def)
qed (rule disconnecting_progress)

lemma disconnect_completes:
  assumes "stream_codec mc" and "sn_ok mc x" and "Disconnect_call x = Some x1"
  shows "\<exists>x'. (sn_work mc)\<^sup>*\<^sup>* x1 x' \<and> sn_waiting x' = None"
proof -
  have "sn_disconnecting mc x1"
    using assms sn_step_ok [OF assms(1) sn_step.disconnect [OF assms(3)] assms(2)] by (simp add: sn_disconnecting_def)
  from sessionStop.reaches_final [OF this] show ?thesis by blast
qed

end
