(* ===== verification/CommandSamples.thy ===== *)
theory CommandSamples
  imports Samples Scenarios CommandLine Detect DialogForms TrayRun InvocationRun ServiceRun SessionRun
begin

text \<open>
  Concrete runs of the commands: a daemon on a logged in-memory store that grants a lease, a Windows
  service that is paused, an installation on a machine without one, a source of
  random numbers, a tray that has taken a state from its channel, a parser for the arguments of the installed
  service, a session whose user interface has read a message, and the threads of a service that has started.
\<close>

section \<open>A daemon\<close>

definition sample_log_server :: "memprov logprov server" where
  "sample_log_server = \<lparr>sc_LeaseProvider = LogProv (MemProv insertionSort) [], sc_Policies = Inr [sample_policy],
     sc_lib = sample_lib, sc_sort = insertionSort, sc_marshal = (\<lambda>_. True)\<rparr>"

lemma sample_log_server_simps [simp]:
  "sc_LeaseProvider sample_log_server = LogProv (MemProv insertionSort) []" "sc_sort sample_log_server = insertionSort"
  "sc_Policies sample_log_server = Inr [sample_policy]"
  by (simp_all add: sample_log_server_def)

definition sample_daemon :: "memprov logprov serverrun \<Rightarrow> memprov logprov daemonstate" where
  "sample_daemon st = \<lparr>ds_server = st, ds_stats = None, ds_sent = [], ds_statsDone = False, ds_returned = None\<rparr>"

definition sample_running :: "memprov logprov serverrun" where
  "sample_running = \<lparr>sr_store = LogProv_New MemProv_New, sr_phase = Serving, sr_listening = True, sr_cancelled = False,
     sr_refreshing = Some True, sr_pending = [], sr_calls = []\<rparr>"

lemma sample_Server_Run:
  "Server_Run sample_log_server True (2 * Second) (\<lambda>_. quiet) (\<lambda>_. sample_time) None (LogProv_New MemProv_New) = Inr sample_running"
  by (simp add: Server_Run_def Purge_def LogProv_def LogProv_LeaseResources_def LogProv_New_def MemProv_def
      MemProv_LeaseResources_def MemProv_New_def sample_running_def Second_def)

definition sample_log_acquire :: "(memprov logprov \<times> snapshot list \<times> response) go" where
  "sample_log_acquire =
     acquireHandler sample_log_server quiet sample_time quiet sample_time (Inr (sample_form ''ann'' ''1'')) (LogProv_New MemProv_New)"

lemma sample_log_acquire_eval:
  "(case sample_log_acquire of
      Inr (p, ev, _) \<Rightarrow> map ls_Status (mem_content (lp_source p) ''cad'') = [Active] \<and> length ev = 1
    | Inl _ \<Rightarrow> False)"
  by code_simp

lemma sample_log_acquire_run:
  obtains p snap resp where "sample_log_acquire = Inr (p, [snap], resp)"
    "map ls_Status (mem_content (lp_source p) ''cad'') = [Active]"
proof -
  from sample_log_acquire_eval obtain p ev resp where "sample_log_acquire = Inr (p, ev, resp)"
    "map ls_Status (mem_content (lp_source p) ''cad'') = [Active]" "length ev = 1"
    by (auto split: sum.splits prod.splits)
  then show ?thesis using that by (auto simp: length_Suc_conv)
qed

text \<open>The daemon after it has granted a lease and published the update.\<close>

lemma sample_daemon_run:
  obtains d snap where
    "(daemon_step sample_log_server (\<lambda>_. None)
        (env_ok (sample_terms no_space) (\<lambda>p. True) (\<lambda>p. mem_content (lp_source p)) (\<lambda>p. mem_revision (lp_source p)))
        (request_ok (sample_terms no_space) sample_log_server))\<^sup>*\<^sup>* (sample_daemon sample_running) d"
    "StreamBroadcast (Some (LeasesEvent snap)) \<in> set (sr_calls (ds_server d))"
    "map ls_Status (mem_content (lp_source (sr_store (ds_server d))) ''cad'') = [Active]"
proof -
  let ?calm = "env_ok (sample_terms no_space) (\<lambda>p. True) (\<lambda>p. mem_content (lp_source p)) (\<lambda>p. mem_revision (lp_source p))"
  let ?admit = "request_ok (sample_terms no_space) sample_log_server"
  let ?step = "daemon_step sample_log_server (\<lambda>_. None) ?calm ?admit"
  obtain p snap resp where a: "sample_log_acquire = Inr (p, [snap], resp)"
    "map ls_Status (mem_content (lp_source p) ''cad'') = [Active]" by (rule sample_log_acquire_run)
  let ?s1 = "with_updates p [snap] sample_running"
  let ?s2 = "?s1\<lparr>sr_pending := [], sr_calls := [publishLeaseUpdate (\<lambda>_. None) snap]\<rparr>"
  have "run_step sample_log_server (\<lambda>_. None) ?calm ?admit sample_running ?s1"
  proof (rule run_step.acquire_request)
    show "acquireHandler sample_log_server quiet sample_time quiet sample_time (Inr (sample_form ''ann'' ''1''))
        (sr_store sample_running) = Inr (p, [snap], resp)"
      using a(1) by (simp add: sample_log_acquire_def sample_running_def)
  qed (simp_all add: sample_running_def sample_form_ok sample_calm)
  then have "?step (sample_daemon sample_running) (sample_daemon ?s1)"
    using daemon_step.serves [of "sample_daemon sample_running"] by (simp add: sample_daemon_def)
  moreover have "run_step sample_log_server (\<lambda>_. None) ?calm ?admit ?s1 ?s2"
    using run_step.publish [of 0 ?s1 sample_log_server "\<lambda>_. None" ?calm ?admit] by (simp add: with_updates_def sample_running_def)
  then have "?step (sample_daemon ?s1) (sample_daemon ?s2)"
    using daemon_step.serves [of "sample_daemon ?s1"] by (simp add: sample_daemon_def)
  ultimately have "?step\<^sup>*\<^sup>* (sample_daemon sample_running) (sample_daemon ?s2)" by simp
  from that [OF this, of snap] a(2) show ?thesis
    by (simp add: sample_daemon_def with_updates_def publishLeaseUpdate_def makeLeasesEvent_def)
qed

section \<open>A Windows service\<close>

definition sample_host :: hostenv where
  "sample_host = \<lparr>ho_Parse = (\<lambda>args. Inr \<lparr>ec_Server = '''', ec_Passive = True, ec_Debug = False\<rparr>),
     ho_Executable = Inr ''resourceful.exe'', ho_Hostname = Inr ''pc'',
     ho_Getenv = (\<lambda>name. ''C:''), ho_Join = concat\<rparr>"

definition sample_handler :: handler where
  "sample_handler = \<lparr>hd_Name = ServiceName, hd_Conf = \<lparr>ec_Server = ''guardian'', ec_Passive = False, ec_Debug = False\<rparr>, hd_ConfErr = None\<rparr>"

definition sample_execution :: execution where
  "sample_execution = (case Execute sample_host sample_handler [''enforcer'', ''-p''] of Inr x \<Rightarrow> x | Inl _ \<Rightarrow> undefined)"

lemma sample_Execute: "Execute sample_host sample_handler [''enforcer'', ''-p''] = Inr sample_execution"
  by (simp add: sample_execution_def Execute_def sample_host_def sample_handler_def serviceArguments_def buildEnvironment_def
      Service_Start_def Service_New_def Let_def)

lemma sample_execution_simps: "ex_exit sample_execution = None" "ec_Passive (hd_Conf (ex_handler sample_execution))"
  by (simp_all add: sample_execution_def Execute_def sample_host_def sample_handler_def serviceArguments_def buildEnvironment_def
      Service_Start_def Service_New_def Let_def)

lemma sample_pause: "ex_step E sample_execution (Execute_request SvcPause sample_execution)"
  by (rule ex_step.request) (simp_all add: sample_execution_simps)

section \<open>An installation\<close>

definition sample_install :: "(string \<rightharpoonup> regvalue) option installenv" where
  "sample_install = \<lparr>ie_host = sample_host, ie_escape = (\<lambda>s. s), ie_Abs = Inr ''C:resourceful'',
     ie_Split = (\<lambda>_. (''C:'', ''resourceful'')), ie_Open = Inr (Some 2048), ie_Compare = None, ie_MkdirAll = (\<lambda>_. None),
     ie_SplitCommand = (\<lambda>c. (c, [])), ie_Uninstaller = (\<lambda>r. (r, None)), ie_Exists = Inr True, ie_Delete = None,
     ie_Copy = None, ie_Install = None, ie_EventLog = None, ie_Start = None\<rparr>"

definition sample_machine :: "(string \<rightharpoonup> regvalue) option machine" where
  "sample_machine = \<lparr>mc_registry = None, mc_calls = []\<rparr>"

definition sample_installed :: "(string \<rightharpoonup> regvalue) option machine" where
  "sample_installed = fst (InstallCmd_Run memory_registry sample_install \<lparr>ic_Server = ''guardian'', ic_Passive = False, ic_Debug = False\<rparr> sample_machine)"

lemma sample_InstallCmd_Run:
  "InstallCmd_Run memory_registry sample_install \<lparr>ic_Server = ''guardian'', ic_Passive = False, ic_Debug = False\<rparr> sample_machine =
     (sample_installed, 0)"
proof -
  have "snd (InstallCmd_Run memory_registry sample_install \<lparr>ic_Server = ''guardian'', ic_Passive = False, ic_Debug = False\<rparr> sample_machine) = 0"
    by (simp add: InstallCmd_Run_def installService_def sample_install_def sample_host_def installDir_def cacheDir_def
        strings_HasSuffix_def Let_def)
  then show ?thesis unfolding sample_installed_def by (metis prod.collapse)
qed

section \<open>A random source\<close>

lemma sample_source: "\<forall>m. \<exists>t \<ge> m. group (\<lambda>_. 0) t < length letterBytes"
  by (auto simp: group_def letterBytes_def)

section \<open>A tray\<close>

definition sample_uistate :: uistate where
  "sample_uistate = \<lparr>us_Policies = [sample_policy], us_Leases = [], us_Running = []\<rparr>"

definition sample_trayenv :: trayenv where
  "sample_trayenv = \<lparr>te_NewMainWindow = None, te_NewNotifyIcon = None, te_SetIcon = None, te_SetVisible = None\<rparr>"

definition sample_tray :: "uistate list \<Rightarrow> syncfun list \<Rightarrow> traywin" where
  "sample_tray q fs = \<lparr>tw_tray = Tray_New\<lparr>tr_open := True, tr_states := q\<rparr>, tw_sync = fs, tw_cancelled = False,
     tw_window = WindowLoop, tw_manage = Managing\<rparr>"

lemma sample_Tray_begin: "Tray_begin sample_trayenv Tray_New = TrayStarted (sample_tray [] [])"
  by (simp add: Tray_begin_def createSystemTray_def createNotifyIcon_def sample_trayenv_def Tray_Start_def Tray_New_def
      sample_tray_def)

lemma sample_tray_run: "(tw_step name version)\<^sup>*\<^sup>* (sample_tray [] []) (sample_tray [] [ShowState sample_uistate])"
proof -
  have "tw_step name version (sample_tray [] []) (sample_tray [sample_uistate] [])"
    using tw_step.update [of name version "sample_tray [] []" sample_uistate]
    by (simp add: sample_tray_def Tray_Update_def Tray_New_def trayBuffer_def)
  moreover have "tw_step name version (sample_tray [sample_uistate] []) (sample_tray [] [ShowState sample_uistate])"
    by (rule tw_step.work, rule tw_work.state) (simp_all add: sample_tray_def manage_state_def receive_def)
  ultimately show ?thesis by auto
qed

section \<open>A parser of the program arguments\<close>

definition sample_parse :: "string list \<Rightarrow> enforceCmd \<times> goerror option" where
  "sample_parse args =
     (case args of
        cmd # flags \<Rightarrow> (case flag_values flags zero_enforceCmd of
            Some c \<Rightarrow> if cmd = ''enforce'' then (c, None) else (zero_enforceCmd, Some ''unexpected argument'')
          | None \<Rightarrow> (zero_enforceCmd, Some ''unknown flag''))
      | [] \<Rightarrow> (zero_enforceCmd, Some ''expected a command''))"

lemma sample_parse_enforce: "flag_values flags zero_enforceCmd = Some cmd \<Longrightarrow> sample_parse (''enforce'' # flags) = (cmd, None)"
  by (simp add: sample_parse_def)

section \<open>A session with its user interface\<close>

text \<open>A codec that writes a message as one symbol.\<close>

definition symbol_codec :: "message msgcodec" where
  "symbol_codec = \<lparr>mc_Encode = (\<lambda>msg. Inr [msg]),
     mc_Decode = (\<lambda>pipe. case pipe of [] \<Rightarrow> None | msg # rest \<Rightarrow> Some (Inr (msg, rest)))\<rparr>"

lemma symbol_codec_stream: "stream_codec symbol_codec"
  by (simp add: stream_codec_def symbol_codec_def)

definition sample_message :: message where
  "sample_message = \<lparr>ms_Type = TypePolicyUpdate, ms_Policies = [sample_policy], ms_Leases = [], ms_ProcTerm = ''''\<rparr>"

definition sample_written :: "message conn" where
  "sample_written = new_conn\<lparr>cn_pipe := [sample_message], cn_written := [sample_message]\<rparr>"

definition sample_read :: "message conn" where
  "sample_read = sample_written\<lparr>cn_pipe := [], cn_ui := UI_Handle sample_message ui_start, cn_read := [sample_message]\<rparr>"

definition sample_sessionrun :: "message conn \<Rightarrow> message sessionrun" where
  "sample_sessionrun c = \<lparr>sn_session = (NewSession 1 ''ann'' ''d'')\<lparr>ss_connected := True\<rparr>, sn_conns = [c],
     sn_accepted = [sample_message], sn_taken = [(0, sample_message)], sn_waiting = None\<rparr>"

lemma sample_session_read: "(sn_step symbol_codec)\<^sup>*\<^sup>* (sessionrun_New 1 ''ann'' ''d'') (sample_sessionrun sample_read)"
proof -
  let ?step = "sn_step symbol_codec" and ?x0 = "sessionrun_New 1 ''ann'' ''d''"
  let ?x2 = "sn_send sample_message (sn_connect good_launch ?x0)"
  have "?step\<^sup>*\<^sup>* ?x0 ?x2" by (meson rtranclp.rtrancl_into_rtrancl rtranclp.rtrancl_refl sn_step.connect sn_step.send)
  moreover have x2: "?x2 = (sample_sessionrun new_conn)\<lparr>sn_session := (NewSession 1 ''ann'' ''d'')\<lparr>ss_connected := True,
      ss_outbound := [sample_message]\<rparr>, sn_taken := []\<rparr>"
    by (simp add: sn_send_def sn_connect_def sessionrun_New_def Session_Connect_def good_launch_def NewSession_def
        validateTokenForUser_def Session_Send_def bufSize_def sample_sessionrun_def)
  have "writer_take symbol_codec 0 ?x2 = Some (sample_sessionrun sample_written)"
    unfolding x2 by (simp add: writer_take_def conn_at_def Session_deliver_def sample_sessionrun_def NewSession_def new_conn_def
        conn_write_def Writer_Write_def symbol_codec_def put_conn_def sample_written_def)
  then have "?step ?x2 (sample_sessionrun sample_written)" by (intro sn_step.work sn_work.take)
  moreover have "conn_read symbol_codec sample_written = Some sample_read"
    by (simp add: conn_read_def sample_written_def sample_read_def Reader_Read_def symbol_codec_def new_conn_def)
  then have "?step (sample_sessionrun sample_written) (put_conn 0 sample_read (sample_sessionrun sample_written))"
    by (intro sn_step.work sn_work.read [of 0 _ sample_written]) (simp_all add: conn_at_def sample_sessionrun_def)
  then have "?step (sample_sessionrun sample_written) (sample_sessionrun sample_read)"
    by (simp add: put_conn_def sample_sessionrun_def)
  ultimately show ?thesis by (meson rtranclp.rtrancl_into_rtrancl)
qed

lemma sample_read_simps:
  "conn_at 0 (sample_sessionrun sample_read) = Some sample_read" "sn_conns (sample_sessionrun sample_read) = [sample_read]"
  "cn_read sample_read = [sample_message]" "cn_process sample_read" "cn_ui sample_read = UI_Handle sample_message ui_start"
  "sn_accepted (sample_sessionrun sample_read) = [sample_message]"
  by (simp_all add: conn_at_def sample_sessionrun_def sample_read_def sample_written_def new_conn_def)

text \<open>
  A message can be lost between two connections: the goroutine that writes for the first one is still there when the second
  has begun, takes the message from the channel of the session and finds its process gone.
\<close>

lemma message_can_be_lost:
  "\<exists>x. (sn_step symbol_codec)\<^sup>*\<^sup>* (sessionrun_New 1 ''ann'' ''d'') x \<and> sn_accepted x = [sample_message] \<and>
     ss_outbound (sn_session x) = [] \<and> map cn_process (sn_conns x) = [False, True] \<and> map cn_written (sn_conns x) = [[], []]"
proof -
  let ?step = "sn_step symbol_codec" and ?new = "sessionrun_New 1 ''ann'' ''d'' :: message sessionrun"
  let ?x0 = "sn_connect good_launch ?new"
  let ?x1 = "put_conn 0 (conn_exit new_conn) ?x0"
  let ?x2 = "(put_conn 0 ((conn_exit new_conn)\<lparr>cn_waiter := CnUnlocked\<rparr>) ?x1)\<lparr>sn_session := (sn_session ?x1)\<lparr>ss_connected := False\<rparr>\<rparr>"
  let ?x3 = "sn_send sample_message (sn_connect good_launch ?x2)"
  have x0: "?x0 = \<lparr>sn_session = (NewSession 1 ''ann'' ''d'')\<lparr>ss_connected := True\<rparr>, sn_conns = [new_conn], sn_accepted = [],
      sn_taken = [], sn_waiting = None\<rparr>"
    by (simp add: sn_connect_def sessionrun_New_def Session_Connect_def good_launch_def NewSession_def validateTokenForUser_def)
  have x3: "?x3 = \<lparr>sn_session = (NewSession 1 ''ann'' ''d'')\<lparr>ss_connected := True, ss_outbound := [sample_message]\<rparr>,
      sn_conns = [(conn_exit new_conn)\<lparr>cn_waiter := CnUnlocked\<rparr>, new_conn], sn_accepted = [sample_message],
      sn_taken = [], sn_waiting = None\<rparr>"
    unfolding x0 by (simp add: put_conn_def sn_connect_def Session_Connect_def good_launch_def NewSession_def validateTokenForUser_def
        sn_send_def Session_Send_def bufSize_def)
  have "?step ?new ?x0" by (rule sn_step.connect)
  moreover have "?step ?x0 ?x1" unfolding x0 by (rule sn_step.exit) (simp add: conn_at_def)
  moreover have "?step ?x1 ?x2" unfolding x0
    by (intro sn_step.work sn_work.reset [of 0 _ "conn_exit new_conn"])
      (simp_all add: conn_at_def put_conn_def conn_reset_def conn_exit_def new_conn_def)
  moreover have "?step\<^sup>*\<^sup>* ?x2 ?x3" by (meson rtranclp.rtrancl_into_rtrancl rtranclp.rtrancl_refl sn_step.connect sn_step.send)
  ultimately have run: "?step\<^sup>*\<^sup>* ?new ?x3" by (meson converse_rtranclp_into_rtranclp)
  let ?x4 = "?x3\<lparr>sn_session := (NewSession 1 ''ann'' ''d'')\<lparr>ss_connected := True\<rparr>, sn_taken := [(0, sample_message)]\<rparr>"
  have "writer_take symbol_codec 0 ?x3 = Some ?x4"
    unfolding x3 by (simp add: writer_take_def conn_at_def Session_deliver_def NewSession_def new_conn_def conn_exit_def
        conn_write_def put_conn_def)
  then have "?step ?x3 ?x4" by (intro sn_step.work sn_work.take)
  with run have "?step\<^sup>*\<^sup>* ?new ?x4" by (rule rtranclp.rtrancl_into_rtrancl)
  then show ?thesis unfolding x3 by (intro exI conjI, assumption) (simp_all add: NewSession_def conn_exit_def new_conn_def)
qed

section \<open>A service that has started\<close>

definition sample_servicerun :: servicerun where
  "sample_servicerun = servicerun_New\<lparr>sx_service := Service_New\<lparr>sv_running := True\<rparr>, sx_run := Loading, sx_canceller := Live\<rparr>"

lemma sample_service_started: "(sx_step E)\<^sup>*\<^sup>* servicerun_New sample_servicerun"
proof (rule r_into_rtranclp, rule sx_step.start)
  show "Start_call servicerun_New = Some (sample_servicerun, None)"
    by (simp add: Start_call_def servicerun_New_def sample_servicerun_def Service_Start_def Service_New_def)
qed

end
