(* ===== verification/Spec2Isabelle.thy ===== *)
theory Spec2Isabelle
  imports CommandSamples
begin

text \<open>
  Resourceful: leases on limited resources.

  The guardian server hands out leases on resources that only so many users or programs may use at
  a time. A client (the \<^verbatim>\<open>runner\<close>, which starts one program, or the \<^verbatim>\<open>enforcer\<close>, a service that
  watches the processes of a Windows machine) asks for a lease, renews it, and stops the program when
  the lease is lost. This development models the server with its stores, the clients and the user
  interfaces between them, from the Go sources under \<^verbatim>\<open>src/\<close>.

  \<^bold>\<open>The theories and the code they model.\<close>

  \<^item> \<open>Prelude\<close>, \<open>GoStrings\<close>, \<open>GoTime\<close>: panics and errors as sums, times and durations in nanoseconds, Go maps as
    association lists, the functions of \<^verbatim>\<open>strings\<close>, durations as text, and the locales \<open>inductive_invariant\<close> and
    \<open>initial_invariant\<close> that every step relation below is interpreted in. \<open>Progress\<close>: the locales \<open>winding_down\<close> (threads that
    can always come to their end by their own steps) and \<open>step_refinement\<close>, for the detailed step relations of the clients.
  \<^item> \<open>Lease\<close>, \<open>LeaseSet\<close>, \<open>LeaseTx\<close> (\<^verbatim>\<open>src/lease/\<close>): the lease record, sets of leases with their order and
    statistics, transactions with their recorded operations. \<open>lease_sorter\<close> is the contract of
    \<^verbatim>\<open>sort.Sort\<close>, interpreted on insertion sort.
  \<^item> \<open>LeaseUtil\<close> (\<^verbatim>\<open>src/lease/leaseutil/\<close>): the accumulator and the two passes of \<^verbatim>\<open>Refresh\<close>, which delete,
    decay and promote leases.
  \<^item> \<open>Policy\<close>, \<open>PolicyProv\<close>, \<open>PolicyJson\<close> (\<^verbatim>\<open>src/policy/\<close>, \<^verbatim>\<open>src/provider/fsprov\<close>, \<^verbatim>\<open>cacheprov\<close>): criteria, matching,
    the terms a set of policies sets, policy files and the cache in front of them, the JSON form of a policy.
  \<^item> \<open>Provider\<close>, \<open>MemProv\<close>, \<open>BoltProv\<close>, \<open>LogProv\<close>, \<open>Schedule\<close> (\<^verbatim>\<open>src/lease/provider.go\<close>, \<^verbatim>\<open>src/provider/\<close>): the contract
    \<open>lease_store\<close> of a lease provider (a view returns the leases and the revision; a commit at the
    viewed revision applies the transaction and increments the revision, any other changes nothing)
    and its implementations in memory, on bolt and behind a transaction log with its checkpoint schedules. The bolt library is the
    record \<open>boltlib\<close> with its documented laws in the locale \<open>boltdb\<close>.
  \<^item> \<open>Server\<close>, \<open>ServerInv\<close>, \<open>ServerOps\<close>, \<open>ServerRun\<close> (\<^verbatim>\<open>src/guardian/server.go\<close>): the handlers, whole, on any
    provider, the event stream they publish to, and the life of a server as \<open>run_step\<close>; the locale \<open>guardian\<close> proves their properties from \<open>lease_store\<close> alone, with arbitrary commits of other
    requests between the view and the commit of a request.
  \<^item> \<open>Endpoint\<close>, \<open>Client\<close>, \<open>Maintainer\<close> (\<^verbatim>\<open>src/guardian/\<close>): requests over a network parameter, selection and
    failover, and the maintainer that renews a lease.
  \<^item> \<open>EndToEnd\<close>: client and server put together, in the locale \<open>deployment\<close>.
  \<^item> \<open>LeaseUi\<close>, \<open>ViewModels\<close>, \<open>Dialogs\<close>, \<open>DialogForms\<close>, \<open>Runner\<close>, \<open>Detect\<close> (\<^verbatim>\<open>src/lease/leaseui/\<close>, \<^verbatim>\<open>src/runner/\<close>): the manager of the dialogs
    with its unbuffered channel, the models of what they show, their forms and the thread of a dialog (\<open>dg_step\<close>), the runner with its handlers and
    callbacks (\<open>rn_step\<close> interleaves the goroutines), what it finds out about its surroundings.
  \<^item> \<open>Enforcer\<close>, \<open>EnforcerEvents\<close>, \<open>Sessions\<close>, \<open>TrayRun\<close>, \<open>Service\<close> (\<^verbatim>\<open>src/enforcer/\<close>, \<^verbatim>\<open>src/enforcerui/\<close>): filters and scan, the process
    manager, invocations, the policy manager; sessions and their user interface, with the threads of its tray; the service that
    drives the three managers, as \<open>sv_step\<close>; the events they log.
  \<^item> \<open>InvocationRun\<close>, \<open>ServiceRun\<close>, \<open>SessionRun\<close>: the goroutines of the enforcer one by one, where the theories before take them in larger steps.
    An invocation with its manager, its maintainer, the goroutine that cleans up and the callers of \<^verbatim>\<open>Absorb\<close> and \<^verbatim>\<open>Stop\<close>
    (\<open>ir_step\<close>); the goroutines of \<^verbatim>\<open>Service.run\<close> with their wait group (\<open>sx_step\<close>); the connections of a session, with the pipe
    to the user interface and the processes at its other end (\<open>sn_step\<close>, with \<^verbatim>\<open>reader.go\<close> and \<^verbatim>\<open>writer.go\<close>).
  \<^item> \<open>StatManager\<close>, \<open>Commands\<close>, \<open>WinService\<close>, \<open>Install\<close>, \<open>CommandLine\<close> (\<^verbatim>\<open>src/cmd/resourceful/\<close>): the statistics that are
    reported, the guardian daemon from its flags to its last report (\<open>daemon_step\<close>), the other commands, the
    Windows service around the enforcer (\<open>ex_step\<close>), installation with its registry entry, whose
    library is the locale \<open>uninstall_key\<close>, the dispatch of the command line, the console and the version resource.
  \<^item> \<open>Samples\<close>, \<open>Scenarios\<close>, \<open>CommandSamples\<close>: concrete servers, stores, runners, services, daemons and installations on which the theorems
    are applied, and the runs behind four flaws: a runner that blocks for good, a process that is
    no longer looked at, policies that arrive in the wrong order, a message that is lost between two connections.

  \<^bold>\<open>What is shown.\<close> Consumption stays within the limit of the policies in every store the server can
  reach, in memory and on bolt, under any interleaving of requests (the revisions are 64-bit words: the
  argument needs fewer than \<open>2 ^ 64\<close> commits between a view and its commit). A granted lease is held, a
  released one is gone, the queue is served in order, renewals keep their place, handlers do not
  panic. \<^verbatim>\<open>Refresh\<close> terminates, keeps the limit, leaves no idle slot while somebody waits. Commits refine
  transactions; logging changes nothing and is a complete record. Policies, with their durations as
  text, and requests survive their round trips; the schedules accepted are the valid ones. A daemon
  keeps the terms of its policies until it has returned, and a server that is told to stop can
  always do so. A renewal is due before the lease runs out. The runner starts its program once
  and stops it when the lease is lost; the enforcer manages every process a policy applies to,
  terminates exactly on a violation and only the process meant, and keeps sessions up to date; an invocation that is stopped ends and gives its lease back, the
  goroutines of the service refine the service and all end when it is stopped, and messages reach the user interface in
  order. A tray with its threads refines the one its users see, and closes when
  it is told to. The service manager of Windows is told the
  state the enforcer is in, an installation can be read back and undone and its settings are those the service runs with, and random identifiers are
  found and consist of letters.

  \<^bold>\<open>Bounds and parameters.\<close> The server tries a commit five times, as in the code (\<open>attempt_loop\<close>
  counts down from five). The loop that makes a random identifier draws until it has enough letters, so
  \<open>randomID\<close> has an allowance of turns, and a bound on it is shown to be enough whenever the source keeps
  giving letters; every other loop is a terminating function or a step
  relation. The rounding of fractions that \<^verbatim>\<open>ParseDuration\<close> does in floating point is the parameter \<open>fl\<close>. Regular expressions, case mapping outside ASCII, the JSON codecs, the digest behind hashes, the network,
  the clock, the bolt library, the file system, \<^verbatim>\<open>winproc\<close>, \<^verbatim>\<open>wtsapi\<close>, the libraries
  \<^verbatim>\<open>walk\<close>, \<^verbatim>\<open>eventsource\<close>, \<^verbatim>\<open>kong\<close>, \<^verbatim>\<open>winservice\<close> and \<^verbatim>\<open>stathat\<close> and the registry are parameters. The hash of a
  policy is taken as a function, which it is for policies with at most one property.

  \<^bold>\<open>Not modelled.\<close> The listener and the static files of the server; how the dialogs are drawn, icons and message boxes; the
  text of a message on the pipe and the goroutine that only logs what a user interface prints; how \<^verbatim>\<open>kong\<close> parses the
  command line (its answers are arguments; \<open>flag_values\<close> states the meaning of the flags that an installation uses); the resource
  file written by \<^verbatim>\<open>goversioninfo\<close>; \<^verbatim>\<open>run.go\<close> of the command, which is commented out. They are input and output over third-party packages. Log lines of the clients have no
  effect on the state and are left out of the handlers; the transaction log of \<^verbatim>\<open>logprov\<close>, which is the
  product of that component, is modelled line by line, and so are the events of the enforcer, the lines about leases and the
  lines about policies. In \<open>SessionRun\<close> one caller of \<^verbatim>\<open>Disconnect\<close> waits at a time. The newline that follows a JSON value is
  taken to be read with the value.
\<close>

section \<open>The limit of a resource\<close>

text \<open>
  C1. In every store the server can reach from an empty in-memory provider, whatever requests it
  serves and however they interleave, the leases of a resource that count against its limit (by
  instance or by consumer) do not exceed the largest limit its policies set.
\<close>

theorem limit_respected:
  assumes "lease_sorter srt" and "sc_LeaseProvider s = MemProv srt" and "sc_sort s = srt"
    and "(serves s (env_ok T (\<lambda>_. True) mem_content mem_revision) (request_ok T s))\<^sup>*\<^sup>* MemProv_New p"
  shows "consumption (tm_Strategy T res) (mem_content p res) \<le> tm_Limit T res"
  using guardian.reachable_ok [OF mem_guardian [OF assms(1)] assms(4) mem_New_ok assms(2,3)]
  by (simp add: store_ok_def page_ok_def page_inv_def)

theorem limit_respected_witness:
  "mem_content sample_store ''cad'' \<noteq> [] \<and> consumption strategy_Instance (mem_content sample_store ''cad'') \<le> 2"
  using limit_respected [OF goSort.lease_sorter_axioms sample_server_simps(1,2) sample_reach, of "''cad''"]
    sample_store_leases
  by (auto simp: sample_terms_def)

text \<open>
  C2. The same holds on a bolt database, for any bolt library that meets its documented behaviour
  and any encoding of leases that can be read back: from a store within the limits, every
  reachable store is within the limits.
\<close>

theorem limit_respected_bolt:
  assumes "boltdb lib cd" and "lease_sorter srt"
    and "sc_LeaseProvider s = BoltProv lib cd" and "sc_sort s = srt"
    and "store_ok T (bolt_invar lib) (bolt_content lib cd) d"
    and "(serves s (env_ok T (bolt_invar lib) (bolt_content lib cd) (bolt_revision lib)) (request_ok T s))\<^sup>*\<^sup>* d d'"
  shows "consumption (tm_Strategy T res) (bolt_content lib cd d' res) \<le> tm_Limit T res"
  using guardian.reachable_ok [OF bolt_guardian [OF assms(1,2)] assms(6,5,3,4)]
  by (simp add: store_ok_def page_ok_def page_inv_def)

theorem limit_respected_bolt_witness:
  "\<exists>d. sample_bolt_acquire ''ann'' ''1'' = Inr (d, sample_bolt_rest) \<and>
    consumption strategy_Instance (bolt_content memory_bolt plain_codec d ''cad'') \<le> 2"
proof -
  obtain d where d: "sample_bolt_acquire ''ann'' ''1'' = Inr (d, sample_bolt_rest)"
    and step: "serves sample_bolt_server (env_ok (sample_terms no_space) (bolt_invar memory_bolt)
      (bolt_content memory_bolt plain_codec) (bolt_revision memory_bolt))
      (request_ok (sample_terms no_space) sample_bolt_server) [] d"
    by (rule sample_bolt_run)
  have "consumption (tm_Strategy (sample_terms no_space) ''cad'') (bolt_content memory_bolt plain_codec d ''cad'')
      \<le> tm_Limit (sample_terms no_space) ''cad''"
    by (rule limit_respected_bolt [OF boltMem.boltdb_axioms goSort.lease_sorter_axioms _ _ sample_bolt_ok, where s = sample_bolt_server])
      (use r_into_rtranclp [of "serves sample_bolt_server _ _", OF step] in \<open>simp_all add: sample_bolt_server_def\<close>)
  with d show ?thesis by (auto simp: sample_terms_def)
qed

text \<open>
  C3. The daemon as the command puts it together: a server whose provider logs the transactions of
  a store, with its timer, its goroutines that publish updates, the clients of its event stream
  and the goroutine that reports statistics, in any interleaving. In every state it reaches, the
  store is within the limits; every set of leases that was sent to a client or broadcast is within
  the limits and comes with its own statistics; and if the command has returned, the server had
  returned that error before, its timer had stopped, and the last report had been made.
\<close>

theorem daemon_keeps_the_terms:
  assumes "guardian src invar content revision srt" and "sc_LeaseProvider s = LogProv src sched" and "sc_sort s = srt"
    and "store_ok T invar content p"
    and "\<forall>res n. env_ok T (\<lambda>p. invar (lp_source p)) (\<lambda>p. content (lp_source p)) (\<lambda>p. revision (lp_source p)) (env res n)"
    and "Server_Run s logger interval env clock listen (LogProv_New p) = Inr st"
    and "(daemon_step s enc
        (env_ok T (\<lambda>p. invar (lp_source p)) (\<lambda>p. content (lp_source p)) (\<lambda>p. revision (lp_source p))) (request_ok T s))\<^sup>*\<^sup>*
      \<lparr>ds_server = st, ds_stats = stats, ds_sent = [], ds_statsDone = False, ds_returned = None\<rparr> d"
  shows "(\<forall>res. consumption (tm_Strategy T res) (content (lp_source (sr_store (ds_server d))) res) \<le> tm_Limit T res) \<and>
    (\<forall>snap. (\<exists>c. ClientSend c (LeasesEvent snap) \<in> set (sr_calls (ds_server d))) \<or>
        StreamBroadcast (Some (LeasesEvent snap)) \<in> set (sr_calls (ds_server d)) \<longrightarrow>
      consumption (tm_Strategy T (sn_Resource snap)) (sn_Leases snap) \<le> tm_Limit T (sn_Resource snap) \<and>
      sn_Stats snap = Set_Stats (sn_Leases snap)) \<and>
    (\<forall>err. ds_returned d = Some err \<longrightarrow> sr_phase (ds_server d) = RunReturned err \<and> refreshDone (ds_server d) \<and>
      (ds_stats d = None \<or> ds_statsDone d))"
proof -
  note G = log_guardian [OF assms(1), of sched]
  have start: "store_ok T (\<lambda>p. invar (lp_source p)) (\<lambda>p. content (lp_source p)) (LogProv_New p)"
    using assms(4) by (simp add: store_ok_def LogProv_New_def)
  have "daemon_ok T (\<lambda>p. invar (lp_source p)) (\<lambda>p. content (lp_source p)) d"
    by (rule guardian.daemon_reachable_ok [OF G assms(7) _ assms(2,3)])
      (use guardian.Server_Run_ok [OF G start assms(5,2,3,6)] in \<open>simp add: daemon_ok_def\<close>)
  then show ?thesis
    by (auto simp: daemon_ok_def run_ok_def store_ok_def page_ok_def page_inv_def calls_ok_def snap_ok_def timer_ok_def
        GuardianCmd_return_def split: runphase.splits)
qed

theorem daemon_keeps_the_terms_witness:
  "\<exists>(d :: memprov logprov daemonstate) snap. StreamBroadcast (Some (LeasesEvent snap)) \<in> set (sr_calls (ds_server d)) \<and>
    map ls_Status (mem_content (lp_source (sr_store (ds_server d))) ''cad'') = [Active] \<and>
    consumption strategy_Instance (mem_content (lp_source (sr_store (ds_server d))) ''cad'') \<le> 2 \<and>
    consumption strategy_Instance (sn_Leases snap) \<le> 2 \<and> sn_Stats snap = Set_Stats (sn_Leases snap)"
proof -
  obtain d snap where run: "(daemon_step sample_log_server (\<lambda>_. None)
        (env_ok (sample_terms no_space) (\<lambda>p. True) (\<lambda>p. mem_content (lp_source p)) (\<lambda>p. mem_revision (lp_source p)))
        (request_ok (sample_terms no_space) sample_log_server))\<^sup>*\<^sup>*
      \<lparr>ds_server = sample_running, ds_stats = None, ds_sent = [], ds_statsDone = False, ds_returned = None\<rparr> d"
    and d: "StreamBroadcast (Some (LeasesEvent snap)) \<in> set (sr_calls (ds_server d))"
      "map ls_Status (mem_content (lp_source (sr_store (ds_server d))) ''cad'') = [Active]"
    using sample_daemon_run unfolding sample_daemon_def by metis
  have calm: "\<forall>res n. env_ok (sample_terms no_space) (\<lambda>p. True) (\<lambda>p. mem_content (lp_source p)) (\<lambda>p. mem_revision (lp_source p)) (quiet n)"
    by (simp add: quiet_calm)
  from daemon_keeps_the_terms [OF mem_guardian [OF goSort.lease_sorter_axioms] sample_log_server_simps(1,2) mem_New_ok
      calm sample_Server_Run run]
  have "consumption strategy_Instance (mem_content (lp_source (sr_store (ds_server d))) ''cad'') \<le> 2"
    "consumption strategy_Instance (sn_Leases snap) \<le> 2 \<and> sn_Stats snap = Set_Stats (sn_Leases snap)"
    using d(1) by (simp_all add: sample_terms_def)
  with d show ?thesis by (intro exI [of _ d] exI [of _ snap] conjI) simp_all
qed





section \<open>Requests and responses\<close>



text \<open>
  C7. A release that reports success leaves no active and no queued lease for the subject: what
  the store still holds for it is decaying.
\<close>

theorem released_is_gone:
  assumes "guardian prov invar content revision srt" and "sc_LeaseProvider s = prov" and "sc_sort s = srt"
    and "store_ok T invar content p" and "\<forall>n. env_ok T invar content revision (env n)"
    and "releaseHandler s env clock r p = Inr (p', ev, resp)" and "rs_Body resp = ReleaseBody b"
    and "l \<in> set (content p' (sub_Resource (rq_Subject (rr_Request b))))" and "ls_Subject l = rq_Subject (rr_Request b)"
  shows "ls_Status l = Released"
  using guardian.releaseHandler_gone [OF assms(1,4,5,2,3,6,7)] assms(8,9) by (simp add: gone_def)

theorem released_is_gone_witness:
  "\<exists>l. ls_Status l = Released \<and> l \<in> set (mem_content sample_released ''cad'')"
proof -
  obtain ev resp b l where run: "releaseHandler sample_server quiet sample_time (Inr sample_release_form) sample_store =
      Inr (sample_released, ev, resp)" and body: "rs_Body resp = ReleaseBody b"
    and l: "l \<in> set (mem_content sample_released (sub_Resource (rq_Subject (rr_Request b))))"
      "ls_Subject l = rq_Subject (rr_Request b)" "sub_Resource (rq_Subject (rr_Request b)) = ''cad''"
    by (rule sample_release_run)
  have "\<forall>n. env_ok (sample_terms no_space) (\<lambda>_. True) mem_content mem_revision (quiet n)" by (simp add: quiet_calm)
  from released_is_gone [OF mem_guardian [OF goSort.lease_sorter_axioms] sample_server_simps(1,2) sample_store_ok this run body l(1,2)]
    l show ?thesis by auto
qed

text \<open>
  C8. Where policies name valid strategies and host names hold no space, no acquire request
  panics: the count of decaying leases always agrees with the transaction, and the statistics line
  can be computed.
\<close>

theorem acquire_never_panics:
  assumes "guardian prov invar content revision srt" and "sc_LeaseProvider s = prov" and "sc_sort s = srt"
    and "store_ok T invar content p"
    and "\<forall>n. env_ok T invar content revision (renv n)" and "\<forall>n. env_ok T invar content revision (env n)"
    and "request_ok T s r" and "\<And>h. tm_Host T h \<Longrightarrow> no_space h"
    and "\<forall>all. sc_Policies s = Inr all \<longrightarrow> (\<forall>pol \<in> set all. strategy_Valid (pol_Strategy pol))"
  shows "\<exists>p' ev resp. acquireHandler s renv rclock env clock r p = Inr (p', ev, resp)"
  by (rule guardian.acquireHandler_total [OF assms(1,4,5,6,7,2,3,8,9)])

theorem acquire_never_panics_witness:
  "\<exists>p' ev resp. acquireHandler sample_server quiet sample_time quiet sample_time
     (Inr (sample_form ''ann'' ''1'')) MemProv_New = Inr (p', ev, resp)"
  by (rule acquire_never_panics [OF mem_guardian [OF goSort.lease_sorter_axioms] sample_server_simps(1,2) mem_New_ok _ _
        sample_form_ok [OF sample_server_simps(3)]])
    (simp_all add: quiet_calm sample_pols, simp add: sample_terms_def)

text \<open>
  C9. A consumer that holds nothing is activated at once only if no lease with the same or a
  larger limit is left waiting: nobody overtakes the queue.
\<close>

theorem first_come_first_served:
  assumes "lease_sorter srt" and "page_ok T (sub_Resource subject) xs" and "pols_terms T subject pols"
    and "acquire_body srt subject props pols now rv xs = Inr (ls, tx)"
    and "\<forall>l \<in> set xs. ls_HostUser l \<noteq> Subject_HostUser subject" and "ls_Status ls = Active"
  shows "\<forall>l \<in> set (tx_leases tx). ls_Status l = Queued \<longrightarrow> ls_Limit l < PolicySet_Limit pols"
  by (rule acquire_body_fair [OF assms])

theorem first_come_first_served_witness:
  "\<exists>ls tx. acquire_body insertionSort sample_subject Map.empty [sample_policy] 1000 0 [sample_waiting] = Inr (ls, tx) \<and>
    ls_Status ls = Active \<and> (\<forall>l \<in> set (tx_leases tx). ls_Status l = Queued \<longrightarrow> ls_Limit l < 2)"
proof -
  obtain ls tx where run: "acquire_body insertionSort sample_subject Map.empty [sample_policy] 1000 0 [sample_waiting] = Inr (ls, tx)"
    and st: "ls_Status ls = Active" by (rule sample_body_run)
  have "page_ok (sample_terms no_space) (sub_Resource sample_subject) [sample_waiting]"
    "pols_terms (sample_terms no_space) sample_subject [sample_policy]"
    "\<forall>l \<in> set [sample_waiting]. ls_HostUser l \<noteq> Subject_HostUser sample_subject" by (rule sample_waiting_ok)+
  from first_come_first_served [OF goSort.lease_sorter_axioms this(1,2) run this(3) st] run st
  show ?thesis by (simp add: sample_pols)
qed

text \<open>
  C10. Renewing a lease that is active or queued keeps its status and its start time, so a waiting
  instance does not lose its place in line, and stamps the renewal with the current time.
\<close>

theorem renewal_keeps_its_place:
  assumes "lease_sorter srt" and "Refresh srt (NewTx (sub_Resource subject) rv xs) now = Inr (acc, tx1)"
    and "Tx_Instance tx1 (sub_Instance subject) = Some e" and "ls_Status e \<noteq> Released"
    and "acquire_body srt subject props pols now rv xs = Inr (ls, tx)"
  shows "ls_Status ls = ls_Status e \<and> ls_Started ls = ls_Started e \<and> ls_Renewed ls = now"
  by (rule acquire_body_renews [OF assms])

theorem renewal_keeps_its_place_witness:
  "\<exists>ls tx. acquire_body insertionSort (ls_Subject sample_waiting) Map.empty [sample_policy] 1000 0 [sample_waiting] = Inr (ls, tx) \<and>
    ls_Status ls = Queued \<and> ls_Started ls = 900 \<and> ls_Renewed ls = 1000"
proof -
  obtain acc tx1 e ls tx where r: "Refresh insertionSort (NewTx (sub_Resource (ls_Subject sample_waiting)) 0 [sample_waiting]) 1000 = Inr (acc, tx1)"
    "Tx_Instance tx1 (sub_Instance (ls_Subject sample_waiting)) = Some e" "ls_Status e = Queued" "ls_Started e = 900"
    "acquire_body insertionSort (ls_Subject sample_waiting) Map.empty [sample_policy] 1000 0 [sample_waiting] = Inr (ls, tx)"
    by (rule sample_renew_run)
  with renewal_keeps_its_place [OF goSort.lease_sorter_axioms r(1,2) _ r(5)] show ?thesis by simp
qed

section \<open>Running a program under a lease\<close>

text \<open>
  C11. Whatever states the maintainer reports, whatever the user does with the dialogs and however
  the goroutines interleave, the runner has started its program exactly once if it is running and
  otherwise not at all, and no turn of its loop panics.
\<close>

theorem runs_the_program_once:
  assumes "rn_step\<^sup>*\<^sup>* Runner_New r" and "um_sent (rn_ui r) = None"
  shows "rn_started r = (if rn_running r then 1 else 0) \<and> (\<exists>r' err. Runner_turn start now state r = Inr (r', err))"
proof -
  from rnInv.reached_ok [OF assms(1)] have ok: "rn_ok r" .
  with Runner_turn_ok [OF ok assms(2), of start now state] show ?thesis by (auto simp: rn_ok_def)
qed

theorem runs_the_program_once_witness:
  "rn_started run1 = 1 \<and> (\<exists>r' err. Runner_turn None 2000 state_active run1 = Inr (r', err))"
  using runs_the_program_once [OF run1_reachable run1_quiet, of None 2000 state_active] run1_started by simp

text \<open>
  C12. A turn after which the program runs on has either seen an active lease or the answer that
  none is required, or it has seen an error while the program was already running on a lease that
  has not expired: otherwise the turn stops the program.
\<close>

theorem runner_enforces_the_lease:
  assumes "Runner_turn start now state r = Inr (r', None)" and "rn_running r'" and "\<not> rn_shutdown r'"
  shows "if lt_Err state = None then lt_LeaseNotRequired state \<or> ls_Status (lt_Lease state) = Active
    else rn_running r \<and> \<not> Lease_Expired (lt_Lease state) now"
  by (rule Runner_turn_enforces [OF assms])

theorem runner_enforces_the_lease_witness:
  "lt_Err state_active = None \<and> (lt_LeaseNotRequired state_active \<or> ls_Status (lt_Lease state_active) = Active)"
  using runner_enforces_the_lease [OF run1_turn] run1_started run1_on state_active_err by simp

text \<open>
  C13. In every state the runner can reach, the dialog that will be on the screen once the
  directives under way have arrived is of the type asked for last, or none; and a callback never
  leaves a directive behind that nobody receives.
\<close>

theorem dialogs_follow_the_requests:
  assumes "rn_step\<^sup>*\<^sup>* Runner_New r"
  shows "(dr_Type (um_target (rn_ui r)) = um_current (rn_ui r) \<or> dr_Type (um_target (rn_ui r)) = UI_None) \<and>
    (um_sent (rn_ui r) = None \<and> dr_Callback (um_shown (rn_ui r)) = Some cb \<longrightarrow>
      um_sent (Run_next (rn_ui (Runner_callback now cb result r))) = None)"
proof -
  from rnInv.reached_ok [OF assms] have ok: "rn_ok r" .
  then have "um_ok (rn_ui r)" by (simp add: rn_ok_def ui_ok_def)
  from um_ok_target [OF this] callback_ok(2) [OF ok _ _ refl, of cb now result] show ?thesis by blast
qed

theorem dialogs_follow_the_requests_witness:
  "dr_Type (um_target (rn_ui stuck4)) = UI_Startup \<and>
   um_sent (Run_next (rn_ui (Runner_callback 1000 startupCallback UserClosed stuck4))) = None"
  using dialogs_follow_the_requests [OF stuck4_reachable, of startupCallback 1000 UserClosed] stuck4_shows by simp

section \<open>Enforcement on a machine\<close>



text \<open>
  C15. Over any sequence of events a managed process is terminated exactly if, before its
  management ended, some state of its lease was a violation (an acquired lease that is not active
  or has expired, or no lease, one being required and the server unreachable) and the termination
  went through; and the user of its session is told once, exactly then.
\<close>

theorem terminated_exactly_on_violation:
  "(let iv = NewInvocation inst process session; iv' = manage Maintaining es iv in
     iv_termPending iv' = (\<exists>(s, now, t) \<in> set (managed_states es). violation s now \<and> t = None) \<and>
     iv_notices iv' = (if iv_termPending iv' \<and> session then [pd_Name process] else []))"
  using manage_outcome [of es "NewInvocation inst process session"]
  by (simp add: Let_def NewInvocation_def told_def split: if_splits)

text \<open>
  C16. In every state the threads of an invocation can reach, a call of Stop that is accepted
  returns after steps of the threads alone; the invocation is then done and is what the loop of
  manage makes of the events it has acted on, its maintainer has stopped after a run of the
  maintainer's own steps, and it does not hold its lease, unless the release failed.
\<close>

theorem invocation_stops_and_releases:
  assumes "(ir_step net resolve)\<^sup>*\<^sup>* (NewInvocation_run c props inst process session w) r" and "ir_stop r" and "Stop_call r = Some r1"
  shows "\<exists>r'. (ir_work net resolve)\<^sup>*\<^sup>* r1 r' \<and> ir_caller r' = CallerFree \<and> \<not> ir_stop r' \<and> Invocation_Done (ir_inv r') \<and>
    ir_inv r' = manage Maintaining (ir_events r') (NewInvocation inst process session) \<and>
    (lm_step net resolve)\<^sup>*\<^sup>* (ir_lm r, ir_world r) (ir_lm r', ir_world r') \<and> \<not> lm_running (ir_lm r') \<and>
    (lt_Err (lm_state (ir_lm r')) = None \<longrightarrow> \<not> lt_Acquired (lm_state (ir_lm r')))"
proof -
  from invocationInv.reached_ok [OF assms(1)] have ok: "ir_ok (NewInvocation inst process session) r" .
  from stop_completes [OF ok assms(2,3)] obtain r' where r': "(ir_work net resolve)\<^sup>*\<^sup>* r1 r'"
    "ir_ok (NewInvocation inst process session) r'" "ir_stopped r'" "ir_inv r' = manage Maintaining (ir_events r') (NewInvocation inst process session)"
    by blast
  have "(ir_step net resolve)\<^sup>*\<^sup>* r1 r'" using r'(1) by (rule rtranclp_mono [THEN predicate2D, rotated]) (blast intro: ir_step.work)
  then have "(ir_step net resolve)\<^sup>*\<^sup>* r r'" using ir_step.stop [OF assms(3)] by (rule converse_rtranclp_into_rtranclp [rotated])
  from invocationLease.run_refines [OF this ok] r' ir_stopped_state [OF r'(2,3)] show ?thesis
    by (intro exI [of _ r']) (simp add: ir_stopped_def)
qed

theorem invocation_stops_and_releases_witness:
  "\<exists>r r'. run_acquire (loopback sample_server sample_time) (\<lambda>w. (w, Inr []))
     (NewInvocation_run NewClient [] zero_instance sample_proc True MemProv_New) = Some r \<and>
   (ir_work (loopback sample_server sample_time) (\<lambda>w. (w, Inr [])))\<^sup>*\<^sup>* (r\<lparr>ir_ctx := True, ir_caller := CallerStopping\<rparr>) r' \<and>
   Invocation_Done (ir_inv r')"
proof -
  let ?net = "loopback sample_server sample_time" and ?res = "\<lambda>w. (w, Inr [])"
  let ?r0 = "NewInvocation_run NewClient [] zero_instance sample_proc True MemProv_New"
  have "\<exists>r. run_acquire ?net ?res ?r0 = Some r \<and> ir_caller r = CallerFree \<and> ir_stop r"
    by (simp add: run_acquire_def NewInvocation_run_def split: prod.split)
  then obtain r where r: "run_acquire ?net ?res ?r0 = Some r" "ir_caller r = CallerFree" "ir_stop r" by blast
  have step: "ir_step ?net ?res ?r0 r" by (intro ir_step.work ir_work.acquire) (rule r(1))
  have "Stop_call r = Some (r\<lparr>ir_ctx := True, ir_caller := CallerStopping\<rparr>)" using r(2,3) by (simp add: Stop_call_def)
  from invocation_stops_and_releases [OF r_into_rtranclp [of "ir_step ?net ?res", OF step] r(3) this] r(1) show ?thesis by blast
qed

text \<open>
  C17. The process that Terminate acts on is the one that was to be managed, even if its process
  ID has been given to another process since; and in passive mode the reference was opened without
  the right to terminate.
\<close>

theorem only_the_intended_process_is_terminated:
  assumes "Process_Terminate wp passive process = (Some ref, err)"
  shows "wp_UniqueID wp ref = Inr (pd_UniqueID process) \<and>
    (passive \<longrightarrow> (\<exists>rights. TerminateRight \<notin> rights \<and> wp_Open wp (pd_ID process) rights = Inr ref))"
proof -
  from assms have open_: "Process_open wp process passive = Inr ref"
    by (auto simp: Process_Terminate_def split: sum.splits)
  then have "openProcess wp (pd_ID process) passive = Inr ref"
    by (auto simp: Process_open_def split: sum.splits if_splits)
  with Process_open_same [OF open_] openProcess_passive [of wp "pd_ID process" ref] show ?thesis by auto
qed

theorem only_the_intended_process_is_terminated_witness:
  "wp_UniqueID (se_winproc sample_env) ''42'' = Inr (pd_UniqueID sample_proc) \<and>
   (\<exists>rights. TerminateRight \<notin> rights \<and> wp_Open (se_winproc sample_env) (pd_ID sample_proc) rights = Inr ''42'')"
proof -
  have "Process_Terminate (se_winproc sample_env) True sample_proc = (Some ''42'', None)" by code_simp
  from only_the_intended_process_is_terminated [OF this] show ?thesis by simp
qed

text \<open>
  C18. Given a codec that reads back what it writes, in every state a session can reach, through
  any number of connections: the process of a connection has read the messages written to it, from
  the first one on and in their order, these are among the messages the session accepted, in the
  order it accepted them, and its user interface has the state that handling exactly these
  messages gives; as long as the first connection lasts, every accepted message that can be
  encoded has been read, is in the pipe or is in the channel; and a call of Disconnect returns
  after steps of the goroutines alone.
\<close>

theorem messages_arrive_in_order:
  assumes "stream_codec mc" and "(sn_step mc)\<^sup>*\<^sup>* (sessionrun_New key user domain) x" and "conn_at i x = Some c"
  shows "prefix (cn_read c) (cn_written c) \<and> subseq (cn_written c) (sn_accepted x) \<and>
    (cn_process c \<longrightarrow> cn_ui c = foldl (\<lambda>u msg. UI_Handle msg u) ui_start (cn_read c)) \<and>
    (sn_conns x = [c] \<and> cn_process c \<and> (\<forall>msg \<in> set (sn_accepted x). \<exists>b. mc_Encode mc msg = Inr b) \<longrightarrow>
      (\<exists>msgs. sn_accepted x = cn_read c @ msgs @ ss_outbound (sn_session x) \<and> encodes mc msgs = Some (cn_pipe c))) \<and>
    (\<forall>x1. Disconnect_call x = Some x1 \<longrightarrow> (\<exists>x'. (sn_work mc)\<^sup>*\<^sup>* x1 x' \<and> sn_waiting x' = None))"
proof -
  from reached_session_ok [OF assms(1,2)] have ok: "sn_ok mc x" .
  from messages_in_order [OF ok assms(3)] nothing_lost [OF ok] disconnect_completes [OF assms(1) ok] show ?thesis by blast
qed

theorem messages_arrive_in_order_witness:
  "cn_ui sample_read = UI_Handle sample_message ui_start \<and> subseq (cn_written sample_read) [sample_message] \<and>
   (\<exists>x1 x'. Disconnect_call (sample_sessionrun sample_read) = Some x1 \<and> (sn_work symbol_codec)\<^sup>*\<^sup>* x1 x' \<and> sn_waiting x' = None)"
proof -
  have "\<exists>x1. Disconnect_call (sample_sessionrun sample_read) = Some x1" by (simp add: Disconnect_call_def sample_sessionrun_def Let_def)
  with messages_arrive_in_order [OF symbol_codec_stream sample_session_read sample_read_simps(1)] sample_read_simps(3-6)
  show ?thesis by fastforce
qed



text \<open>
  C20. The goroutines of the enforcement service refine the service whose stop is a single step:
  whatever they do between the shutdown and the moment each of them notices it, what is seen of
  the service is a run of the simple one. And from every state they reach, a call of Stop returns
  after steps of the goroutines alone, with every invocation and every session gone and none of
  the goroutines left.
\<close>

theorem service_threads_refine_the_service:
  assumes "(sx_step E)\<^sup>*\<^sup>* servicerun_New x"
  shows "(sv_step E)\<^sup>*\<^sup>* Service_New (sx_view x) \<and>
    (\<forall>x1. sv_running (sx_service x) \<longrightarrow> Service_Stop_call x = Some x1 \<longrightarrow>
      (\<exists>x'. (sx_work E)\<^sup>*\<^sup>* x1 x' \<and> sx_run x' = NotRunning \<and> \<not> sv_running (sx_service x') \<and>
        pm_invocations (sv_procs (sx_service x')) = [] \<and> pm_managed (sv_procs (sx_service x')) = [] \<and>
        sm_managed (sv_sessions (sx_service x')) = [] \<and>
        sx_canceller x' \<noteq> Live \<and> sx_policy x' \<noteq> Live \<and> sx_enforce x' \<noteq> Live \<and> sx_session x' \<noteq> Live))"
proof -
  from serviceThreads.run_refines [OF assms servicerun_New_ok] have "(sv_step E)\<^sup>*\<^sup>* Service_New (sx_view x)"
    by (simp add: sx_view_def servicerun_New_def)
  with service_stop_completes [OF serviceInv.reached_ok [OF assms]] show ?thesis unfolding managers_stopped_def by blast
qed

theorem service_threads_refine_the_service_witness:
  "(sv_step sample_env)\<^sup>*\<^sup>* Service_New (sx_view sample_servicerun) \<and>
   (\<exists>x'. (sx_work sample_env)\<^sup>*\<^sup>* (sample_servicerun\<lparr>sx_shutdown := True, sx_stopping := True\<rparr>) x' \<and> sx_run x' = NotRunning)"
proof -
  have "sv_running (sx_service sample_servicerun)" by (simp add: sample_servicerun_def)
  moreover have "Service_Stop_call sample_servicerun = Some (sample_servicerun\<lparr>sx_shutdown := True, sx_stopping := True\<rparr>)"
    by (simp add: Service_Stop_call_def sample_servicerun_def servicerun_New_def)
  ultimately show ?thesis using service_threads_refine_the_service [OF sample_service_started [of sample_env]] by blast
qed







text \<open>
  C24. The settings of an installation reach the service: after an installation that succeeds, the
  service that Windows starts with the installed arguments runs, reports so, talks to the server
  that was named (or looks one up when none was) and kills no processes exactly when the passive
  mode was asked for; provided that the parser gives the short flags of the command their declared
  meaning.
\<close>

theorem installed_settings_are_enforced:
  assumes "InstallCmd_Run rg ie ic m = (m', 0)" and "ic_Server ic = '''' \<or> hd (ic_Server ic) \<noteq> CHR ''-''"
    and "\<forall>flags cmd. flag_values flags zero_enforceCmd = Some cmd \<longrightarrow> parse (''enforce'' # flags) = (cmd, None)"
    and "ho_Executable ho = Inr executable" and "ho_Hostname ho = Inr hostname"
  shows "\<exists>path args x. InstallService path args \<in> set (mc_calls m') \<and>
    Execute ho (serviceHandler (parse args)) [ServiceName] = Inr x \<and> sv_running (ex_service x) \<and>
    last (ex_changes x) = svc_status SvcRunning True \<and> ex_client x = newClient (ic_Server ic) \<and>
    se_passive (service_env E x) = ic_Passive ic"
proof -
  let ?cmd = "\<lparr>en_Server = ic_Server ic, en_Passive = ic_Passive ic, en_Debug = False\<rparr>"
  obtain flags where "serviceArgs ic = ''enforce'' # flags" "flag_values flags zero_enforceCmd = Some ?cmd"
    by (rule serviceArgs_flags [OF assms(2)])
  then have "parse (serviceArgs ic) = (?cmd, None)" using assms(3) by simp
  moreover obtain x where "Execute ho (serviceHandler (?cmd, None)) [ServiceName] = Inr x" "ex_client x = newClient (en_Server ?cmd)"
    "hd_Conf (ex_handler x) = EnforceCmd_Config ?cmd" "sv_running (ex_service x)" "last (ex_changes x) = svc_status SvcRunning True"
    using Execute_installed [OF assms(4,5), of ?cmd ServiceName] by blast
  moreover obtain path where "InstallService path (serviceArgs ic) \<in> set (mc_calls m')"
    using installed_arguments [OF assms(1)] by blast
  ultimately show ?thesis
    by (intro exI [of _ path] exI [of _ "serviceArgs ic"] exI [of _ x]) (simp add: service_env_def EnforceCmd_Config_def)
qed

theorem installed_settings_are_enforced_witness:
  "\<exists>path args x. InstallService path args \<in> set (mc_calls sample_installed) \<and>
    Execute sample_host (serviceHandler (sample_parse args)) [ServiceName] = Inr x \<and> ex_client x = FixedEndpoint ''guardian''"
  using installed_settings_are_enforced [OF sample_InstallCmd_Run, of sample_parse sample_host] sample_parse_enforce
  by (fastforce simp: sample_host_def newClient_def)

text \<open>
  C25. The loop that makes the random identifier of an instance ends whenever its source keeps
  naming letters (no bound on the draws is needed): there is an identifier of the length asked
  for, made of letters, that every allowance of turns from some number on returns. The loop is the
  first letters named by successive groups of six bits, ten to a draw, last one first.
\<close>

theorem identifiers_are_found:
  assumes "\<forall>m. \<exists>t \<ge> m. group src t < length letterBytes"
  shows "\<exists>i. length i = n \<and> set i \<subseteq> set letterBytes \<and>
    (\<exists>N. (\<forall>turns \<ge> N. randomID turns src n = Some i) \<and> i = rev (take n (letters src 0 N)))"
proof -
  from randomID_returns [OF assms, of n] obtain i N where i: "length i = n" "set i \<subseteq> set letterBytes"
    "\<forall>turns \<ge> N. randomID turns src n = Some i" by blast
  moreover have "i = rev (take n (letters src 0 N))" using i(3) randomID_letters [of N src n] by (auto split: if_splits)
  ultimately show ?thesis by blast
qed

theorem identifiers_are_found_witness:
  "\<exists>i. length i = 12 \<and> set i \<subseteq> set letterBytes \<and> (\<exists>N. \<forall>turns \<ge> N. randomID turns (\<lambda>_. 0) 12 = Some i)"
  using identifiers_are_found [OF sample_source, of 12] by blast

text \<open>
  C26. For criteria that compare exactly, or up to the case of ASCII letters, the process filter
  built from a policy's criteria accepts a process exactly if the criteria match its properties.
\<close>

theorem scan_filter_agrees_with_the_policy:
  assumes "Enforcer_Filter lib eqf cs env = Inr (Some f)" and "\<forall>c \<in> set cs. plain_criterion c (Enforcer_Properties p env)"
  shows "f p = Criteria_Match lib cs (Enforcer_Properties p env)"
  by (rule Filter_match [OF assms])

theorem scan_filter_agrees_with_the_policy_witness:
  "\<exists>f. Enforcer_Filter sample_lib (\<lambda>_ _. False) [sample_criterion] Map.empty = Inr (Some f) \<and>
    f sample_proc = Criteria_Match sample_lib [sample_criterion] (Enforcer_Properties sample_proc Map.empty)"
proof -
  obtain f where f: "Enforcer_Filter sample_lib (\<lambda>_ _. False) [sample_criterion] Map.empty = Inr (Some f)"
    using sample_filter by blast
  have "\<forall>c \<in> set [sample_criterion]. plain_criterion c (Enforcer_Properties sample_proc Map.empty)"
    by (simp add: plain_criterion_def sample_criterion_def)
  from scan_filter_agrees_with_the_policy [OF f this] f show ?thesis by blast
qed

section \<open>Refreshing a page of leases\<close>

text \<open>
  C27. After a refresh nothing is left to do at that time: no active or queued lease is expired,
  no released lease has finished decaying, and nobody waits for a free slot (a lease still queued
  has its limit's worth of slots taken by others).
\<close>

theorem refresh_leaves_nothing_to_do:
  assumes "lease_sorter srt" and "Refresh srt tx at = Inr (acc, tx')" and "\<forall>l \<in> set (tx_leases tx). clean l"
    and "l \<in> set (tx_leases tx')"
  shows "(ls_Status l = Active \<or> ls_Status l = Queued \<longrightarrow> \<not> Lease_Expired l at) \<and>
    (ls_Status l = Released \<longrightarrow> \<not> Lease_Decayed l at) \<and>
    (ls_Status l = Queued \<longrightarrow> ls_Limit l \<le> consumption (ls_Strategy l) (tx_leases tx'))"
  using Refresh_current [OF assms(1,2,3)] Refresh_saturated [OF assms(1,2)] assms(4) by (auto simp: current_def)

theorem refresh_leaves_nothing_to_do_witness:
  "\<exists>acc tx' l. Refresh insertionSort (NewTx ''cad'' 0 sample_page) 1000 = Inr (acc, tx') \<and>
    tx_leases tx' = [l] \<and> ls_Status l = Active \<and> \<not> Lease_Expired l 1000"
proof -
  obtain acc tx where tx: "Refresh insertionSort (NewTx ''cad'' 0 sample_page) 1000 = Inr (acc, tx)"
    "map ls_Status (tx_leases tx) = [Active]" by (rule sample_promote_run)
  then obtain l where l: "tx_leases tx = [l]" "ls_Status l = Active" by (auto simp: map_eq_Cons_conv)
  with refresh_leaves_nothing_to_do [OF goSort.lease_sorter_axioms tx(1), of l] sample_page_simps(2) tx(1)
  show ?thesis by (simp add: NewTx_def)
qed

text \<open>
  C28. Promoting the queue never overshoots: when every queued lease asks for the same strategy
  and at most the same limit, a refresh leaves at most that many slots taken, or at most as many
  as before it.
\<close>

theorem refresh_keeps_the_limit:
  assumes "lease_sorter srt" and "Refresh srt tx at = Inr (acc, tx')" and "in_order (tx_leases tx)"
    and "\<forall>l \<in> set (tx_leases tx). ls_Status l = Queued \<longrightarrow> ls_Strategy l = strat \<and> ls_Limit l \<le> lim"
  shows "consumption strat (tx_leases tx') \<le> max lim (consumption strat (tx_leases tx))"
  by (rule Refresh_within [OF assms])

theorem refresh_keeps_the_limit_witness:
  "\<exists>acc tx'. Refresh insertionSort (NewTx ''cad'' 0 sample_page) 1000 = Inr (acc, tx') \<and>
    map ls_Status (tx_leases tx') = [Active] \<and> consumption strategy_Instance (tx_leases tx') \<le> 1"
proof -
  obtain acc tx where tx: "Refresh insertionSort (NewTx ''cad'' 0 sample_page) 1000 = Inr (acc, tx)"
    "map ls_Status (tx_leases tx) = [Active]" by (rule sample_promote_run)
  with refresh_keeps_the_limit [OF goSort.lease_sorter_axioms tx(1), of strategy_Instance 1] sample_page_simps
  show ?thesis by (simp add: NewTx_def)
qed

section \<open>Lease providers\<close>



text \<open>
  C30. A commit to bolt is all or nothing: if it reports an error the database is untouched, and
  if it reports success the transaction was built on the current revision, its resource holds
  exactly its leases, the revision has moved on by one and no other resource changed.
\<close>

theorem bolt_commit_is_atomic:
  assumes "boltdb lib cd" and "bolt_invar lib d" and "BoltProv_LeaseCommit lib cd d tx = (d', r)" and "tx_ops tx \<noteq> []"
  shows "(r \<noteq> None \<and> d' = d) \<or>
    (r = None \<and> tx_revision tx = bolt_revision lib d (tx_resource tx) \<and>
     bolt_content lib cd d' (tx_resource tx) = tx_leases tx \<and>
     bolt_revision lib d' (tx_resource tx) = bolt_revision lib d (tx_resource tx) + 1 \<and>
     (\<forall>res. res \<noteq> tx_resource tx \<longrightarrow> bolt_content lib cd d' res = bolt_content lib cd d res))"
  using boltdb.commit_cases [OF assms(1,3)] assms(4) boltdb.update_result [OF assms(1) _ assms(2)] by blast

theorem bolt_commit_is_atomic_witness:
  "bolt_content memory_bolt plain_codec (fst (BoltProv_LeaseCommit memory_bolt plain_codec [] sample_tx)) ''cad'' = [sample_grant]"
proof -
  obtain d' where run: "BoltProv_LeaseCommit memory_bolt plain_codec [] sample_tx = (d', None)"
    using sample_bolt_commit by blast
  from bolt_commit_is_atomic [OF boltMem.boltdb_axioms _ run] run show ?thesis
    by (simp add: bolt_invar_def memory_bolt_def)
qed





section \<open>Policies\<close>

text \<open>
  C34. Policies written to a directory are read back: when storing a set of valid policies in
  their JSON form succeeds, reading the directory gives exactly those policies, whatever policy
  files it held before. Their durations travel as text, and every 64-bit duration is printed and
  parsed without loss; of encoding/json it is assumed that an object it writes is the object it
  reads.
\<close>

theorem policy_files_roundtrip:
  assumes "FsProv_SetPolicies (policy_codec fl js) hash io_ok pols d = (d', None)" and "gm_wf d"
    and "\<And>doc b. js_Marshal js doc = Inr b \<Longrightarrow> js_Unmarshal js b = Inr doc" and "inj_on hash (set pols)"
    and "\<forall>p \<in> set pols. policy_typed p \<and> strategy_Valid (pol_Strategy p) \<and> pol_Duration p \<noteq> 0"
  shows "\<exists>pols'. FsProv_Policies (policy_codec fl js) io_ok d' = (pols', None) \<and> set pols' = set pols"
proof (rule SetPolicies_roundtrip [OF assms(1,2) _ assms(4)])
  fix p b assume "p \<in> set pols" "pc_Marshal (policy_codec fl js) p = Inr b"
  with assms(5) Policy_json_roundtrip [OF _ assms(3), of p b] show "pc_Unmarshal (policy_codec fl js) b = Inr p"
    by (simp add: policy_codec_def)
qed (use assms(5) in blast)

theorem policy_files_roundtrip_witness:
  "\<exists>pols'. FsProv_Policies (policy_codec (\<lambda>f unit scale. 0) \<lparr>js_Marshal = Inr, js_Unmarshal = Inr\<rparr>) io_ok
     (fst (FsProv_SetPolicies (policy_codec (\<lambda>f unit scale. 0) \<lparr>js_Marshal = Inr, js_Unmarshal = Inr\<rparr>) (\<lambda>_. ''h'') io_ok [sample_policy] [])) =
       (pols', None) \<and> set pols' = {sample_policy}"
proof -
  let ?js = "\<lparr>js_Marshal = Inr, js_Unmarshal = Inr\<rparr>" and ?fl = "\<lambda>f unit scale. 0 :: nat"
  obtain d' r where run: "FsProv_SetPolicies (policy_codec ?fl ?js) (\<lambda>_. ''h'') io_ok [sample_policy] [] = (d', r)" by fastforce
  then have "r = None"
    by (auto simp: FsProv_SetPolicies_def policy_codec_def Policy_MarshalJSON_def ReadDir_def io_ok_def gm_put_def split: if_splits)
  moreover have "policy_typed sample_policy"
    by (simp add: sample_policy_def Policy_New_def policy_typed_def int64_def zero_refresh_def Minute_def Second_def)
  ultimately show ?thesis using policy_files_roundtrip [of ?fl ?js "\<lambda>_. ''h''" "[sample_policy]" "[]" d'] run
    by (simp add: gm_wf_def sample_policy_def Policy_New_def strategy_Valid_def Minute_def Second_def)
qed

text \<open>
  C35. Whatever files a policy directory holds and whichever of them fail to read, a policy that
  is returned has a known strategy and a duration.
\<close>

theorem policies_read_are_valid:
  assumes "FsProv_Policies pc io d = (pols, err)" and "p \<in> set pols"
  shows "strategy_Valid (pol_Strategy p) \<and> pol_Duration p \<noteq> 0"
  by (rule FsProv_Policies_valid [OF assms])

theorem policies_read_are_valid_witness:
  "\<exists>p. p \<in> set (fst (FsProv_Policies \<lparr>pc_Marshal = Inr, pc_Unmarshal = Inr\<rparr> io_ok
     [(''a.pol'', File (sample_policy\<lparr>pol_Duration := 0\<rparr>))])) \<and> pol_Duration p \<noteq> 0"
proof -
  let ?r = "FsProv_Policies \<lparr>pc_Marshal = Inr, pc_Unmarshal = Inr\<rparr> io_ok [(''a.pol'', File (sample_policy\<lparr>pol_Duration := 0\<rparr>))]"
  have "fst ?r \<noteq> []"
    by (simp add: FsProv_Policies_def ReadDir_def ReadFile_def io_ok_def isPolicyFile_def PolSuffix_def strings_HasSuffix_def
        sample_policy_def Policy_New_def strategy_Valid_def Let_def)
  then obtain p where p: "p \<in> set (fst ?r)" by (cases "fst ?r") auto
  with policies_read_are_valid [OF surjective_pairing p] show ?thesis by blast
qed

section \<open>Clients\<close>

text \<open>
  C36. What a client encodes is what the server parses: whatever order the properties are ranged
  over and the form arrives in, the server reads back the subject and the properties, as long as
  no property has a reserved name.
\<close>

theorem requests_roundtrip:
  assumes "map_order props order" and "\<And>k. reserved k \<Longrightarrow> props k = None" and "mset f = mset (urlValues s order)"
  shows "parseRequest (Inr f) = Inr \<lparr>rq_Subject = s, rq_Properties = props\<rparr>"
  by (rule urlValues_roundtrip [OF assms])

theorem requests_roundtrip_witness:
  "parseRequest (Inr (rev (urlValues sample_subject [(''program'', ''cad.exe'')]))) =
     Inr \<lparr>rq_Subject = sample_subject, rq_Properties = [''program'' \<mapsto> ''cad.exe'']\<rparr>"
  by (rule requests_roundtrip [of _ "[(''program'', ''cad.exe'')]"]) (auto simp: map_order_def reserved_def)





text \<open>
  C39. However its timer, its calls and the world interleave, a maintainer reports a consistent
  state: never a lease both held and not required, online only while it runs and has an answer of
  the server, and no closed listener on its list.
\<close>

theorem maintainer_state_is_consistent:
  assumes "(lm_step net resolve)\<^sup>*\<^sup>* (NewLeaseMaintainer c inst props retry, w) (lm, w')" and "client_ok c"
  shows "\<not> (lt_Acquired (lm_state lm) \<and> lt_LeaseNotRequired (lm_state lm)) \<and>
    (lt_Online (lm_state lm) \<longrightarrow> lm_running lm \<and> (lt_Acquired (lm_state lm) \<or> lt_LeaseNotRequired (lm_state lm))) \<and>
    (\<forall>l \<in> set (lm_listeners lm). \<not> li_closed l)"
  using lmInv.run_keeps [OF assms(1)] NewLeaseMaintainer_ok [OF assms(2)] by (simp add: lm_ok_def)

theorem maintainer_state_is_consistent_witness:
  "\<not> lt_Online (lm_state (fst (Maintainer_Acquire (NewLeaseMaintainer NewClient zero_instance [] Second))))"
proof -
  let ?lm = "NewLeaseMaintainer NewClient zero_instance [] Second" and ?net = "loopback sample_server sample_time"
  have "lm_step ?net (\<lambda>w. (w, Inr [])) (?lm, MemProv_New) (fst (Maintainer_Acquire ?lm), MemProv_New)"
    by (rule lm_step.start) (rule surjective_pairing)
  from maintainer_state_is_consistent [of ?net "\<lambda>w. (w, Inr [])", OF r_into_rtranclp [of "lm_step ?net (\<lambda>w. (w, Inr []))", OF this]]
  show ?thesis by (simp add: client_ok_def NewClient_def NewLeaseMaintainer_def Maintainer_Acquire_def zero_lstate_def)
qed



end
